(* ===== verification/Prelude.thy ===== *)
theory Prelude
  imports Main
begin

text \<open>
  The vocabulary the components share.

  \<^item> Effects: a handler of the services is a \<open>prog\<close>, a function from the state it can
    change to an outcome (\<open>Inl\<close> an exception, \<open>Inr\<close> a value) and the state it leaves
    behind. The state survives an exception, as the rows a handler has already written
    survive a \<open>throw\<close>; \<open>bind\<close> is the sequencing of \<open>await\<close>s, \<open>catchp\<close> is
    \<open>try\<close>/\<open>catch\<close>.
  \<^item> JavaScript's \<open>??\<close>, \<open>||\<close> and truthiness on strings, and the string methods the
    sources call (\<open>toLowerCase\<close>, \<open>trim\<close>, \<open>split\<close>, \<open>startsWith\<close>, \<open>slice\<close>, \<open>join\<close>).
    A string is a list of 8-bit characters; \<open>toLowerCase\<close> is the ASCII part of the method.
  \<^item> Database tables as lists of rows, with the Prisma client calls the sources make
    (\<open>findFirst\<close>, \<open>updateMany\<close>, \<open>deleteMany\<close>, \<open>count\<close>). The order of a table is not
    specified: every theorem holds for all tables, so for every order.
\<close>

named_theorems prog_simps \<open>equations that run a program of the model\<close>
named_theorems db_simps \<open>lookups after table updates\<close>

section \<open>Programs with state and exceptions\<close>

type_synonym ('s, 'e, 'a) prog = "'s \<Rightarrow> ('e + 'a) \<times> 's"

definition ret :: "'a \<Rightarrow> ('s, 'e, 'a) prog" where
  "ret x = (\<lambda>s. (Inr x, s))"

definition throw :: "'e \<Rightarrow> ('s, 'e, 'a) prog" where
  "throw e = (\<lambda>s. (Inl e, s))"

definition bind :: "('s, 'e, 'a) prog \<Rightarrow> ('a \<Rightarrow> ('s, 'e, 'b) prog) \<Rightarrow> ('s, 'e, 'b) prog" where
  "bind m f = (\<lambda>s. case m s of (Inl e, s') \<Rightarrow> (Inl e, s') | (Inr x, s') \<Rightarrow> f x s')"

definition andthen :: "('s, 'e, 'a) prog \<Rightarrow> ('s, 'e, 'b) prog \<Rightarrow> ('s, 'e, 'b) prog" where
  "andthen m k = bind m (\<lambda>_. k)"

definition catchp :: "('s, 'e, 'a) prog \<Rightarrow> ('e \<Rightarrow> ('s, 'e, 'a) prog) \<Rightarrow> ('s, 'e, 'a) prog" where
  "catchp m h = (\<lambda>s. case m s of (Inl e, s') \<Rightarrow> h e s' | (Inr x, s') \<Rightarrow> (Inr x, s'))"

definition gets :: "('s \<Rightarrow> 'a) \<Rightarrow> ('s, 'e, 'a) prog" where
  "gets f = (\<lambda>s. (Inr (f s), s))"

definition modify :: "('s \<Rightarrow> 's) \<Rightarrow> ('s, 'e, unit) prog" where
  "modify f = (\<lambda>s. (Inr (), f s))"

definition throw_if :: "bool \<Rightarrow> 'e \<Rightarrow> ('s, 'e, unit) prog" where
  "throw_if b e = (if b then throw e else ret ())"

definition whenp :: "bool \<Rightarrow> ('s, 'e, unit) prog \<Rightarrow> ('s, 'e, unit) prog" where
  "whenp b m = (if b then m else ret ())"

definition lift :: "'e + 'a \<Rightarrow> ('s, 'e, 'a) prog" where
  "lift r = (\<lambda>s. (r, s))"

primrec for_each :: "'b list \<Rightarrow> ('b \<Rightarrow> ('s, 'e, unit) prog) \<Rightarrow> ('s, 'e, unit) prog" where
  "for_each [] f = ret ()"
| "for_each (x # xs) f = andthen (f x) (for_each xs f)"

lemma ret_run [simp, prog_simps]: "ret x s = (Inr x, s)"
  by (simp add: ret_def)

lemma throw_run [simp, prog_simps]: "throw e s = (Inl e, s)"
  by (simp add: throw_def)

lemma gets_run [simp, prog_simps]: "gets f s = (Inr (f s), s)"
  by (simp add: gets_def)

lemma modify_run [simp, prog_simps]: "modify f s = (Inr (), f s)"
  by (simp add: modify_def)

lemma lift_run [simp, prog_simps]: "lift r s = (r, s)"
  by (simp add: lift_def)

lemma throw_if_run [simp, prog_simps]:
  "throw_if b e s = (if b then (Inl e, s) else (Inr (), s))"
  by (simp add: throw_if_def)

lemma whenp_run [simp, prog_simps]: "whenp b m s = (if b then m s else (Inr (), s))"
  by (simp add: whenp_def)

lemma bind_run [prog_simps]:
  "bind m f s = (case m s of (r, s') \<Rightarrow> (case r of Inl e \<Rightarrow> (Inl e, s') | Inr x \<Rightarrow> f x s'))"
  by (auto simp: bind_def split: prod.splits sum.splits)

lemma andthen_run [prog_simps]:
  "andthen m k s = (case m s of (r, s') \<Rightarrow> (case r of Inl e \<Rightarrow> (Inl e, s') | Inr _ \<Rightarrow> k s'))"
  by (simp add: andthen_def bind_run)

lemma catchp_run [prog_simps]:
  "catchp m h s = (case m s of (r, s') \<Rightarrow> (case r of Inl e \<Rightarrow> h e s' | Inr x \<Rightarrow> (Inr x, s')))"
  by (auto simp: catchp_def split: prod.splits sum.splits)

lemma bind_Inr_iff:
  "bind m f s = (Inr y, t) \<longleftrightarrow> (\<exists>x s'. m s = (Inr x, s') \<and> f x s' = (Inr y, t))"
  by (auto simp: bind_run split: prod.splits sum.splits)

lemma andthen_Inr_iff:
  "andthen m k s = (Inr y, t) \<longleftrightarrow> (\<exists>x s'. m s = (Inr x, s') \<and> k s' = (Inr y, t))"
  by (simp add: andthen_def bind_Inr_iff)

text \<open>A program that keeps an invariant, whatever its outcome.\<close>

definition preserves :: "('s \<Rightarrow> bool) \<Rightarrow> ('s, 'e, 'a) prog \<Rightarrow> bool" where
  "preserves I m \<longleftrightarrow> (\<forall>s. I s \<longrightarrow> I (snd (m s)))"

lemma preservesI [intro?]: "(\<And>s. I s \<Longrightarrow> I (snd (m s))) \<Longrightarrow> preserves I m"
  by (simp add: preserves_def)

lemma preservesD: "preserves I m \<Longrightarrow> I s \<Longrightarrow> I (snd (m s))"
  by (simp add: preserves_def)

lemma preserves_run: "preserves I m \<Longrightarrow> m s = (r, t) \<Longrightarrow> I s \<Longrightarrow> I t"
  by (metis preservesD snd_conv)

lemma preserves_ret [simp, intro]: "preserves I (ret x)"
  by (simp add: preserves_def)

lemma preserves_throw [simp, intro]: "preserves I (throw e)"
  by (simp add: preserves_def)

lemma preserves_gets [simp, intro]: "preserves I (gets f)"
  by (simp add: preserves_def)

lemma preserves_lift [simp, intro]: "preserves I (lift r)"
  by (simp add: preserves_def)

lemma preserves_throw_if [simp, intro]: "preserves I (throw_if b e)"
  by (simp add: preserves_def)

lemma preserves_modify: "(\<And>s. I s \<Longrightarrow> I (f s)) \<Longrightarrow> preserves I (modify f)"
  by (simp add: preserves_def)

lemma preserves_bind:
  assumes "preserves I m" and "\<And>x. preserves I (f x)"
  shows "preserves I (bind m f)"
  using assms by (force simp: preserves_def bind_run split: prod.splits sum.splits)

lemma preserves_andthen: "preserves I m \<Longrightarrow> preserves I k \<Longrightarrow> preserves I (andthen m k)"
  unfolding andthen_def by (rule preserves_bind)

lemma preserves_catchp:
  assumes "preserves I m" and "\<And>e. preserves I (h e)"
  shows "preserves I (catchp m h)"
  using assms by (auto simp: preserves_def catchp_run split: prod.splits sum.splits)

lemma preserves_option: "preserves I m \<Longrightarrow> (\<And>x. preserves I (f x)) \<Longrightarrow>
    preserves I (case y of None \<Rightarrow> m | Some x \<Rightarrow> f x)"
  by (cases y) simp_all

lemma preserves_if: "preserves I m \<Longrightarrow> preserves I k \<Longrightarrow> preserves I (if b then m else k)"
  by simp

lemma preserves_whenp: "preserves I m \<Longrightarrow> preserves I (whenp b m)"
  by (simp add: preserves_def)

lemma preserves_for_each: "(\<And>x. preserves I (f x)) \<Longrightarrow> preserves I (for_each xs f)"
  by (induction xs) (auto intro: preserves_andthen)

lemmas preserves_intros =
  preserves_bind preserves_andthen preserves_catchp preserves_whenp preserves_for_each

section \<open>Values of the language\<close>

text \<open>\<open>a ?? b\<close> on an optional value; \<open>a || b\<close> on an optional string.\<close>

definition nullish :: "'a option \<Rightarrow> 'a \<Rightarrow> 'a" where
  "nullish a b = (case a of None \<Rightarrow> b | Some x \<Rightarrow> x)"

definition truthy :: "string option \<Rightarrow> bool" where
  "truthy a = (case a of None \<Rightarrow> False | Some s \<Rightarrow> s \<noteq> [])"

definition or_str :: "string option \<Rightarrow> string \<Rightarrow> string" where
  "or_str a b = (case a of None \<Rightarrow> b | Some s \<Rightarrow> if s = [] then b else s)"

lemma nullish_simps [simp]: "nullish None b = b" "nullish (Some x) b = x"
  by (simp_all add: nullish_def)

lemma truthy_simps [simp]: "\<not> truthy None" "truthy (Some s) \<longleftrightarrow> s \<noteq> []"
  by (simp_all add: truthy_def)

lemma or_str_simps [simp]: "or_str None b = b" "or_str (Some s) b = (if s = [] then b else s)"
  by (simp_all add: or_str_def)

definition lower_char :: "char \<Rightarrow> char" where
  "lower_char c = (let n = (of_char c :: nat) in if 65 \<le> n \<and> n \<le> 90 then char_of (n + 32) else c)"

definition toLowerCase :: "string \<Rightarrow> string" where
  "toLowerCase s = map lower_char s"

definition ws_char :: "char \<Rightarrow> bool" where
  "ws_char c \<longleftrightarrow> (of_char c :: nat) \<in> {9, 10, 11, 12, 13, 32, 160}"

definition trim :: "string \<Rightarrow> string" where
  "trim s = rev (dropWhile ws_char (rev (dropWhile ws_char s)))"

fun split_on :: "char \<Rightarrow> string \<Rightarrow> string list" where
  "split_on c [] = [[]]"
| "split_on c (x # xs) =
     (if x = c then [] # split_on c xs
      else (case split_on c xs of [] \<Rightarrow> [[x]] | y # ys \<Rightarrow> (x # y) # ys))"

fun join :: "string \<Rightarrow> string list \<Rightarrow> string" where
  "join sep [] = []"
| "join sep [x] = x"
| "join sep (x # y # xs) = x @ sep @ join sep (y # xs)"

definition starts_with :: "string \<Rightarrow> string \<Rightarrow> bool" where
  "starts_with p s \<longleftrightarrow> take (length p) s = p"

lemma lower_char_idem [simp]: "lower_char (lower_char c) = lower_char c"
  by (simp add: lower_char_def Let_def)

lemma toLowerCase_idem [simp]: "toLowerCase (toLowerCase s) = toLowerCase s"
  by (simp add: toLowerCase_def)

lemma ws_char_lower [simp]: "ws_char (lower_char c) = ws_char c"
  by (auto simp: ws_char_def lower_char_def Let_def)

lemma dropWhile_map_lower:
  "dropWhile ws_char (map lower_char s) = map lower_char (dropWhile ws_char s)"
  by (induction s) auto

lemma trim_toLowerCase: "trim (toLowerCase s) = toLowerCase (trim s)"
  by (simp add: trim_def toLowerCase_def rev_map dropWhile_map_lower)

lemma dropWhile_dropWhile_rev:
  "dropWhile P (rev (dropWhile P (rev (dropWhile P s)))) = rev (dropWhile P (rev (dropWhile P s)))"
proof (cases "dropWhile P s")
  case Nil
  show ?thesis by (simp only: Nil rev.simps dropWhile.simps)
next
  case (Cons x xs)
  then have x: "\<not> P x" by (metis hd_dropWhile list.distinct(1) list.sel(1))
  then have "dropWhile P (rev xs @ [x]) = dropWhile P (rev xs) @ [x]"
    by (metis dropWhile_append1 dropWhile_append2 dropWhile_eq_Nil_conv append_Nil dropWhile.simps)
  with Cons x show ?thesis by simp
qed

lemma trim_idem [simp]: "trim (trim s) = trim s"
proof -
  let ?u = "dropWhile ws_char s"
  let ?v = "rev (dropWhile ws_char (rev ?u))"
  have 1: "dropWhile ws_char ?v = ?v" by (rule dropWhile_dropWhile_rev)
  have 2: "dropWhile ws_char (rev ?v) = rev ?v" by (simp add: dropWhile_idem)
  show ?thesis unfolding trim_def by (subst 1) (subst 2, simp)
qed

lemma split_on_nonempty [simp]: "split_on c s \<noteq> []"
  by (cases s) (auto split: list.splits)

lemma hd_split_on: "hd (split_on c s) = takeWhile (\<lambda>x. x \<noteq> c) s"
  by (induction s) (auto split: list.splits simp: neq_Nil_conv)

lemma starts_with_append [simp]: "starts_with p (p @ s)"
  by (simp add: starts_with_def)

section \<open>Tables\<close>

definition find_first :: "('r \<Rightarrow> bool) \<Rightarrow> 'r list \<Rightarrow> 'r option" where
  "find_first P t = List.find P t"

definition update_where :: "('r \<Rightarrow> bool) \<Rightarrow> ('r \<Rightarrow> 'r) \<Rightarrow> 'r list \<Rightarrow> 'r list" where
  "update_where P f t = map (\<lambda>r. if P r then f r else r) t"

definition delete_where :: "('r \<Rightarrow> bool) \<Rightarrow> 'r list \<Rightarrow> 'r list" where
  "delete_where P t = filter (\<lambda>r. \<not> P r) t"

definition count_where :: "('r \<Rightarrow> bool) \<Rightarrow> 'r list \<Rightarrow> nat" where
  "count_where P t = length (filter P t)"

definition exists_row :: "('r \<Rightarrow> bool) \<Rightarrow> 'r list \<Rightarrow> bool" where
  "exists_row P t = list_ex P t"

text \<open>
  A filter value of a Prisma \<open>where\<close> clause that is \<open>undefined\<close> at run time is left out of
  the query, so it constrains nothing.
\<close>

definition where_eq :: "'a option \<Rightarrow> 'a \<Rightarrow> bool" where
  "where_eq v x = (case v of None \<Rightarrow> True | Some y \<Rightarrow> x = y)"

lemma where_eq_simps [simp]: "where_eq None x" "where_eq (Some y) x \<longleftrightarrow> x = y"
  by (simp_all add: where_eq_def)

lemma find_first_None_iff [simp]: "find_first P t = None \<longleftrightarrow> (\<forall>r\<in>set t. \<not> P r)"
  by (auto simp: find_first_def find_None_iff)

lemma find_first_SomeD: "find_first P t = Some r \<Longrightarrow> r \<in> set t \<and> P r"
  by (auto simp: find_first_def find_Some_iff)

lemma find_first_append:
  "find_first P (t @ u) = (case find_first P t of None \<Rightarrow> find_first P u | Some r \<Rightarrow> Some r)"
  unfolding find_first_def by (induction t) auto

lemma find_first_Nil [simp]: "find_first P [] = None"
  by (simp add: find_first_def)

lemma find_first_Cons [simp]: "find_first P (r # t) = (if P r then Some r else find_first P t)"
  by (simp add: find_first_def)

lemma exists_row_iff [simp]: "exists_row P t \<longleftrightarrow> (\<exists>r\<in>set t. P r)"
  by (simp add: exists_row_def list_ex_iff)

lemma set_update_where [db_simps]:
  "set (update_where P f t) = (\<lambda>r. if P r then f r else r) ` set t"
  by (simp add: update_where_def)

lemma set_delete_where [db_simps]: "set (delete_where P t) = {r \<in> set t. \<not> P r}"
  by (auto simp: delete_where_def)

lemma map_update_where [db_simps]:
  "(\<And>r. k (f r) = k r) \<Longrightarrow> map k (update_where P f t) = map k t"
  by (simp add: update_where_def)

lemma update_where_Nil [simp]: "update_where P f [] = []"
  by (simp add: update_where_def)

lemma update_where_Cons [simp]:
  "update_where P f (r # t) = (if P r then f r else r) # update_where P f t"
  by (simp add: update_where_def)

lemma delete_where_simps [simp]:
  "delete_where P [] = []"
  "delete_where P (r # t) = (if P r then delete_where P t else r # delete_where P t)"
  by (simp_all add: delete_where_def)

lemma count_where_simps [simp]:
  "count_where P [] = 0"
  "count_where P (r # t) = (if P r then Suc (count_where P t) else count_where P t)"
  by (simp_all add: count_where_def)

lemma distinct_map_delete_where [db_simps]:
  "distinct (map k t) \<Longrightarrow> distinct (map k (delete_where P t))"
  by (simp add: delete_where_def distinct_map_filter)

text \<open>With a key that is unique in the table, the row found by its key is the row itself.\<close>

lemma find_first_unique:
  "distinct (map k t) \<Longrightarrow> r \<in> set t \<Longrightarrow> find_first (\<lambda>x. k x = k r) t = Some r"
  by (induction t) (auto simp: image_iff)

lemma unique_key_eq: "distinct (map k t) \<Longrightarrow> r \<in> set t \<Longrightarrow> q \<in> set t \<Longrightarrow> k r = k q \<Longrightarrow> r = q"
  by (auto simp: distinct_map inj_on_def)


lemma update_where_append [db_simps]: "update_where P f (t @ u) = update_where P f t @ update_where P f u"
  by (simp add: update_where_def)

lemma update_where_none [db_simps]: "\<forall>r\<in>set t. \<not> P r \<Longrightarrow> update_where P f t = t"
  by (simp add: update_where_def map_idI)

lemma find_first_none: "\<forall>r\<in>set t. \<not> P r \<Longrightarrow> find_first P t = None"
  by simp

lemma find_first_last:
  "\<forall>r\<in>set t. \<not> P r \<Longrightarrow> find_first P (t @ [x]) = (if P x then Some x else None)"
  by (simp add: find_first_append find_first_none)

lemma find_first_update_where:
  "(\<And>r. P (f r) = P r) \<Longrightarrow>
    find_first P (update_where Q f t) = map_option (\<lambda>r. if Q r then f r else r) (find_first P t)"
  by (induction t) auto

lemma filter_update_where:
  "(\<And>q. P q \<Longrightarrow> \<not> Q q \<and> \<not> Q (f q)) \<Longrightarrow> filter Q (update_where P f t) = filter Q t"
  by (induction t) auto

lemma count_where_update_all: "(\<And>q. P q \<Longrightarrow> \<not> P (f q)) \<Longrightarrow> count_where P (update_where P f t) = 0"
  by (induction t) auto

lemma count_where_update_one:
  assumes "distinct (map k t)" and "r \<in> set t" and "P r" and "\<not> P (f r)"
  shows "Suc (count_where P (update_where (\<lambda>q. k q = k r) f t)) = count_where P t"
  using assms(1,2)
proof (induction t)
  case (Cons q t)
  show ?case
  proof (cases "q = r")
    case True
    then have "\<forall>x\<in>set t. k x \<noteq> k r" using Cons.prems(1) by (auto simp: image_iff)
    then show ?thesis using True assms(3,4) by (simp add: update_where_none)
  next
    case False
    then have "k q \<noteq> k r" "r \<in> set t" using Cons.prems by (auto simp: image_iff)
    then show ?thesis using Cons by simp
  qed
qed simp

section \<open>Sorting and pages\<close>

text \<open>\<open>orderBy\<close>: a stable insertion sort, so that the order of rows that compare equal is the one given.\<close>

fun insert_by :: "('a \<Rightarrow> 'a \<Rightarrow> bool) \<Rightarrow> 'a \<Rightarrow> 'a list \<Rightarrow> 'a list" where
  "insert_by le x [] = [x]"
| "insert_by le x (y # ys) = (if le x y then x # y # ys else y # insert_by le x ys)"

definition sort_by :: "('a \<Rightarrow> 'a \<Rightarrow> bool) \<Rightarrow> 'a list \<Rightarrow> 'a list" where
  "sort_by le xs = foldr (insert_by le) xs []"

lemma set_insert_by [simp]: "set (insert_by le x xs) = insert x (set xs)"
  by (induction xs) auto

lemma length_insert_by [simp]: "length (insert_by le x xs) = Suc (length xs)"
  by (induction xs) auto

lemma sort_by_simps [simp]: "set (sort_by le xs) = set xs" "length (sort_by le xs) = length xs"
  by (induction xs) (simp_all add: sort_by_def)

lemma count_insert_by: "count_list (insert_by le x xs) a = count_list (x # xs) a"
  by (induction xs) auto

lemma count_sort_by [simp]: "count_list (sort_by le xs) a = count_list xs a"
  by (induction xs) (simp_all add: sort_by_def count_insert_by)

lemma sorted_insert_by:
  assumes "\<And>x y. le x y \<or> le y x" and "\<And>x y z. le x y \<Longrightarrow> le y z \<Longrightarrow> le x z" and "sorted_wrt le xs"
  shows "sorted_wrt le (insert_by le x xs)"
  using assms(3)
proof (induction xs)
  case (Cons y ys)
  show ?case
  proof (cases "le x y")
    case True
    then show ?thesis using Cons.prems assms(2) by auto
  next
    case False
    then have "le y x" using assms(1) by blast
    with False Cons show ?thesis by auto
  qed
qed simp

lemma sorted_sort_by:
  assumes "\<And>x y. le x y \<or> le y x" and "\<And>x y z. le x y \<Longrightarrow> le y z \<Longrightarrow> le x z"
  shows "sorted_wrt le (sort_by le xs)"
  unfolding sort_by_def by (induction xs) (auto intro!: sorted_insert_by assms(1) intro: assms(2))

text \<open>A list in order is determined by its members where the order separates them.\<close>

lemma sorted_unique_by:
  assumes "sorted_wrt le xs" and "sorted_wrt le ys" and "count_list xs = count_list ys"
    and "\<And>x y. x \<in> set xs \<Longrightarrow> y \<in> set xs \<Longrightarrow> le x y \<Longrightarrow> le y x \<Longrightarrow> x = y"
  shows "xs = ys"
  using assms
proof (induction xs arbitrary: ys)
  case Nil
  then have "count_list ys y = 0" for y by (metis count_list.simps(1))
  then have "y \<notin> set ys" for y by (simp add: count_list_0_iff)
  then show ?case by (cases ys) auto
next
  case (Cons x xs)
  have set: "set ys = set (x # xs)" using Cons.prems(3) by (metis count_list_0_iff subsetI subset_antisym)
  then obtain y zs where ys: "ys = y # zs" by (cases ys) auto
  have "x = y"
  proof (rule ccontr)
    assume "x \<noteq> y"
    then have "y \<in> set xs" "x \<in> set zs" using set by (auto simp: ys)
    then have "le x y" "le y x" using Cons.prems(1,2) by (auto simp: ys)
    then show False using Cons.prems(4) [of x y] \<open>y \<in> set xs\<close> \<open>x \<noteq> y\<close> by simp
  qed
  moreover have "count_list xs = count_list zs"
    using Cons.prems(3) unfolding ys \<open>x = y\<close> fun_eq_iff by (simp split: if_splits) metis
  ultimately show ?case using Cons.IH [of zs] Cons.prems(1,2,4) by (simp add: ys)
qed

text \<open>Consecutive pages make up the list.\<close>

lemma concat_pages: "concat (map (\<lambda>p. take l (drop (p * l) xs)) [0..<n]) = take (n * l) xs"
proof (induction n)
  case (Suc n)
  have "take (Suc n * l) xs = take (n * l) xs @ take l (drop (n * l) xs)"
    by (metis add.commute mult_Suc take_add)
  with Suc show ?case by simp
qed simp

end
