(* ===== verification/SocketRegistry.thy ===== *)
theory SocketRegistry
  imports Prelude "HOL-Library.AList"
begin

text \<open>
  \<open>apps/gateway/src/modules/websocket/socket-registry.service.ts\<close>: which sockets belong to which
  user. A JavaScript \<open>Map\<close> is an association list in insertion order (\<open>AList.update\<close> replaces
  the value of a key in place, or appends), a \<open>Set\<close> a list in insertion order. What the gateway
  relies on is the locale \<open>socket_registry\<close>, which the service instantiates.
\<close>

section \<open>The service\<close>

record registry =
  userSockets :: "(string \<times> string list) list"
  socketToUser :: "(string \<times> string) list"

definition registry_empty :: registry where
  "registry_empty = \<lparr>userSockets = [], socketToUser = []\<rparr>"

definition set_add :: "'a \<Rightarrow> 'a list \<Rightarrow> 'a list" where
  "set_add x xs = (if x \<in> set xs then xs else xs @ [x])"

definition getSocketsByUser :: "string \<Rightarrow> registry \<Rightarrow> string list" where
  "getSocketsByUser userId g = nullish (map_of (userSockets g) userId) []"

definition getUserBySocket :: "string \<Rightarrow> registry \<Rightarrow> string option" where
  "getUserBySocket socketId g = map_of (socketToUser g) socketId"

definition register :: "string \<Rightarrow> string \<Rightarrow> registry \<Rightarrow> registry" where
  "register userId socketId g =
     (let us = (if map_of (userSockets g) userId = None then AList.update userId [] (userSockets g)
                else userSockets g)
      in g\<lparr>userSockets := AList.update userId (set_add socketId (nullish (map_of us userId) [])) us,
           socketToUser := AList.update socketId userId (socketToUser g)\<rparr>)"

definition unregister :: "string \<Rightarrow> registry \<Rightarrow> registry" where
  "unregister socketId g = (case map_of (socketToUser g) socketId of
     None \<Rightarrow> g
   | Some userId \<Rightarrow>
      (if userId = [] then g
       else
         (let us = (case map_of (userSockets g) userId of
               None \<Rightarrow> userSockets g
             | Some sockets \<Rightarrow>
                (let rest = removeAll socketId sockets
                 in if rest = [] then AList.delete userId (userSockets g)
                    else AList.update userId rest (userSockets g)))
          in g\<lparr>userSockets := us, socketToUser := AList.delete socketId (socketToUser g)\<rparr>)))"

definition isUserOnline :: "string \<Rightarrow> registry \<Rightarrow> bool" where
  "isUserOnline userId g = (case map_of (userSockets g) userId of None \<Rightarrow> False | Some ss \<Rightarrow> 0 < length ss)"

definition getOnlineUsersCount :: "registry \<Rightarrow> nat" where
  "getOnlineUsersCount g = length (userSockets g)"

definition getTotalConnectionsCount :: "registry \<Rightarrow> nat" where
  "getTotalConnectionsCount g = length (socketToUser g)"

section \<open>What the gateway relies on\<close>

locale socket_registry =
  fixes inv :: "'g \<Rightarrow> bool"
    and reg :: "string \<Rightarrow> string \<Rightarrow> 'g \<Rightarrow> 'g"
    and unreg :: "string \<Rightarrow> 'g \<Rightarrow> 'g"
    and sockets :: "string \<Rightarrow> 'g \<Rightarrow> string list"
    and owner :: "string \<Rightarrow> 'g \<Rightarrow> string option"
    and online :: "string \<Rightarrow> 'g \<Rightarrow> bool"
  assumes reg_inv: "inv g \<Longrightarrow> u \<noteq> [] \<Longrightarrow> owner s g = None \<or> owner s g = Some u \<Longrightarrow> inv (reg u s g)"
    and unreg_inv: "inv g \<Longrightarrow> inv (unreg s g)"
    and reg_owner: "inv g \<Longrightarrow> u \<noteq> [] \<Longrightarrow> owner s' (reg u s g) = (if s' = s then Some u else owner s' g)"
    and unreg_owner: "inv g \<Longrightarrow> owner s' (unreg s g) = (if s' = s then None else owner s' g)"
    and sockets_owner: "inv g \<Longrightarrow> s \<in> set (sockets u g) \<longleftrightarrow> owner s g = Some u"
    and sockets_distinct: "inv g \<Longrightarrow> distinct (sockets u g)"
    and online_sockets: "inv g \<Longrightarrow> online u g \<longleftrightarrow> sockets u g \<noteq> []"
begin

lemma online_owner: "inv g \<Longrightarrow> online u g \<longleftrightarrow> (\<exists>s. owner s g = Some u)"
  by (simp add: online_sockets sockets_owner [symmetric] ex_in_conv)

lemma reg_online: "inv g \<Longrightarrow> u \<noteq> [] \<Longrightarrow> owner s g = None \<or> owner s g = Some u \<Longrightarrow>
    online u' (reg u s g) \<longleftrightarrow> u' = u \<or> online u' g"
  unfolding online_owner [OF reg_inv] online_owner reg_owner by (metis option.discI option.inject)

lemma unreg_online: "inv g \<Longrightarrow> online u (unreg s g) \<longleftrightarrow> (\<exists>s'. s' \<noteq> s \<and> owner s' g = Some u)"
  unfolding online_owner [OF unreg_inv] unreg_owner by (metis option.discI)

text \<open>A message for a user reaches each of the user's sockets once, and no other socket.\<close>

lemma delivered_once: "inv g \<Longrightarrow> length (filter (\<lambda>s'. s' = s) (sockets u g)) = (if owner s g = Some u then 1 else 0)"
  using sockets_distinct [of g u] sockets_owner [of g s u]
  by (auto simp: distinct_length_filter Int_def conj_commute cong: conj_cong)

end

section \<open>The service keeps the contract\<close>

definition registry_ok :: "registry \<Rightarrow> bool" where
  "registry_ok g \<longleftrightarrow> distinct (map fst (userSockets g)) \<and> distinct (map fst (socketToUser g))
     \<and> (\<forall>u. map_of (userSockets g) u \<noteq> Some []) \<and> (\<forall>u. distinct (getSocketsByUser u g))
     \<and> (\<forall>s u. getUserBySocket s g = Some u \<longleftrightarrow> s \<in> set (getSocketsByUser u g))
     \<and> (\<forall>s. getUserBySocket s g \<noteq> Some [])"

lemma set_add_simps [simp]: "set (set_add x xs) = insert x (set xs)" "set_add x xs \<noteq> []"
  by (auto simp: set_add_def)

lemma distinct_set_add [simp]: "distinct xs \<Longrightarrow> distinct (set_add x xs)"
  by (simp add: set_add_def)

lemma register_sockets: "getSocketsByUser u' (register u s g) =
    (if u' = u then set_add s (getSocketsByUser u g) else getSocketsByUser u' g)"
  by (auto simp: register_def getSocketsByUser_def update_conv' Let_def)

lemma register_user: "getUserBySocket s' (register u s g) = (if s' = s then Some u else getUserBySocket s' g)"
  by (simp add: register_def getUserBySocket_def update_conv' Let_def)

lemma unregister_sockets:
  assumes "getUserBySocket s g = Some u" and "u \<noteq> []"
  shows "getSocketsByUser u' (unregister s g) =
    (if u' = u then removeAll s (getSocketsByUser u g) else getSocketsByUser u' g)"
  using assms
  by (auto simp: unregister_def getSocketsByUser_def getUserBySocket_def update_conv' delete_conv'
      Let_def nullish_def split: option.splits)

lemma unregister_user:
  assumes "getUserBySocket s g \<noteq> Some []"
  shows "getUserBySocket s' (unregister s g) = (if s' = s then None else getUserBySocket s' g)"
  using assms
  by (auto simp: unregister_def getUserBySocket_def delete_conv' Let_def split: option.splits)

lemma register_entry: "map_of (userSockets (register u s g)) u' =
    (if u' = u then Some (set_add s (getSocketsByUser u g)) else map_of (userSockets g) u')"
  by (simp add: register_def getSocketsByUser_def update_conv' Let_def nullish_def)

lemma unregister_entry:
  assumes "map_of (userSockets g) u' \<noteq> Some []"
  shows "map_of (userSockets (unregister s g)) u' \<noteq> Some []"
  using assms by (auto simp: unregister_def Let_def update_conv' delete_conv' split: option.split)

lemma registry_okD:
  assumes "registry_ok g"
  shows "distinct (map fst (userSockets g))" "distinct (map fst (socketToUser g))"
    "\<And>u. map_of (userSockets g) u \<noteq> Some []"
    "\<And>s u. getUserBySocket s g = Some u \<longleftrightarrow> s \<in> set (getSocketsByUser u g)"
    "\<And>s. getUserBySocket s g \<noteq> Some []"
    "\<And>u. distinct (getSocketsByUser u g)"
  using assms unfolding registry_ok_def by blast+

lemma registry_ok_register:
  assumes "registry_ok g" and "u \<noteq> []" and "getUserBySocket s g = None \<or> getUserBySocket s g = Some u"
  shows "registry_ok (register u s g)"
  unfolding registry_ok_def
proof (intro conjI allI)
  note ok = registry_okD [OF assms(1)]
  show "distinct (map fst (userSockets (register u s g)))"
    using ok(1) by (simp add: register_def Let_def distinct_update)
  show "distinct (map fst (socketToUser (register u s g)))"
    using ok(2) by (simp add: register_def Let_def distinct_update)
  show "map_of (userSockets (register u s g)) u' \<noteq> Some []" for u'
    using ok(3) by (simp add: register_entry)
  show "distinct (getSocketsByUser u' (register u s g))" for u'
    using ok(6) by (simp add: register_sockets)
  show "getUserBySocket s' (register u s g) = Some u' \<longleftrightarrow> s' \<in> set (getSocketsByUser u' (register u s g))"
    for s' u'
    using assms(3) by (cases "s' = s"; cases "u' = u") (auto simp: register_user register_sockets ok(4) [symmetric])
  show "getUserBySocket s' (register u s g) \<noteq> Some []" for s'
    using ok(5) [of s'] assms(2) by (simp add: register_user)
qed

lemma unregister_absent: "getUserBySocket s g = None \<Longrightarrow> unregister s g = g"
  by (simp add: unregister_def getUserBySocket_def)

lemma registry_ok_unregister:
  assumes "registry_ok g"
  shows "registry_ok (unregister s g)"
proof (cases "getUserBySocket s g")
  case None
  then show ?thesis using assms by (simp add: unregister_absent)
next
  case (Some u)
  note ok = registry_okD [OF assms]
  have u: "u \<noteq> []" using Some ok(5) by auto
  show ?thesis
    unfolding registry_ok_def
  proof (intro conjI allI)
    show "distinct (map fst (userSockets (unregister s g)))"
      using ok(1) by (simp add: unregister_def Let_def distinct_update distinct_delete split: option.split)
    show "distinct (map fst (socketToUser (unregister s g)))"
      using ok(2) by (simp add: unregister_def Let_def distinct_delete split: option.split)
    show "map_of (userSockets (unregister s g)) u' \<noteq> Some []" for u'
      by (rule unregister_entry [OF ok(3)])
    show "distinct (getSocketsByUser u' (unregister s g))" for u'
      using ok(6) by (simp add: unregister_sockets [OF Some u] distinct_removeAll)
    show "getUserBySocket s' (unregister s g) = Some u' \<longleftrightarrow> s' \<in> set (getSocketsByUser u' (unregister s g))"
      for s' u'
      using Some
      by (cases "s' = s"; cases "u' = u")
        (auto simp: unregister_user [OF ok(5)] unregister_sockets [OF Some u] ok(4) [symmetric])
    show "getUserBySocket s' (unregister s g) \<noteq> Some []" for s'
      using ok(5) by (simp add: unregister_user)
  qed
qed

interpretation sreg: socket_registry registry_ok register unregister getSocketsByUser getUserBySocket isUserOnline
proof
  fix g u s s'
  show "registry_ok g \<Longrightarrow> u \<noteq> [] \<Longrightarrow> getUserBySocket s g = None \<or> getUserBySocket s g = Some u \<Longrightarrow>
      registry_ok (register u s g)"
    by (rule registry_ok_register)
  show "registry_ok g \<Longrightarrow> registry_ok (unregister s g)"
    by (rule registry_ok_unregister)
  show "getUserBySocket s' (register u s g) = (if s' = s then Some u else getUserBySocket s' g)"
    by (rule register_user)
  show "registry_ok g \<Longrightarrow> getUserBySocket s' (unregister s g) = (if s' = s then None else getUserBySocket s' g)"
    by (rule unregister_user [OF registry_okD(5)])
  show "registry_ok g \<Longrightarrow> s \<in> set (getSocketsByUser u g) \<longleftrightarrow> getUserBySocket s g = Some u"
    by (simp add: registry_okD(4))
  show "registry_ok g \<Longrightarrow> distinct (getSocketsByUser u g)"
    by (rule registry_okD(6))
  show "registry_ok g \<Longrightarrow> isUserOnline u g \<longleftrightarrow> getSocketsByUser u g \<noteq> []"
    by (auto simp: isUserOnline_def getSocketsByUser_def split: option.split)
qed

lemma registry_ok_empty [simp]: "registry_ok registry_empty"
  by (simp add: registry_ok_def registry_empty_def getUserBySocket_def getSocketsByUser_def)

section \<open>Counting\<close>

lemma users_online:
  assumes "registry_ok g"
  shows "fst ` set (userSockets g) = {u. isUserOnline u g}"
proof -
  have "isUserOnline u g \<longleftrightarrow> u \<in> dom (map_of (userSockets g))" for u
    using registry_okD(3) [OF assms, of u] by (cases "map_of (userSockets g) u") (auto simp: isUserOnline_def)
  then show ?thesis by (simp add: dom_map_of_conv_image_fst)
qed

lemma counts_true:
  assumes "registry_ok g"
  shows "getOnlineUsersCount g = card {u. isUserOnline u g}"
    and "getTotalConnectionsCount g = card {s. getUserBySocket s g \<noteq> None}"
proof -
  show "getOnlineUsersCount g = card {u. isUserOnline u g}"
    using registry_okD(1) [OF assms] distinct_card [of "map fst (userSockets g)"]
    by (simp add: getOnlineUsersCount_def users_online [OF assms, symmetric])
  have "{s. getUserBySocket s g \<noteq> None} = fst ` set (socketToUser g)"
    unfolding getUserBySocket_def dom_map_of_conv_image_fst [symmetric] by auto
  then show "getTotalConnectionsCount g = card {s. getUserBySocket s g \<noteq> None}"
    using registry_okD(2) [OF assms] distinct_card [of "map fst (socketToUser g)"]
    by (simp add: getTotalConnectionsCount_def)
qed

section \<open>Histories\<close>

text \<open>
  The specification is one partial map from sockets to users. A history is legal when every
  registered socket is new at that moment (the socket server gives every connection an id of
  its own) and its user has a name.
\<close>

datatype registry_op = Reg string string | Unreg string

fun run_op :: "registry_op \<Rightarrow> registry \<Rightarrow> registry" where
  "run_op (Reg u s) g = register u s g"
| "run_op (Unreg s) g = unregister s g"

fun spec_op :: "registry_op \<Rightarrow> (string \<rightharpoonup> string) \<Rightarrow> (string \<rightharpoonup> string)" where
  "spec_op (Reg u s) m = m(s \<mapsto> u)"
| "spec_op (Unreg s) m = m(s := None)"

fun legal :: "registry_op list \<Rightarrow> (string \<rightharpoonup> string) \<Rightarrow> bool" where
  "legal [] m \<longleftrightarrow> True"
| "legal (Reg u s # ops) m \<longleftrightarrow> u \<noteq> [] \<and> m s = None \<and> legal ops (spec_op (Reg u s) m)"
| "legal (Unreg s # ops) m \<longleftrightarrow> legal ops (spec_op (Unreg s) m)"

lemma run_ops_refine:
  "registry_ok g \<Longrightarrow> (\<lambda>s. getUserBySocket s g) = m \<Longrightarrow> legal ops m \<Longrightarrow>
    registry_ok (fold run_op ops g) \<and> (\<lambda>s. getUserBySocket s (fold run_op ops g)) = fold spec_op ops m"
proof (induction ops m arbitrary: g rule: legal.induct)
  case (1 m)
  then show ?case by simp
next
  case (2 u s ops m)
  have "registry_ok (register u s g)" using sreg.reg_inv [of g u s] 2 by auto
  moreover have "(\<lambda>s'. getUserBySocket s' (register u s g)) = spec_op (Reg u s) m"
    using 2 by (auto simp: register_user)
  ultimately show ?case using "2.IH" [of "register u s g"] "2.prems"(3) by (simp del: spec_op.simps)
next
  case (3 s ops m)
  have "(\<lambda>s'. getUserBySocket s' (unregister s g)) = spec_op (Unreg s) m"
    using 3 sreg.unreg_owner [of g _ s] by auto
  then show ?case
    using "3.IH" [of "unregister s g"] "3.prems" sreg.unreg_inv [of g s] by (simp del: spec_op.simps)
qed

text \<open>
  C9. The registry implements a map from sockets to users: after any legal history of
  connections and disconnections, a message to a user addresses exactly the sockets the
  specification gives that user, each once, the reverse lookup is the specification's, a user is
  online exactly while one of the sockets is theirs, and the reported numbers of online users
  and of connections are the true ones.
\<close>
theorem registry_refines:
  assumes "legal ops Map.empty"
  shows "let g = fold run_op ops registry_empty; m = fold spec_op ops Map.empty in
    (\<forall>s. getUserBySocket s g = m s)
    \<and> (\<forall>u. distinct (getSocketsByUser u g) \<and> set (getSocketsByUser u g) = {s. m s = Some u})
    \<and> (\<forall>u. isUserOnline u g \<longleftrightarrow> u \<in> ran m)
    \<and> getOnlineUsersCount g = card (ran m) \<and> getTotalConnectionsCount g = card (dom m)"
proof -
  let ?g = "fold run_op ops registry_empty" and ?m = "fold spec_op ops Map.empty"
  have empty: "(\<lambda>s. getUserBySocket s registry_empty) = Map.empty"
    by (simp add: registry_empty_def getUserBySocket_def)
  have ok: "registry_ok ?g" and m: "\<And>s. getUserBySocket s ?g = ?m s"
    using run_ops_refine [OF registry_ok_empty empty assms] by (simp_all add: fun_eq_iff)
  have sockets: "set (getSocketsByUser u ?g) = {s. ?m s = Some u}" for u
    using sreg.sockets_owner [OF ok, of _ u] by (auto simp: m)
  have online: "isUserOnline u ?g \<longleftrightarrow> u \<in> ran ?m" for u
    by (simp add: sreg.online_owner [OF ok] m ran_def)
  show ?thesis
    using counts_true [OF ok] registry_okD(6) [OF ok]
    by (simp add: m sockets online dom_def)
qed

lemma registry_refines_witness:
  "getSocketsByUser ''u'' (fold run_op [Reg ''u'' ''s1'', Reg ''u'' ''s2'', Reg ''v'' ''s3'', Unreg ''s1''] registry_empty)
      = [''s2'']
    \<and> getOnlineUsersCount (fold run_op [Reg ''u'' ''s1'', Reg ''u'' ''s2'', Reg ''v'' ''s3'', Unreg ''s1''] registry_empty)
      = card (ran (fold spec_op [Reg ''u'' ''s1'', Reg ''u'' ''s2'', Reg ''v'' ''s3'', Unreg ''s1''] Map.empty))"
proof
  let ?ops = "[Reg ''u'' ''s1'', Reg ''u'' ''s2'', Reg ''v'' ''s3'', Unreg ''s1'']"
  show "getSocketsByUser ''u'' (fold run_op ?ops registry_empty) = [''s2'']" by code_simp
  have "legal ?ops Map.empty" by simp
  from registry_refines [OF this] show "getOnlineUsersCount (fold run_op ?ops registry_empty)
      = card (ran (fold spec_op ?ops Map.empty))"
    unfolding Let_def by blast
qed

end
