(* ===== verification/FixedWindow.thy ===== *)
theory FixedWindow
  imports Prelude
begin

text \<open>
  The contract of a fixed-window rate limiter, shared by the Redis limiter of the HTTP routes
  (\<open>RateLimiter\<close>) and the in-memory limiter of the WebSocket gateway (\<open>WsGateway\<close>).

  The state holds at most one window: a count and the last instant at which it is live. A hit
  outside a live window opens one of length \<open>span\<close> with count 1; a hit inside it is allowed, and
  counted, while the count is below \<open>limit\<close>, and refused, without effect, from then on. From
  these laws the locale derives what a limiter is for: no interval as long as the window has
  more than \<open>2 * limit\<close> allowed hits (\<open>burst_bound\<close>), a window itself no more than \<open>limit\<close>
  (\<open>window_bound\<close>), and a refusal only ever follows \<open>limit\<close> allowed hits (\<open>refusal_justified\<close>).
\<close>

definition live :: "(int \<times> int) option \<Rightarrow> int \<Rightarrow> (int \<times> int) option" where
  "live w t = (case w of None \<Rightarrow> None | Some (c, e) \<Rightarrow> if e < t then None else Some (c, e))"

lemma live_None [simp]: "live None t = None"
  by (simp add: live_def)

lemma live_Some_iff: "live w t = Some (c, e) \<longleftrightarrow> w = Some (c, e) \<and> t \<le> e"
  by (auto simp: live_def split: option.splits if_splits)

lemma live_None_iff: "live w t = None \<longleftrightarrow> w = None \<or> (\<exists>c e. w = Some (c, e) \<and> e < t)"
  by (auto simp: live_def split: option.splits if_splits)

text \<open>The hits of a run with their outcomes, and the state after it.\<close>

primrec run_hits :: "(int \<Rightarrow> 's \<Rightarrow> bool \<times> 's) \<Rightarrow> 's \<Rightarrow> int list \<Rightarrow> (int \<times> bool) list" where
  "run_hits hit s [] = []"
| "run_hits hit s (t # ts) = (t, fst (hit t s)) # run_hits hit (snd (hit t s)) ts"

primrec after_hits :: "(int \<Rightarrow> 's \<Rightarrow> bool \<times> 's) \<Rightarrow> 's \<Rightarrow> int list \<Rightarrow> 's" where
  "after_hits hit s [] = s"
| "after_hits hit s (t # ts) = after_hits hit (snd (hit t s)) ts"

text \<open>How many hits a run allowed up to an instant, and in a closed interval.\<close>

definition allowed_upto :: "int \<Rightarrow> (int \<times> bool) list \<Rightarrow> nat" where
  "allowed_upto b tr = length (filter (\<lambda>(t, ok). ok \<and> t \<le> b) tr)"

definition allowed_in :: "int \<Rightarrow> int \<Rightarrow> (int \<times> bool) list \<Rightarrow> nat" where
  "allowed_in a b tr = length (filter (\<lambda>(t, ok). ok \<and> a \<le> t \<and> t \<le> b) tr)"

lemma allowed_upto_simps [simp]:
  "allowed_upto b [] = 0"
  "allowed_upto b ((t, ok) # tr) = (if ok \<and> t \<le> b then Suc (allowed_upto b tr) else allowed_upto b tr)"
  by (simp_all add: allowed_upto_def)

lemma allowed_in_simps [simp]:
  "allowed_in a b [] = 0"
  "allowed_in a b ((t, ok) # tr) =
     (if ok \<and> a \<le> t \<and> t \<le> b then Suc (allowed_in a b tr) else allowed_in a b tr)"
  by (simp_all add: allowed_in_def)

locale window_limiter =
  fixes inv :: "'s \<Rightarrow> bool"
    and win :: "'s \<Rightarrow> (int \<times> int) option"
    and hit :: "int \<Rightarrow> 's \<Rightarrow> bool \<times> 's"
    and limit :: nat
    and span :: int
  assumes inv_hit: "inv s \<Longrightarrow> inv (snd (hit t s))"
    and hit_fresh: "inv s \<Longrightarrow> 0 < limit \<Longrightarrow> 0 < span \<Longrightarrow> live (win s) t = None \<Longrightarrow>
      fst (hit t s) \<and> win (snd (hit t s)) = Some (1, t + span)"
    and hit_counted: "inv s \<Longrightarrow> 0 < limit \<Longrightarrow> 0 < span \<Longrightarrow> live (win s) t = Some (c, e) \<Longrightarrow>
      c < int limit \<Longrightarrow> fst (hit t s) \<and> win (snd (hit t s)) = Some (c + 1, e)"
    and hit_refused: "inv s \<Longrightarrow> 0 < limit \<Longrightarrow> 0 < span \<Longrightarrow> live (win s) t = Some (c, e) \<Longrightarrow>
      int limit \<le> c \<Longrightarrow> \<not> fst (hit t s) \<and> win (snd (hit t s)) = win s"
begin

abbreviation outcomes :: "'s \<Rightarrow> int list \<Rightarrow> (int \<times> bool) list" where
  "outcomes \<equiv> run_hits hit"

abbreviation after :: "'s \<Rightarrow> int list \<Rightarrow> 's" where
  "after \<equiv> after_hits hit"

definition room :: "'s \<Rightarrow> bool" where
  "room s \<longleftrightarrow> (case win s of None \<Rightarrow> True | Some (c, e) \<Rightarrow> 0 \<le> c \<and> c \<le> int limit)"

lemma outcomes_after_end: "\<forall>t\<in>set ts. b < t \<Longrightarrow> allowed_upto b (outcomes s ts) = 0"
  by (induction ts arbitrary: s) auto

lemma hit_cases:
  assumes "inv s" "0 < limit" "0 < span"
  obtains (fresh) "live (win s) t = None" "fst (hit t s)" "win (snd (hit t s)) = Some (1, t + span)"
  | (counted) c e where "win s = Some (c, e)" "t \<le> e" "c < int limit" "fst (hit t s)"
      "win (snd (hit t s)) = Some (c + 1, e)"
  | (refused) c e where "win s = Some (c, e)" "t \<le> e" "int limit \<le> c" "\<not> fst (hit t s)"
      "win (snd (hit t s)) = win s"
proof (cases "live (win s) t")
  case None
  with hit_fresh [OF assms this] fresh show thesis by blast
next
  case (Some w)
  obtain c e where w: "w = (c, e)" by (cases w)
  with Some have l: "live (win s) t = Some (c, e)" by simp
  then have we: "win s = Some (c, e)" "t \<le> e" by (simp_all add: live_Some_iff)
  show thesis
  proof (cases "c < int limit")
    case True
    with hit_counted [OF assms l this] we counted show thesis by blast
  next
    case False
    then have "int limit \<le> c" by simp
    with hit_refused [OF assms l this] we refused show thesis by blast
  qed
qed

lemma room_hit: "inv s \<Longrightarrow> 0 < limit \<Longrightarrow> 0 < span \<Longrightarrow> room s \<Longrightarrow> room (snd (hit t s))"
  by (rule hit_cases [of s t]) (auto simp: room_def)

lemma after_inv: "inv s \<Longrightarrow> inv (after s ts)"
  by (induction ts arbitrary: s) (auto simp: inv_hit)

lemma after_room: "inv s \<Longrightarrow> 0 < limit \<Longrightarrow> 0 < span \<Longrightarrow> room s \<Longrightarrow> room (after s ts)"
  by (induction ts arbitrary: s) (auto simp: inv_hit room_hit)

text \<open>Hits inside a window that has room for them are all counted.\<close>

lemma fill_window:
  "inv s \<Longrightarrow> 0 < limit \<Longrightarrow> 0 < span \<Longrightarrow> win s = Some (c, e) \<Longrightarrow> c + int (length ts) \<le> int limit \<Longrightarrow> \<forall>t\<in>set ts. t \<le> e \<Longrightarrow>
     inv (after s ts) \<and> win (after s ts) = Some (c + int (length ts), e)"
proof (induction ts arbitrary: s c)
  case (Cons t ts)
  have "live (win s) t = Some (c, e)" "c < int limit" using Cons.prems(4-6) by (simp_all add: live_Some_iff)
  with hit_counted [OF Cons.prems(1-3)] have "win (snd (hit t s)) = Some (c + 1, e)" by blast
  with Cons.IH [OF inv_hit [OF Cons.prems(1)] Cons.prems(2,3)] Cons.prems(5,6) show ?case
    by (simp add: algebra_simps)
qed simp

lemma open_and_fill:
  assumes "inv s" "0 < limit" "0 < span" "live (win s) t = None" "Suc (length ts) \<le> limit" "\<forall>u\<in>set ts. u \<le> t + span"
  shows "inv (after s (t # ts)) \<and> win (after s (t # ts)) = Some (1 + int (length ts), t + span)"
  using fill_window [OF inv_hit [OF assms(1)] assms(2,3), of t 1 "t + span" ts] hit_fresh [OF assms(1-4)] assms(5,6) by simp

text \<open>Once a window is full, the hits up to its end are refused without effect, and the next one is served.\<close>

lemma full_window:
  assumes "inv s" "0 < limit" "0 < span" "win s = Some (c, e)" "int limit \<le> c"
  obtains s' where "inv s'" "win s' = Some (c, e)"
    "outcomes s ts = map (\<lambda>t. (t, False)) (takeWhile (\<lambda>t. t \<le> e) ts) @ outcomes s' (dropWhile (\<lambda>t. t \<le> e) ts)"
  using assms
proof (induction ts arbitrary: s thesis)
  case (Cons t ts)
  show ?case
  proof (cases "t \<le> e")
    case True
    with hit_refused [OF Cons.prems(2-4)] Cons.prems(5,6)
    have "\<not> fst (hit t s)" "win (snd (hit t s)) = Some (c, e)" by (simp_all add: live_Some_iff)
    with Cons.IH [OF _ inv_hit [OF Cons.prems(2)] Cons.prems(3,4) _ Cons.prems(6), of t] Cons.prems(1) True
    show ?thesis by auto
  next
    case False
    then show ?thesis using Cons.prems(1) [of s] Cons.prems by simp
  qed
qed simp

lemma recovers:
  assumes "inv s" "0 < limit" "0 < span" "win s = Some (c, e)" "int limit \<le> c" "x \<in> set ts" "e < x"
  shows "\<exists>early y late. outcomes s ts = map (\<lambda>t. (t, False)) early @ (y, True) # late \<and> (\<forall>z\<in>set early. z \<le> e) \<and> e < y"
proof (rule full_window [OF assms(1-5), of ts])
  fix s'
  assume s': "inv s'" "win s' = Some (c, e)"
    and run: "outcomes s ts = map (\<lambda>t. (t, False)) (takeWhile (\<lambda>t. t \<le> e) ts) @ outcomes s' (dropWhile (\<lambda>t. t \<le> e) ts)"
  have "dropWhile (\<lambda>t. t \<le> e) ts \<noteq> []" using assms(6,7) by (force simp: dropWhile_eq_Nil_conv)
  then obtain y late where y: "dropWhile (\<lambda>t. t \<le> e) ts = y # late" by (cases "dropWhile (\<lambda>t. t \<le> e) ts") auto
  then have "e < y" using hd_dropWhile [of "\<lambda>t. t \<le> e" ts] by auto
  moreover from this have "fst (hit y s')" using hit_fresh [OF s'(1) assms(2,3)] s'(2) by (simp add: live_None_iff)
  ultimately show ?thesis
    unfolding run y
    by (intro exI [of _ "takeWhile (\<lambda>t. t \<le> e) ts"] exI [of _ y] exI [of _ "outcomes (snd (hit y s')) late"])
      (auto dest: set_takeWhileD)
qed

text \<open>Inside the window that is open now, only the room left is handed out.\<close>

lemma window_bound:
  assumes "inv s" "0 < limit" "0 < span" "sorted ts" "win s = Some (c, e)" "c \<le> int limit"
  shows "int (allowed_upto e (outcomes s ts)) \<le> int limit - c"
  using assms
proof (induction ts arbitrary: s c)
  case Nil
  then show ?case by simp
next
  case (Cons t ts)
  note inv' = inv_hit [OF Cons.prems(1), of t]
  have sorted: "sorted ts" and later: "\<forall>u\<in>set ts. t \<le> u" using Cons.prems(4) by auto
  show ?case
  proof (rule hit_cases [OF Cons.prems(1,2,3), of t])
    assume "live (win s) t = None"
    with Cons.prems(5) have "e < t" by (simp add: live_None_iff)
    with later have "allowed_upto e (outcomes (snd (hit t s)) ts) = 0"
      by (intro outcomes_after_end) auto
    with \<open>e < t\<close> Cons.prems(6) show ?thesis by simp
  next
    fix c' e'
    assume h: "win s = Some (c', e')" "t \<le> e'" "c' < int limit" "fst (hit t s)"
      "win (snd (hit t s)) = Some (c' + 1, e')"
    with Cons.prems(5) have [simp]: "c' = c" "e' = e" by auto
    have "int (allowed_upto e (outcomes (snd (hit t s)) ts)) \<le> int limit - (c + 1)"
      using Cons.IH [OF inv' Cons.prems(2,3) sorted, of "c + 1"] h by simp
    with h show ?thesis by simp
  next
    fix c' e'
    assume h: "win s = Some (c', e')" "\<not> fst (hit t s)" "win (snd (hit t s)) = win s"
    with Cons.IH [OF inv' Cons.prems(2,3) sorted, of c] Cons.prems(5,6) show ?thesis by simp
  qed
qed

lemma allowed_upto_mono: "b \<le> b' \<Longrightarrow> allowed_upto b tr \<le> allowed_upto b' tr"
  by (induction tr) (auto split: if_splits)

text \<open>With no window open at \<open>a\<close>, the hits up to \<open>a + span\<close> all fall into one window.\<close>

lemma fresh_bound:
  assumes "inv s" "0 < limit" "0 < span" "sorted ts" "\<forall>t\<in>set ts. a \<le> t" "live (win s) a = None"
    and "b \<le> a + span"
  shows "allowed_upto b (outcomes s ts) \<le> limit"
proof (cases ts)
  case Nil
  then show ?thesis by simp
next
  case (Cons t us)
  have at: "a \<le> t" and sorted: "sorted us" using assms(4,5) Cons by auto
  with assms(6) have "live (win s) t = None" by (auto simp: live_None_iff)
  from hit_fresh [OF assms(1-3) this]
  have f: "fst (hit t s)" "win (snd (hit t s)) = Some (1, t + span)" by auto
  have "int (allowed_upto (t + span) (outcomes (snd (hit t s)) us)) \<le> int limit - 1"
    using window_bound [OF inv_hit [OF assms(1)] assms(2,3) sorted f(2)] assms(2) by simp
  moreover have "allowed_upto b (outcomes (snd (hit t s)) us) \<le>
      allowed_upto (t + span) (outcomes (snd (hit t s)) us)"
    using assms(7) at by (intro allowed_upto_mono) simp
  ultimately show ?thesis using assms(2) f(1) Cons by simp
qed

lemma outcomes_append: "outcomes s (xs @ ys) = outcomes s xs @ outcomes (after s xs) ys"
  by (induction xs arbitrary: s) auto

lemma after_append: "after s (xs @ ys) = after (after s xs) ys"
  by (induction xs arbitrary: s) auto

lemma allowed_append [simp]:
  "allowed_upto b (tr @ tr') = allowed_upto b tr + allowed_upto b tr'"
  "allowed_in a b (tr @ tr') = allowed_in a b tr + allowed_in a b tr'"
  by (simp_all add: allowed_upto_def allowed_in_def)

lemma allowed_upto_all: "\<forall>x\<in>set ts. x \<le> e \<Longrightarrow> allowed_upto b (outcomes s ts) \<le> allowed_upto e (outcomes s ts)"
  by (induction ts arbitrary: s) (auto intro: le_SucI)

lemma allowed_in_upto: "allowed_in a b tr \<le> allowed_upto b tr"
  by (induction tr) (auto intro: le_SucI)

lemma allowed_in_before: "\<forall>x\<in>set ts. x < a \<Longrightarrow> allowed_in a b (outcomes s ts) = 0"
  by (induction ts arbitrary: s) auto

text \<open>Hits inside the open window do not move its end.\<close>

lemma window_end_fixed:
  assumes "inv s" "0 < limit" "0 < span" "win s = Some (c, e)" "\<forall>x\<in>set ts. x \<le> e"
  shows "\<exists>c'. win (after s ts) = Some (c', e)"
  using assms
proof (induction ts arbitrary: s c)
  case Nil
  then show ?case by simp
next
  case (Cons x xs)
  have "\<exists>c'. win (snd (hit x s)) = Some (c', e)"
    by (rule hit_cases [OF Cons.prems(1-3), of x]) (use Cons.prems in \<open>auto simp: live_None_iff\<close>)
  then show ?case
    using Cons.IH [OF inv_hit [OF Cons.prems(1)] Cons.prems(2,3)] Cons.prems(5) by auto
qed

lemma two_windows:
  assumes "inv s" "0 < limit" "0 < span" "sorted ts" "\<forall>t\<in>set ts. a \<le> t" "room s"
    and "b \<le> a + span"
  shows "allowed_upto b (outcomes s ts) \<le> 2 * limit"
proof (cases "live (win s) a")
  case None
  from fresh_bound [OF assms(1-5) None assms(7)] show ?thesis by simp
next
  case (Some w)
  obtain c e where "w = (c, e)" by (cases w)
  with Some have w: "win s = Some (c, e)" "a \<le> e" by (simp_all add: live_Some_iff)
  with assms(6) have c: "0 \<le> c" "c \<le> int limit" by (simp_all add: room_def)
  define us where "us = takeWhile (\<lambda>u. u \<le> e) ts"
  define vs where "vs = dropWhile (\<lambda>u. u \<le> e) ts"
  have split: "ts = us @ vs" by (simp add: us_def vs_def)
  have sorted: "sorted us" "sorted vs"
    using assms(4) unfolding split by (simp_all add: sorted_append)
  have us: "\<forall>x\<in>set us. x \<le> e" unfolding us_def by (auto dest: set_takeWhileD)
  have "int (allowed_upto b (outcomes s us)) \<le> int limit - c"
    using window_bound [OF assms(1-3) sorted(1) w(1) c(2)] allowed_upto_all [OF us, of b s] by linarith
  moreover have "allowed_upto b (outcomes (after s us) vs) \<le> limit"
  proof (cases vs)
    case Nil
    then show ?thesis by simp
  next
    case (Cons v vs')
    then have v: "e < v" unfolding vs_def by (metis hd_dropWhile list.distinct(1) list.sel(1) not_le)
    obtain c' where "win (after s us) = Some (c', e)"
      using window_end_fixed [OF assms(1-3) w(1) us] by blast
    with v have "live (win (after s us)) v = None" by (simp add: live_None_iff)
    moreover have "\<forall>x\<in>set vs. v \<le> x" "b \<le> v + span"
      using sorted(2) assms(5,7) split Cons by auto
    ultimately show ?thesis
      by (intro fresh_bound [OF after_inv [OF assms(1)] assms(2,3) sorted(2)])
  qed
  ultimately show ?thesis using c by (simp add: split outcomes_append)
qed

theorem burst_bound:
  assumes "inv s" "0 < limit" "0 < span" "sorted ts" "room s" "b \<le> a + span"
  shows "allowed_in a b (outcomes s ts) \<le> 2 * limit"
proof -
  define us where "us = takeWhile (\<lambda>u. u < a) ts"
  define vs where "vs = dropWhile (\<lambda>u. u < a) ts"
  have split: "ts = us @ vs" by (simp add: us_def vs_def)
  have us: "\<forall>x\<in>set us. x < a" unfolding us_def by (auto dest: set_takeWhileD)
  have vs: "sorted vs" "\<forall>x\<in>set vs. a \<le> x"
  proof -
    show "sorted vs" using assms(4) unfolding split by (simp add: sorted_append)
    then show "\<forall>x\<in>set vs. a \<le> x"
      using hd_dropWhile [of "\<lambda>u. u < a" ts] unfolding vs_def [symmetric]
      by (cases vs) auto
  qed
  have "allowed_upto b (outcomes (after s us) vs) \<le> 2 * limit"
    using after_inv [OF assms(1)] after_room [OF assms(1-3,5)] vs assms(2,3,6)
    by (intro two_windows) auto
  then show ?thesis
    using allowed_in_upto [of a b "outcomes (after s us) vs"] allowed_in_before [OF us]
    by (simp add: split outcomes_append)
qed

text \<open>The count of the open window is the number of hits it allowed.\<close>

lemma window_history:
  assumes "inv s" "0 < limit" "0 < span" "sorted ts" "win s = None"
    and "win (after s ts) = Some (c, e)"
  shows "e - span \<in> set ts \<and> c \<le> int (allowed_in (e - span) e (outcomes s ts))"
  using assms(4,6)
proof (induction ts arbitrary: c e rule: rev_induct)
  case Nil
  with assms(5) show ?case by simp
next
  case (snoc t ts)
  let ?s = "after s ts"
  have sorted: "sorted ts" and upto: "\<forall>x\<in>set ts. x \<le> t" using snoc.prems(1) by (auto simp: sorted_append)
  have w: "win (snd (hit t ?s)) = Some (c, e)" using snoc.prems(2) by (simp add: after_append)
  show ?case
  proof (rule hit_cases [OF after_inv [OF assms(1)] assms(2,3), of ts t])
    assume "fst (hit t ?s)" "win (snd (hit t ?s)) = Some (1, t + span)"
    with w assms(3) show ?thesis by (auto simp: outcomes_append)
  next
    fix c' e'
    assume h: "win ?s = Some (c', e')" "t \<le> e'" "fst (hit t ?s)" "win (snd (hit t ?s)) = Some (c' + 1, e')"
    with w have [simp]: "c = c' + 1" "e = e'" by auto
    from snoc.IH [OF sorted h(1)] upto h(2,3) show ?thesis by (auto simp: outcomes_append)
  next
    fix c' e'
    assume h: "win ?s = Some (c', e')" "win (snd (hit t ?s)) = win ?s"
    with w have "c = c'" "e = e'" by auto
    with snoc.IH [OF sorted h(1)] show ?thesis by (auto simp: outcomes_append)
  qed
qed

theorem refusal_justified:
  assumes "inv s" "0 < limit" "0 < span" "sorted (ts @ [t])" "win s = None"
    and "\<not> fst (hit t (after s ts))"
  shows "limit \<le> allowed_in (t - span) t (outcomes s ts)"
proof (rule hit_cases [OF after_inv [OF assms(1)] assms(2,3), of ts t])
  fix c e
  assume h: "win (after s ts) = Some (c, e)" "t \<le> e" "int limit \<le> c"
  have sorted: "sorted ts" and upto: "\<forall>x\<in>set ts. x \<le> t" using assms(4) by (auto simp: sorted_append)
  have "allowed_in (e - span) e (outcomes s' xs) \<le> allowed_in (t - span) t (outcomes s' xs)"
    if "\<forall>x\<in>set xs. x \<le> t" for s' xs
    using that h(2) by (induction xs arbitrary: s') (auto intro: le_SucI)
  from this [OF upto, of s] window_history [OF assms(1-3) sorted assms(5) h(1)] h(3)
  show ?thesis by linarith
qed (use assms(6) in auto)

end

end
