(* ===== verification/Json.thy ===== *)
theory Json
  imports Prelude
begin

text \<open>
  JSON values and the two standard functions the services exchange them with:
  \<open>JSON.stringify\<close> (\<open>stringify\<close>) and \<open>JSON.parse\<close> (\<open>json_parse\<close>, \<open>None\<close> where the
  standard function throws a \<open>SyntaxError\<close>). They sit between the services: the NATS client
  encodes events with them, the permission cache stores its lists through them, the idempotency
  service hashes the text. Numbers are the integers (no component puts a fraction in a message);
  a text with a fraction or an exponent is outside the model and parses to \<open>None\<close>.
  An object is the list of its members in order; \<open>jget\<close> takes the last member of a name, as
  an object built by \<open>JSON.parse\<close> does. \<open>json_roundtrip\<close> is the law the components use.
\<close>

datatype json =
    JNull
  | JBool bool
  | JNum int
  | JStr string
  | JArr "json list"
  | JObj "(string \<times> json) list"

definition jget :: "string \<Rightarrow> json \<Rightarrow> json option" where
  "jget k j = (case j of JObj kvs \<Rightarrow> map_of (rev kvs) k | _ \<Rightarrow> None)"

definition json_truthy :: "json \<Rightarrow> bool" where
  "json_truthy j = (case j of JNull \<Rightarrow> False | JBool b \<Rightarrow> b | JNum n \<Rightarrow> n \<noteq> 0 | JStr s \<Rightarrow> s \<noteq> []
     | JArr _ \<Rightarrow> True | JObj _ \<Rightarrow> True)"

section \<open>Printing\<close>

definition digit :: "nat \<Rightarrow> char" where
  "digit d = char_of (48 + d)"

fun show_nat :: "nat \<Rightarrow> string" where
  "show_nat n = (if n < 10 then [digit n] else show_nat (n div 10) @ [digit (n mod 10)])"

declare show_nat.simps [simp del]

definition show_int :: "int \<Rightarrow> string" where
  "show_int i = (if i < 0 then CHR ''-'' # show_nat (nat (- i)) else show_nat (nat i))"

definition hex_digit :: "nat \<Rightarrow> char" where
  "hex_digit d = (if d < 10 then char_of (48 + d) else char_of (87 + d))"

definition esc :: "char \<Rightarrow> string" where
  "esc c = (let n = (of_char c :: nat) in
     if n = 34 then [CHR 0x5C, CHR 0x22]
     else if n = 92 then [CHR 0x5C, CHR 0x5C]
     else if n = 8 then [CHR 0x5C, CHR ''b'']
     else if n = 12 then [CHR 0x5C, CHR ''f'']
     else if n = 10 then [CHR 0x5C, CHR ''n'']
     else if n = 13 then [CHR 0x5C, CHR ''r'']
     else if n = 9 then [CHR 0x5C, CHR ''t'']
     else if n < 32 then [CHR 0x5C, CHR ''u'', CHR ''0'', CHR ''0'', hex_digit (n div 16), hex_digit (n mod 16)]
     else [c])"

definition quoted :: "string \<Rightarrow> string" where
  "quoted s = CHR 0x22 # concat (map esc s) @ [CHR 0x22]"

fun stringify :: "json \<Rightarrow> string" where
  "stringify JNull = ''null''"
| "stringify (JBool b) = (if b then ''true'' else ''false'')"
| "stringify (JNum n) = show_int n"
| "stringify (JStr s) = quoted s"
| "stringify (JArr xs) = ''['' @ join '','' (map stringify xs) @ '']''"
| "stringify (JObj kvs) =
     ''{'' @ join '','' (map (\<lambda>kv. quoted (fst kv) @ '':'' @ stringify (snd kv)) kvs) @ ''}''"

section \<open>Parsing\<close>

definition json_ws :: "char \<Rightarrow> bool" where
  "json_ws c \<longleftrightarrow> (of_char c :: nat) \<in> {9, 10, 13, 32}"

definition skip_ws :: "string \<Rightarrow> string" where
  "skip_ws s = dropWhile json_ws s"

definition is_digit :: "char \<Rightarrow> bool" where
  "is_digit c \<longleftrightarrow> 48 \<le> (of_char c :: nat) \<and> (of_char c :: nat) \<le> 57"

definition digit_val :: "char \<Rightarrow> nat" where
  "digit_val c = of_char c - 48"

definition hex_val :: "char \<Rightarrow> nat option" where
  "hex_val c = (let n = (of_char c :: nat) in
     if 48 \<le> n \<and> n \<le> 57 then Some (n - 48)
     else if 97 \<le> n \<and> n \<le> 102 then Some (n - 87)
     else if 65 \<le> n \<and> n \<le> 70 then Some (n - 55)
     else None)"

definition unesc :: "char \<Rightarrow> char option" where
  "unesc e =
     (if e = CHR 0x22 \<or> e = CHR 0x5C \<or> e = CHR ''/'' then Some e
      else if e = CHR ''b'' then Some (CHR 0x08)
      else if e = CHR ''f'' then Some (CHR 0x0C)
      else if e = CHR ''n'' then Some (CHR 0x0A)
      else if e = CHR ''r'' then Some (CHR 0x0D)
      else if e = CHR ''t'' then Some (CHR 0x09)
      else None)"

definition unicode_escape :: "string \<Rightarrow> (char \<times> string) option" where
  "unicode_escape s = (case s of
       a # b # h # l # r \<Rightarrow>
         (case (hex_val a, hex_val b, hex_val h, hex_val l) of
            (Some x, Some y, Some u, Some v) \<Rightarrow>
              if x = 0 \<and> y = 0 then Some (char_of (16 * u + v), r) else None
          | _ \<Rightarrow> None)
     | _ \<Rightarrow> None)"

lemma unicode_escape_length: "unicode_escape s = Some (c, r) \<Longrightarrow> length r < length s"
  by (auto simp: unicode_escape_def split: list.splits option.splits if_splits)

definition cons_res :: "char \<Rightarrow> (string \<times> string) option \<Rightarrow> (string \<times> string) option" where
  "cons_res c = map_option (\<lambda>(t, r). (c # t, r))"

function parse_chars :: "string \<Rightarrow> (string \<times> string) option" where
  "parse_chars [] = None"
| "parse_chars (c # cs) =
     (if c = CHR 0x22 then Some ([], cs)
      else if c = CHR 0x5C then
        (case cs of [] \<Rightarrow> None
         | e # es \<Rightarrow>
            if e = CHR ''u'' then
              (case unicode_escape es of None \<Rightarrow> None | Some (ch, r) \<Rightarrow> cons_res ch (parse_chars r))
            else (case unesc e of None \<Rightarrow> None | Some ch \<Rightarrow> cons_res ch (parse_chars es)))
      else if (of_char c :: nat) < 32 then None
      else cons_res c (parse_chars cs))"
  by pat_completeness auto
termination
  by (relation "measure length") (auto dest!: unicode_escape_length)

definition digits_val :: "string \<Rightarrow> nat" where
  "digits_val ds = foldl (\<lambda>a d. 10 * a + digit_val d) 0 ds"

definition num_body :: "bool \<Rightarrow> string \<Rightarrow> (json \<times> string) option" where
  "num_body neg t =
     (let ds = takeWhile is_digit t;
          r = dropWhile is_digit t;
          n = int (digits_val ds)
      in if ds = [] \<or> (1 < length ds \<and> hd ds = CHR ''0'') then None
         else if r \<noteq> [] \<and> hd r \<in> {CHR ''.'', CHR ''e'', CHR ''E''} then None
         else Some (JNum (if neg then - n else n), r))"

definition parse_num :: "string \<Rightarrow> (json \<times> string) option" where
  "parse_num s = (case s of [] \<Rightarrow> None
     | c # cs \<Rightarrow> if c = CHR ''-'' then num_body True cs else num_body False (c # cs))"

definition parse_lit :: "string \<Rightarrow> (json \<times> string) option" where
  "parse_lit s =
     (if starts_with ''null'' s then Some (JNull, drop 4 s)
      else if starts_with ''true'' s then Some (JBool True, drop 4 s)
      else if starts_with ''false'' s then Some (JBool False, drop 5 s)
      else None)"

fun parse_val :: "nat \<Rightarrow> string \<Rightarrow> (json \<times> string) option"
and parse_elems :: "nat \<Rightarrow> string \<Rightarrow> (json list \<times> string) option"
and parse_members :: "nat \<Rightarrow> string \<Rightarrow> ((string \<times> json) list \<times> string) option" where
  "parse_val 0 s = None"
| "parse_val (Suc k) s =
     (case skip_ws s of [] \<Rightarrow> None
      | c # cs \<Rightarrow>
         if c = CHR 0x22 then map_option (\<lambda>(t, r). (JStr t, r)) (parse_chars cs)
         else if c = CHR ''['' then
           (case skip_ws cs of [] \<Rightarrow> None
            | d # ds \<Rightarrow> if d = CHR '']'' then Some (JArr [], ds)
                       else map_option (\<lambda>(xs, r). (JArr xs, r)) (parse_elems k (d # ds)))
         else if c = CHR ''{'' then
           (case skip_ws cs of [] \<Rightarrow> None
            | d # ds \<Rightarrow> if d = CHR ''}'' then Some (JObj [], ds)
                       else map_option (\<lambda>(xs, r). (JObj xs, r)) (parse_members k (d # ds)))
         else if is_digit c \<or> c = CHR ''-'' then parse_num (c # cs)
         else parse_lit (c # cs))"
| "parse_elems 0 s = None"
| "parse_elems (Suc k) s =
     (case parse_val k s of None \<Rightarrow> None
      | Some (v, r) \<Rightarrow>
         (case skip_ws r of [] \<Rightarrow> None
          | d # ds \<Rightarrow>
             if d = CHR '','' then map_option (\<lambda>(vs, r'). (v # vs, r')) (parse_elems k ds)
             else if d = CHR '']'' then Some ([v], ds)
             else None))"
| "parse_members 0 s = None"
| "parse_members (Suc k) s =
     (case skip_ws s of [] \<Rightarrow> None
      | q # cs \<Rightarrow>
         if q \<noteq> CHR 0x22 then None
         else (case parse_chars cs of None \<Rightarrow> None
           | Some (key, r) \<Rightarrow>
              (case skip_ws r of [] \<Rightarrow> None
               | col # r1 \<Rightarrow>
                  if col \<noteq> CHR '':'' then None
                  else (case parse_val k r1 of None \<Rightarrow> None
                    | Some (v, r2) \<Rightarrow>
                       (case skip_ws r2 of [] \<Rightarrow> None
                        | d # ds \<Rightarrow>
                           if d = CHR '','' then map_option (\<lambda>(ms, r'). ((key, v) # ms, r')) (parse_members k ds)
                           else if d = CHR ''}'' then Some ([(key, v)], ds)
                           else None)))))"

definition json_parse :: "string \<Rightarrow> json option" where
  "json_parse s = (case parse_val (Suc (length s)) s of None \<Rightarrow> None
     | Some (v, r) \<Rightarrow> if skip_ws r = [] then Some v else None)"

section \<open>The round trip\<close>

lemma cons_res_Some [simp]: "cons_res c (Some (t, r)) = Some (c # t, r)"
  by (simp add: cons_res_def)

lemma hex_val_digit [simp]: "d < 16 \<Longrightarrow> hex_val (hex_digit d) = Some d"
  by (auto simp: hex_val_def hex_digit_def Let_def)

lemma char_of_lits:
  "char_of (34 :: nat) = CHR 0x22" "char_of (92 :: nat) = CHR 0x5C" "char_of (8 :: nat) = CHR 0x08"
  "char_of (12 :: nat) = CHR 0x0C" "char_of (10 :: nat) = CHR 0x0A" "char_of (13 :: nat) = CHR 0x0D"
  "char_of (9 :: nat) = CHR 0x09"
  by (simp_all add: char_of_def bit_0)

lemma parse_chars_esc: "parse_chars (esc c @ r) = cons_res c (parse_chars r)"
proof -
  have eq: "(of_char c :: nat) = n \<Longrightarrow> c = char_of n" for n by (metis char_of_char)
  have u: "unicode_escape (CHR ''0'' # CHR ''0'' # hex_digit (n div 16) # hex_digit (n mod 16) # r)
      = Some (char_of n, r)" if "n < 32" for n :: nat
    using that by (simp add: unicode_escape_def hex_val_def [of "CHR ''0''"])
  show ?thesis
    using u by (auto simp: esc_def Let_def unesc_def char_of_lits dest!: eq)
qed

lemma parse_chars_quoted: "parse_chars (concat (map esc s) @ CHR 0x22 # r) = Some (s, r)"
  by (induction s) (simp_all add: parse_chars_esc)

lemma digit_is_digit [simp]: "d < 10 \<Longrightarrow> is_digit (digit d)"
  by (simp add: is_digit_def digit_def)

lemma digit_val_digit [simp]: "d < 10 \<Longrightarrow> digit_val (digit d) = d"
  by (simp add: digit_val_def digit_def)

lemma show_nat_digits: "\<forall>c \<in> set (show_nat n). is_digit c"
proof (induction n rule: show_nat.induct)
  case (1 n)
  then show ?case by (cases "n < 10") (auto simp: show_nat.simps [of n])
qed

lemma show_nat_not_Nil [simp]: "show_nat n \<noteq> []"
  by (subst show_nat.simps) simp

lemma digits_val_show_nat: "digits_val (show_nat n) = n"
proof (induction n rule: show_nat.induct)
  case (1 n)
  then show ?case by (cases "n < 10") (auto simp: show_nat.simps [of n] digits_val_def)
qed

lemma hd_show_nat: "0 < n \<Longrightarrow> hd (show_nat n) \<noteq> CHR ''0''"
proof (induction n rule: show_nat.induct)
  case (1 n)
  show ?case
  proof (cases "n < 10")
    case True
    have "digit n \<noteq> CHR ''0''"
    proof
      assume "digit n = CHR ''0''"
      from arg_cong [OF this, of digit_val] True "1.prems" show False
        by (simp add: digit_val_def [of "CHR ''0''"])
    qed
    with True show ?thesis by (simp add: show_nat.simps [of n])
  next
    case False
    with "1.IH" show ?thesis by (simp add: show_nat.simps [of n])
  qed
qed

lemma show_nat_leading: "\<not> (1 < length (show_nat n) \<and> hd (show_nat n) = CHR ''0'')"
  using hd_show_nat [of n] by (cases "n = 0") (auto simp: show_nat.simps [of 0])

text \<open>A number is followed by a character that does not continue it.\<close>

definition delim :: "string \<Rightarrow> bool" where
  "delim r \<longleftrightarrow> r = [] \<or> (\<not> is_digit (hd r) \<and> hd r \<notin> {CHR ''.'', CHR ''e'', CHR ''E''})"

lemma takeWhile_digits [simp]:
  "\<forall>c\<in>set ds. is_digit c \<Longrightarrow> delim r \<Longrightarrow> takeWhile is_digit (ds @ r) = ds"
  "\<forall>c\<in>set ds. is_digit c \<Longrightarrow> delim r \<Longrightarrow> dropWhile is_digit (ds @ r) = r"
  by (cases r; simp add: delim_def takeWhile_append2 dropWhile_append2)+

lemma num_body_digits:
  assumes "\<forall>c\<in>set ds. is_digit c" "ds \<noteq> []" "\<not> (1 < length ds \<and> hd ds = CHR ''0'')" "delim r"
  shows "num_body neg (ds @ r) = Some (JNum (if neg then - int (digits_val ds) else int (digits_val ds)), r)"
  using assms(2-4) by (auto simp: num_body_def Let_def takeWhile_digits [OF assms(1,4)] delim_def)

lemma parse_num_digits:
  assumes "\<forall>c\<in>set ds. is_digit c" "ds \<noteq> []" "\<not> (1 < length ds \<and> hd ds = CHR ''0'')" "delim r"
  shows "parse_num (ds @ r) = Some (JNum (int (digits_val ds)), r)"
    and "parse_num (CHR ''-'' # ds @ r) = Some (JNum (- int (digits_val ds)), r)"
proof -
  have "hd ds \<noteq> CHR ''-''"
    using assms(1,2) by (cases ds) (auto simp: is_digit_def)
  with assms(2) show "parse_num (ds @ r) = Some (JNum (int (digits_val ds)), r)"
    using num_body_digits [OF assms, of False] by (cases ds) (simp_all add: parse_num_def)
  show "parse_num (CHR ''-'' # ds @ r) = Some (JNum (- int (digits_val ds)), r)"
    using num_body_digits [OF assms, of True] by (simp add: parse_num_def)
qed

lemma parse_num_show_int: "delim r \<Longrightarrow> parse_num (show_int i @ r) = Some (JNum i, r)"
  using parse_num_digits [OF show_nat_digits show_nat_not_Nil show_nat_leading]
  by (simp add: show_int_def digits_val_show_nat)

text \<open>What a printed value starts with.\<close>

lemma show_int_head:
  "\<exists>c cs. show_int n = c # cs \<and> (is_digit c \<or> c = CHR ''-'')"
  using show_nat_digits [of "nat n"] show_nat_not_Nil [of "nat n"]
  by (cases "show_nat (nat n)") (auto simp: show_int_def)

lemma digit_or_minus:
  assumes "is_digit c \<or> c = CHR ''-''"
  shows "\<not> json_ws c" and "c \<notin> {CHR 0x22, CHR ''['', CHR ''{'', CHR '']'', CHR ''}''}"
  using assms by (auto simp: is_digit_def json_ws_def)

lemma stringify_head:
  "\<exists>c cs. stringify j = c # cs \<and> \<not> json_ws c \<and> c \<noteq> CHR '']'' \<and> c \<noteq> CHR ''}''"
proof (cases j)
  case (JNum n)
  then show ?thesis using show_int_head [of n] digit_or_minus by fastforce
qed (auto simp: json_ws_def quoted_def)

lemma stringify_length: "1 \<le> length (stringify j)"
  using stringify_head [of j] by auto

lemma skip_ws_stringify [simp]: "skip_ws (stringify j @ r) = stringify j @ r"
  using stringify_head [of j] by (auto simp: skip_ws_def)

lemma skip_ws_Cons: "\<not> json_ws c \<Longrightarrow> skip_ws (c # r) = c # r"
  by (simp add: skip_ws_def)

lemma json_ws_punct [simp]:
  "\<not> json_ws CHR '',''" "\<not> json_ws CHR '']''" "\<not> json_ws CHR ''}''" "\<not> json_ws CHR '':''"
  "\<not> json_ws CHR ''[''" "\<not> json_ws CHR ''{''" "\<not> json_ws CHR 0x22"
  by (simp_all add: json_ws_def)

lemma delim_punct [simp]: "delim (CHR '','' # r)" "delim (CHR '']'' # r)" "delim (CHR ''}'' # r)" "delim []"
  by (simp_all add: delim_def is_digit_def)

lemma join_map_Cons2:
  "join sep (map f (x # y # xs)) = f x @ sep @ join sep (map f (y # xs))"
  by simp

text \<open>The law for one value, used on the elements of arrays and objects.\<close>

definition parses_back :: "json \<Rightarrow> bool" where
  "parses_back j \<longleftrightarrow>
     (\<forall>k r. length (stringify j) < k \<longrightarrow> delim r \<longrightarrow> parse_val k (stringify j @ r) = Some (j, r))"

lemma parses_backD:
  "parses_back j \<Longrightarrow> length (stringify j) < k \<Longrightarrow> delim r \<Longrightarrow>
   parse_val k (stringify j @ r) = Some (j, r)"
  by (simp add: parses_back_def)

lemma parse_elems_stringify:
  assumes "xs \<noteq> []" and "\<forall>x\<in>set xs. parses_back x"
    and "Suc (length (join '','' (map stringify xs))) < k"
  shows "parse_elems k (join '','' (map stringify xs) @ '']'' @ r) = Some (xs, r)"
  using assms
proof (induction xs arbitrary: k)
  case Nil
  then show ?case by simp
next
  case (Cons x xs)
  then obtain k' where k: "k = Suc k'" by (cases k) auto
  have pb: "parses_back x" using Cons.prems by simp
  show ?case
  proof (cases xs)
    case Nil
    with Cons.prems k have "length (stringify x) < k'" by simp
    from parses_backD [OF pb this] show ?thesis
      by (simp add: k Nil skip_ws_Cons)
  next
    case (Cons y ys)
    have len: "length (stringify x) < k'" "Suc (length (join '','' (map stringify xs))) < k'"
      using Cons.prems(3) stringify_length [of x] by (simp_all add: k Cons)
    have "parse_elems k' (join '','' (map stringify xs) @ '']'' @ r) = Some (xs, r)"
      using Cons.IH [of k'] Cons.prems len(2) Cons by simp
    with parses_backD [OF pb len(1)] show ?thesis
      by (simp add: k Cons skip_ws_Cons)
  qed
qed

definition member_text :: "string \<times> json \<Rightarrow> string" where
  "member_text kv = quoted (fst kv) @ '':'' @ stringify (snd kv)"

lemma stringify_JObj: "stringify (JObj kvs) = ''{'' @ join '','' (map member_text kvs) @ ''}''"
  by (simp add: member_text_def [abs_def])

lemma member_text_append:
  "member_text kv @ r = CHR 0x22 # concat (map esc (fst kv)) @ CHR 0x22 # CHR '':'' # stringify (snd kv) @ r"
  by (simp add: member_text_def quoted_def)

lemma member_text_length: "Suc (length (stringify (snd kv))) < length (member_text kv)"
  by (simp add: member_text_def quoted_def)

lemma parse_members_text:
  assumes "xs \<noteq> []" and "\<forall>x\<in>set xs. parses_back (snd x)"
    and "Suc (length (join '','' (map member_text xs))) < k"
  shows "parse_members k (join '','' (map member_text xs) @ ''}'' @ r) = Some (xs, r)"
  using assms
proof (induction xs arbitrary: k)
  case Nil
  then show ?case by simp
next
  case (Cons x xs)
  then obtain k' where k: "k = Suc k'" by (cases k) auto
  have pb: "parses_back (snd x)" using Cons.prems by simp
  show ?case
  proof (cases xs)
    case Nil
    with Cons.prems k member_text_length [of x] have "length (stringify (snd x)) < k'" by simp
    from parses_backD [OF pb this] show ?thesis
      by (simp add: k Nil skip_ws_Cons member_text_append parse_chars_quoted)
  next
    case (Cons y ys)
    have len: "length (stringify (snd x)) < k'" "Suc (length (join '','' (map member_text xs))) < k'"
      using Cons.prems(3) member_text_length [of x] by (simp_all add: k Cons)
    have "parse_members k' (join '','' (map member_text xs) @ ''}'' @ r) = Some (xs, r)"
      using Cons.IH [of k'] Cons.prems len(2) Cons by simp
    with parses_backD [OF pb len(1)] show ?thesis
      by (simp add: k Cons skip_ws_Cons member_text_append parse_chars_quoted)
  qed
qed

lemma skip_ws_elems: "xs \<noteq> [] \<Longrightarrow>
  \<exists>c cs. join '','' (map stringify xs) @ r = c # cs \<and> \<not> json_ws c \<and> c \<noteq> CHR '']''"
  using stringify_head [of "hd xs"] by (cases xs rule: remdups_adj.cases) auto

lemma skip_ws_members: "xs \<noteq> [] \<Longrightarrow>
  \<exists>c cs. join '','' (map member_text xs) @ r = c # cs \<and> \<not> json_ws c \<and> c \<noteq> CHR ''}''"
  by (cases xs rule: remdups_adj.cases) (auto simp: member_text_def quoted_def)

lemma parses_back_JArr:
  assumes "\<forall>x\<in>set xs. parses_back x"
  shows "parses_back (JArr xs)"
  unfolding parses_back_def
proof (intro allI impI)
  fix k r
  assume len: "length (stringify (JArr xs)) < k"
  then obtain k' where k: "k = Suc k'" by (cases k) auto
  show "parse_val k (stringify (JArr xs) @ r) = Some (JArr xs, r)"
  proof (cases "xs = []")
    case True
    then show ?thesis by (simp add: k skip_ws_Cons)
  next
    case False
    from parse_elems_stringify [OF False assms, of k' r] len
    have "parse_elems k' (join '','' (map stringify xs) @ CHR '']'' # r) = Some (xs, r)"
      by (simp add: k)
    with skip_ws_elems [OF False, of "CHR '']'' # r"] show ?thesis
      by (auto simp: k skip_ws_Cons)
  qed
qed

lemma parses_back_JObj:
  assumes "\<forall>x\<in>set xs. parses_back (snd x)"
  shows "parses_back (JObj xs)"
  unfolding parses_back_def
proof (intro allI impI)
  fix k r
  assume len: "length (stringify (JObj xs)) < k"
  then obtain k' where k: "k = Suc k'" by (cases k) auto
  show "parse_val k (stringify (JObj xs) @ r) = Some (JObj xs, r)"
  proof (cases "xs = []")
    case True
    then show ?thesis by (simp add: k skip_ws_Cons)
  next
    case False
    from parse_members_text [OF False assms, of k' r] len
    have "parse_members k' (join '','' (map member_text xs) @ CHR ''}'' # r) = Some (xs, r)"
      by (simp only: k stringify_JObj) simp
    with skip_ws_members [OF False, of "CHR ''}'' # r"] show ?thesis
      by (auto simp: k skip_ws_Cons stringify_JObj simp del: stringify.simps)
  qed
qed

lemma parses_back_JNum: "parses_back (JNum n)"
  unfolding parses_back_def
proof (intro allI impI)
  fix k r
  assume "length (stringify (JNum n)) < k" and r: "delim r"
  then obtain k' where k: "k = Suc k'" by (cases k) auto
  obtain c cs where h: "show_int n = c # cs" "is_digit c \<or> c = CHR ''-''"
    using show_int_head by blast
  have p: "parse_num (c # cs @ r) = Some (JNum n, r)"
    using parse_num_show_int [OF r, of n] by (simp add: h(1))
  show "parse_val k (stringify (JNum n) @ r) = Some (JNum n, r)"
    using digit_or_minus [OF h(2)] h p by (auto simp: k skip_ws_Cons)
qed

lemma parses_back_atoms:
  "parses_back JNull" "parses_back (JBool b)" "parses_back (JStr s)"
proof -
  have "parse_val k (stringify j @ r) = Some (j, r)"
    if "j \<in> {JNull, JBool b, JStr s}" "length (stringify j) < k" for j k r
    using that
    by (cases k) (auto simp: skip_ws_def json_ws_def is_digit_def parse_lit_def starts_with_def
        quoted_def parse_chars_quoted)
  then show "parses_back JNull" "parses_back (JBool b)" "parses_back (JStr s)"
    unfolding parses_back_def by blast+
qed

lemma parses_back_all: "parses_back j"
proof (induction j)
  case (JArr xs)
  then show ?case by (intro parses_back_JArr) blast
next
  case (JObj kvs)
  then show ?case by (intro parses_back_JObj) (auto simp: prod_set_defs)
qed (rule parses_back_atoms parses_back_JNum)+

theorem json_roundtrip [simp]: "json_parse (stringify j) = Some j"
  using parses_backD [OF parses_back_all, of j "Suc (length (stringify j))" "[]"]
  by (simp add: json_parse_def skip_ws_def)

lemma stringify_inject [simp]: "stringify j = stringify j' \<longleftrightarrow> j = j'"
  by (metis json_roundtrip option.inject)

end
