(* ===== verification/Errors.thy ===== *)
theory Errors
  imports Json
begin

text \<open>
  The error vocabulary of \<open>packages/common/src/errors\<close>: the codes, \<open>ServiceError\<close>, the
  exceptions a handler can meet, the exception filter that turns one into a response
  (\<open>http_exception_catch\<close>) and \<open>handleAxiosError\<close>, which turns a response of another service
  back into an exception. Together they are the error channel between the services and the
  gateway: \<open>error_channel\<close> says what survives the trip.
\<close>

section \<open>Error codes and exceptions\<close>

datatype ErrorCode =
    INTERNAL | VALIDATION_ERROR | NOT_FOUND | UNAUTHORIZED | FORBIDDEN | TOO_MANY_REQUESTS
  | CONFLICT | BAD_REQUEST | AUTH_INVALID_CREDENTIALS | AUTH_TOKEN_EXPIRED | AUTH_TOKEN_INVALID
  | AUTH_REFRESH_TOKEN_INVALID | AUTH_EMAIL_ALREADY_EXISTS | NOTI_NOT_FOUND

fun code_str :: "ErrorCode \<Rightarrow> string" where
  "code_str INTERNAL = ''INTERNAL''"
| "code_str VALIDATION_ERROR = ''VALIDATION_ERROR''"
| "code_str NOT_FOUND = ''NOT_FOUND''"
| "code_str UNAUTHORIZED = ''UNAUTHORIZED''"
| "code_str FORBIDDEN = ''FORBIDDEN''"
| "code_str TOO_MANY_REQUESTS = ''TOO_MANY_REQUESTS''"
| "code_str CONFLICT = ''CONFLICT''"
| "code_str BAD_REQUEST = ''BAD_REQUEST''"
| "code_str AUTH_INVALID_CREDENTIALS = ''AUTH_INVALID_CREDENTIALS''"
| "code_str AUTH_TOKEN_EXPIRED = ''AUTH_TOKEN_EXPIRED''"
| "code_str AUTH_TOKEN_INVALID = ''AUTH_TOKEN_INVALID''"
| "code_str AUTH_REFRESH_TOKEN_INVALID = ''AUTH_REFRESH_TOKEN_INVALID''"
| "code_str AUTH_EMAIL_ALREADY_EXISTS = ''AUTH_EMAIL_ALREADY_EXISTS''"
| "code_str NOTI_NOT_FOUND = ''NOTI_NOT_FOUND''"

lemma code_str_inject [simp]: "code_str a = code_str b \<longleftrightarrow> a = b"
  by (cases a; cases b) simp_all

text \<open>
  The fields of a \<open>ServiceError\<close>. \<open>se_code\<close> is a string: \<open>handleAxiosError\<close> casts whatever
  code another service sent. \<open>None\<close> is \<open>undefined\<close>.
\<close>

record service_error =
  se_code :: string
  se_statusCode :: int
  se_message :: string
  se_details :: "json option"
  se_exposeMessage :: bool

text \<open>The constructor with its defaults; an absent argument is \<open>None\<close>.\<close>

definition service_error_new ::
  "string option \<Rightarrow> int option \<Rightarrow> string \<Rightarrow> json option \<Rightarrow> bool option \<Rightarrow> service_error" where
  "service_error_new code statusCode message details expose =
     \<lparr>se_code = nullish code (code_str INTERNAL),
      se_statusCode = nullish statusCode 500,
      se_message = message,
      se_details = details,
      se_exposeMessage = nullish expose True\<rparr>"

text \<open>
  What can be thrown. \<open>HttpExc\<close> is NestJS's \<open>HttpException\<close>: whether it is a
  \<open>BadRequestException\<close>, its status, its response and its message (it has no \<open>statusCode\<close>
  and no \<open>code\<close> property). \<open>PrismaErr\<close> is a known request error of the database client, with
  its \<open>code\<close>. \<open>AxiosLike\<close> is an object with a \<open>response\<close> property. \<open>PlainErr\<close> is any other
  \<open>Error\<close>, a failed connection included; \<open>NonErr\<close> is a thrown value that is no \<open>Error\<close>.
\<close>

record http_exc =
  he_badRequest :: bool
  he_status :: int
  he_response :: json
  he_message :: string

datatype exn =
    ServiceErr service_error
  | HttpExc http_exc
  | PrismaErr string string
  | AxiosLike "int option" "json option" "string option"
  | PlainErr string
  | NonErr json

definition service_exn :: "ErrorCode \<Rightarrow> int \<Rightarrow> string \<Rightarrow> exn" where
  "service_exn c st msg = ServiceErr (service_error_new (Some (code_str c)) (Some st) msg None None)"

definition nest_exception :: "bool \<Rightarrow> int \<Rightarrow> string \<Rightarrow> string \<Rightarrow> exn" where
  "nest_exception bad st name msg =
     HttpExc \<lparr>he_badRequest = bad, he_status = st,
       he_response = JObj [(''message'', JStr msg), (''error'', JStr name), (''statusCode'', JNum st)],
       he_message = msg\<rparr>"

definition NotFoundException :: "string \<Rightarrow> exn" where
  "NotFoundException msg = nest_exception False 404 ''Not Found'' msg"

definition BadRequestException :: "string \<Rightarrow> exn" where
  "BadRequestException msg = nest_exception True 400 ''Bad Request'' msg"

definition ConflictException :: "string \<Rightarrow> exn" where
  "ConflictException msg = nest_exception False 409 ''Conflict'' msg"

definition ForbiddenException :: "string \<Rightarrow> exn" where
  "ForbiddenException msg = nest_exception False 403 ''Forbidden'' msg"

definition UnauthorizedException :: "string \<Rightarrow> exn" where
  "UnauthorizedException msg = nest_exception False 401 ''Unauthorized'' msg"

text \<open>\<open>new HttpException(msg, st)\<close>: the response is the string itself.\<close>

definition HttpException_str :: "string \<Rightarrow> int \<Rightarrow> exn" where
  "HttpException_str msg st =
     HttpExc \<lparr>he_badRequest = False, he_status = st, he_response = JStr msg, he_message = msg\<rparr>"

definition is_service_error :: "exn \<Rightarrow> bool" where
  "is_service_error e = (case e of ServiceErr _ \<Rightarrow> True | _ \<Rightarrow> False)"

definition is_http_exception :: "exn \<Rightarrow> bool" where
  "is_http_exception e = (case e of HttpExc _ \<Rightarrow> True | _ \<Rightarrow> False)"

text \<open>\<open>error.message\<close>, \<open>error.statusCode\<close> and \<open>error.code\<close> as the catch blocks read them.\<close>

definition err_message :: "exn \<Rightarrow> string option" where
  "err_message e = (case e of ServiceErr s \<Rightarrow> Some (se_message s) | HttpExc h \<Rightarrow> Some (he_message h)
     | PrismaErr c m \<Rightarrow> Some m | AxiosLike _ _ m \<Rightarrow> m | PlainErr m \<Rightarrow> Some m | NonErr _ \<Rightarrow> None)"

definition err_statusCode :: "exn \<Rightarrow> int option" where
  "err_statusCode e = (case e of ServiceErr s \<Rightarrow> Some (se_statusCode s) | _ \<Rightarrow> None)"

definition err_code :: "exn \<Rightarrow> string option" where
  "err_code e = (case e of ServiceErr s \<Rightarrow> Some (se_code s) | PrismaErr c _ \<Rightarrow> Some c | _ \<Rightarrow> None)"

lemmas exn_defs = service_exn_def service_error_new_def nest_exception_def NotFoundException_def
  BadRequestException_def ConflictException_def ForbiddenException_def UnauthorizedException_def
  HttpException_str_def

lemmas exn_reads = is_service_error_def is_http_exception_def err_message_def err_statusCode_def
  err_code_def

section \<open>String conversion and property access on JSON values\<close>

fun to_str :: "json \<Rightarrow> string" where
  "to_str JNull = ''null''"
| "to_str (JBool b) = (if b then ''true'' else ''false'')"
| "to_str (JNum n) = show_int n"
| "to_str (JStr s) = s"
| "to_str (JArr xs) = join '','' (map (\<lambda>x. if x = JNull then [] else to_str x) xs)"
| "to_str (JObj _) = ''[object Object]''"

definition field :: "string \<Rightarrow> json \<Rightarrow> json option" where
  "field k j = (case jget k j of Some JNull \<Rightarrow> None | r \<Rightarrow> r)"

definition as_errors :: "json \<Rightarrow> string list" where
  "as_errors d = (case d of JArr xs \<Rightarrow> map to_str xs | _ \<Rightarrow> [to_str d])"

definition errors_of :: "json option \<Rightarrow> string list option" where
  "errors_of d = (case d of None \<Rightarrow> None
     | Some j \<Rightarrow> if json_truthy j then Some (as_errors j) else None)"

section \<open>The exception filter\<close>

record api_response =
  ar_success :: bool
  ar_messageKey :: string
  ar_message :: string
  ar_data :: "json option"
  ar_errors :: "string list option"
  ar_timestamp :: string

definition opt_member :: "string \<Rightarrow> json option \<Rightarrow> (string \<times> json) list" where
  "opt_member k v = (case v of None \<Rightarrow> [] | Some j \<Rightarrow> [(k, j)])"

text \<open>The body as it is sent: members that are \<open>undefined\<close> are left out.\<close>

definition api_json :: "api_response \<Rightarrow> json" where
  "api_json a = JObj (
     [(''success'', JBool (ar_success a)), (''messageKey'', JStr (ar_messageKey a)),
      (''message'', JStr (ar_message a))]
     @ opt_member ''data'' (ar_data a)
     @ opt_member ''errors'' (map_option (\<lambda>es. JArr (map JStr es)) (ar_errors a))
     @ [(''timestamp'', JStr (ar_timestamp a))])"

datatype log_level = Warn | Error

record log_entry =
  le_level :: log_level
  le_msg :: string

definition SKIP_LOG_404_PATHS :: "string list" where
  "SKIP_LOG_404_PATHS =
     [''/.well-known/appspecific/com.chrome.devtools.json'', ''/favicon.ico'']"

definition shouldSkipLog404 :: "string option \<Rightarrow> bool" where
  "shouldSkipLog404 path = (case path of None \<Rightarrow> False | Some p \<Rightarrow> p \<in> set SKIP_LOG_404_PATHS)"

definition defaultCodeForStatus :: "int \<Rightarrow> ErrorCode" where
  "defaultCodeForStatus st =
     (if st = 400 then VALIDATION_ERROR
      else if st = 401 then UNAUTHORIZED
      else if st = 403 then FORBIDDEN
      else if st = 404 then NOT_FOUND
      else if st = 409 then CONFLICT
      else if st = 429 then TOO_MANY_REQUESTS
      else INTERNAL)"

text \<open>What the filter computes before it logs and answers.\<close>

record filter_view =
  fv_status :: int
  fv_messageKey :: string
  fv_message :: string
  fv_errors :: "string list option"
  fv_log :: "log_entry option"

definition raw_message :: "http_exc \<Rightarrow> string" where
  "raw_message h = (case field ''message'' (he_response h) of
       Some (JArr xs) \<Rightarrow> join '', '' (map (\<lambda>x. if x = JNull then [] else to_str x) xs)
     | Some j \<Rightarrow> to_str j
     | None \<Rightarrow> he_message h)"

definition filter_view_of :: "exn \<Rightarrow> string option \<Rightarrow> filter_view" where
  "filter_view_of e path = (case e of
     ServiceErr s \<Rightarrow>
       \<lparr>fv_status = se_statusCode s,
        fv_messageKey = se_code s,
        fv_message = (if se_exposeMessage s then se_message s else ''Request failed''),
        fv_errors = errors_of (se_details s),
        fv_log = Some \<lparr>le_level = (if 500 \<le> se_statusCode s then Error else Warn), le_msg = se_message s\<rparr>\<rparr>
   | HttpExc h \<Rightarrow>
       (if he_badRequest h then
          \<lparr>fv_status = he_status h,
           fv_messageKey = code_str VALIDATION_ERROR,
           fv_message = ''Validation failed'',
           fv_errors = errors_of (field ''message'' (he_response h)),
           fv_log = Some \<lparr>le_level = Warn, le_msg = ''validation_failed''\<rparr>\<rparr>
        else
          \<lparr>fv_status = he_status h,
           fv_messageKey = (case field ''code'' (he_response h) of
               Some c \<Rightarrow> to_str c | None \<Rightarrow> code_str (defaultCodeForStatus (he_status h))),
           fv_message = (if 500 \<le> he_status h then ''Internal server error'' else raw_message h),
           fv_errors = errors_of (field ''details'' (he_response h)),
           fv_log = (if he_status h = 404 \<and> shouldSkipLog404 path then None
                     else Some \<lparr>le_level = Warn, le_msg = raw_message h\<rparr>)\<rparr>)
   | _ \<Rightarrow>
       \<lparr>fv_status = 500,
        fv_messageKey = code_str INTERNAL,
        fv_message = ''Internal server error'',
        fv_errors = None,
        fv_log = Some \<lparr>le_level = Error, le_msg = ''unhandled_exception''\<rparr>\<rparr>)"

text \<open>The whole handler: the log entry, and the response unless headers were already sent.\<close>

definition http_exception_catch ::
  "exn \<Rightarrow> string option \<Rightarrow> bool \<Rightarrow> string \<Rightarrow> log_entry option \<times> (int \<times> api_response) option" where
  "http_exception_catch e path headersSent timestamp =
     (let v = filter_view_of e path
      in (fv_log v,
          if headersSent then None
          else Some (fv_status v,
            \<lparr>ar_success = False, ar_messageKey = fv_messageKey v, ar_message = fv_message v,
             ar_data = None, ar_errors = fv_errors v, ar_timestamp = timestamp\<rparr>)))"

section \<open>Reading another service's error\<close>

text \<open>
  \<open>'response' in err\<close>: what the function then reads as \<open>response.status\<close>, \<open>response.data\<close>
  and \<open>message\<close>. NestJS's \<open>HttpException\<close> also has a property \<open>response\<close>, so it passes the
  test; its status is not in there unless the thrower put it there.
\<close>

definition axios_view :: "exn \<Rightarrow> (int option \<times> json option \<times> string option) option" where
  "axios_view e = (case e of
     AxiosLike st body msg \<Rightarrow> Some (st, body, msg)
   | HttpExc h \<Rightarrow> Some ((case field ''status'' (he_response h) of Some (JNum n) \<Rightarrow> Some n | _ \<Rightarrow> None),
                      jget ''data'' (he_response h), Some (he_message h))
   | _ \<Rightarrow> None)"

definition isAxiosLike :: "exn \<Rightarrow> bool" where
  "isAxiosLike e = (axios_view e \<noteq> None)"

definition sub_field :: "string \<Rightarrow> string \<Rightarrow> json option \<Rightarrow> json option" where
  "sub_field k k' body = Option.bind (Option.bind body (field k)) (field k')"

definition first_some :: "'a option \<Rightarrow> 'a option \<Rightarrow> 'a option" where
  "first_some a b = (case a of None \<Rightarrow> b | Some x \<Rightarrow> Some x)"

definition axios_error :: "int option \<Rightarrow> json option \<Rightarrow> string option \<Rightarrow> string \<Rightarrow> service_error" where
  "axios_error rstatus body msg defaultMessage =
     (let status = nullish rstatus 500;
          codeFromBody = first_some (Option.bind body (field ''messageKey'')) (sub_field ''error'' ''code'' body);
          code = (case codeFromBody of Some c \<Rightarrow> to_str c
            | None \<Rightarrow> if status = 401 then code_str AUTH_TOKEN_INVALID
                     else if status = 404 then code_str NOT_FOUND
                     else code_str INTERNAL);
          message = (case first_some (Option.bind body (field ''message'')) (sub_field ''error'' ''message'' body) of
              Some m \<Rightarrow> to_str m
            | None \<Rightarrow> nullish msg defaultMessage);
          details = first_some (Option.bind body (field ''errors'')) (sub_field ''error'' ''details'' body)
      in service_error_new (Some code) (Some status) message (if 500 \<le> status then None else details) None)"

text \<open>\<open>handleAxiosError\<close> never returns: the value is the exception it throws.\<close>

definition handleAxiosError :: "exn \<Rightarrow> string \<Rightarrow> exn" where
  "handleAxiosError err defaultMessage = (case err of
     ServiceErr s \<Rightarrow> ServiceErr s
   | _ \<Rightarrow> (case axios_view err of
         Some (st, body, msg) \<Rightarrow> ServiceErr (axios_error st body msg defaultMessage)
       | None \<Rightarrow> ServiceErr (service_error_new (Some (code_str INTERNAL)) (Some 500)
            (nullish (err_message err) defaultMessage) None None)))"

section \<open>Facts\<close>

lemma jget_Cons: "jget k (JObj ((k', v) # kvs)) =
    (case jget k (JObj kvs) of None \<Rightarrow> (if k = k' then Some v else None) | r \<Rightarrow> r)"
  by (simp add: jget_def map_add_def split: option.split)

lemma jget_Nil [simp]: "jget k (JObj []) = None"
  by (simp add: jget_def)

lemma jget_non_object [simp]:
  "jget k JNull = None" "jget k (JStr s) = None" "jget k (JArr xs) = None" "jget k (JNum n) = None"
  by (simp_all add: jget_def)

lemma field_api_json [simp]:
  "field ''messageKey'' (api_json a) = Some (JStr (ar_messageKey a))"
  "field ''message'' (api_json a) = Some (JStr (ar_message a))"
  "field ''errors'' (api_json a) = map_option (\<lambda>es. JArr (map JStr es)) (ar_errors a)"
  "field ''error'' (api_json a) = None"
  by (cases "ar_errors a"; cases "ar_data a";
      simp add: field_def api_json_def jget_Cons opt_member_def)+

lemma as_errors_strings [simp]: "errors_of (Some (JArr (map JStr es))) = Some es"
  by (simp add: errors_of_def json_truthy_def as_errors_def comp_def)

lemma errors_of_None [simp]: "errors_of None = None"
  by (simp add: errors_of_def)

lemma handleAxiosError_service: "\<exists>s. handleAxiosError e d = ServiceErr s"
  by (cases e) (simp_all add: handleAxiosError_def axios_view_def)

lemma handleAxiosError_ServiceErr [simp]: "handleAxiosError (ServiceErr s) d = ServiceErr s"
  by (simp add: handleAxiosError_def)

lemma handleAxiosError_idem: "handleAxiosError (handleAxiosError e d) d' = handleAxiosError e d"
  using handleAxiosError_service [of e d] by auto

text \<open>The answer a client of the gateway gets to an error of another service.\<close>

definition gateway_relay :: "int \<Rightarrow> api_response \<Rightarrow> string \<Rightarrow> string \<Rightarrow> (int \<times> api_response) option" where
  "gateway_relay st body defaultMessage timestamp =
     snd (http_exception_catch
       (handleAxiosError (AxiosLike (Some st) (Some (api_json body)) None) defaultMessage)
       None False timestamp)"

text \<open>
  The error channel is faithful: whatever a backend service throws, the client of the
  gateway reads the backend's status, code and message, and its list of errors below status
  500; from 500 on the list is withheld.
\<close>
theorem error_channel:
  "snd (http_exception_catch e path False t) = Some (st, body) \<Longrightarrow>
   gateway_relay st body d t' =
     Some (st, body\<lparr>ar_errors := (if 500 \<le> st then None else ar_errors body), ar_timestamp := t'\<rparr>)"
  by (cases "fv_errors (filter_view_of e path)")
    (auto simp: gateway_relay_def http_exception_catch_def Let_def handleAxiosError_def axios_view_def
      axios_error_def filter_view_of_def [of "ServiceErr s" for s] service_error_new_def first_some_def
      sub_field_def split: option.splits)

lemma error_channel_witness:
  "gateway_relay 409 (api_response.make False ''CONFLICT'' ''Email already exists'' None None ''t0'') ''d'' ''t1''
     = Some (409, api_response.make False ''CONFLICT'' ''Email already exists'' None None ''t1'')"
  using error_channel [of "service_exn CONFLICT 409 ''Email already exists''" None "''t0''" 409
      "api_response.make False ''CONFLICT'' ''Email already exists'' None None ''t0''" "''d''" "''t1''"]
  by (simp add: http_exception_catch_def filter_view_of_def Let_def exn_defs api_response.make_def)

text \<open>
  Nothing internal leaks: the message of an answer of status 500 or above is one of the two
  generic texts, unless a \<open>ServiceError\<close> was thrown whose author left its message exposed, and
  an error that is neither a \<open>ServiceError\<close> nor an \<open>HttpException\<close> is always a plain 500.
\<close>
theorem no_internal_leak:
  "snd (http_exception_catch e path False t) = Some (st, body) \<Longrightarrow>
   (500 \<le> st \<longrightarrow> ar_message body \<in> {''Internal server error'', ''Request failed'', ''Validation failed''}
      \<or> (\<exists>s. e = ServiceErr s \<and> se_exposeMessage s \<and> ar_message body = se_message s))
   \<and> (\<not> is_service_error e \<and> \<not> is_http_exception e \<longrightarrow>
        st = 500 \<and> body = \<lparr>ar_success = False, ar_messageKey = ''INTERNAL'',
          ar_message = ''Internal server error'', ar_data = None, ar_errors = None, ar_timestamp = t\<rparr>)"
  by (cases e) (auto simp: http_exception_catch_def filter_view_of_def Let_def exn_reads split: if_splits)

lemma no_internal_leak_witness:
  "ar_message (snd (the (snd (http_exception_catch (PrismaErr ''P2002'' ''Unique constraint'') None False ''t0''))))
     = ''Internal server error''"
  using no_internal_leak [of "PrismaErr ''P2002'' ''Unique constraint''" None "''t0''" 500
      "api_response.make False ''INTERNAL'' ''Internal server error'' None None ''t0''"]
  by (simp add: http_exception_catch_def filter_view_of_def Let_def exn_reads api_response.make_def)

end
