(* ===== verification/Contracts.thy ===== *)
theory Contracts
  imports Errors
begin

text \<open>
  \<open>packages/contracts/src\<close>: the messages the services exchange and the zod schemas that parse
  them. A schema keeps the members it names and fails on a missing or ill-typed one; an optional
  member may be absent but not \<open>null\<close>. The string formats of zod (uuid, email, datetime) are
  parameters. A failed \<open>parse\<close> is an ordinary error.
\<close>

record zod_formats =
  zf_uuid :: "string \<Rightarrow> bool"
  zf_email :: "string \<Rightarrow> bool"
  zf_datetime :: "string \<Rightarrow> bool"

text \<open>The types of members: what a JSON value contributes, or a failure.\<close>

definition z_string :: "(string \<Rightarrow> bool) \<Rightarrow> json option \<Rightarrow> string option" where
  "z_string ok v = (case v of Some (JStr s) \<Rightarrow> if ok s then Some s else None | _ \<Rightarrow> None)"

definition z_string_optional :: "(string \<Rightarrow> bool) \<Rightarrow> json option \<Rightarrow> string option option" where
  "z_string_optional ok v = (case v of None \<Rightarrow> Some None
     | Some _ \<Rightarrow> map_option Some (z_string ok v))"

definition z_count :: "json option \<Rightarrow> int option" where
  "z_count v = (case v of Some (JNum n) \<Rightarrow> if 0 \<le> n then Some n else None | _ \<Rightarrow> None)"

definition any_string :: "string \<Rightarrow> bool" where
  "any_string s = True"

definition is_object :: "json \<Rightarrow> bool" where
  "is_object j = (case j of JObj _ \<Rightarrow> True | _ \<Rightarrow> False)"

definition zod_result :: "'a option \<Rightarrow> exn + 'a" where
  "zod_result r = (case r of None \<Rightarrow> Inl (PlainErr ''ZodError'') | Some x \<Rightarrow> Inr x)"

lemma z_simps [simp]:
  "z_string ok (Some (JStr s)) = (if ok s then Some s else None)"
  "z_string ok None = None" "z_string ok (Some JNull) = None"
  "z_string_optional ok None = Some None"
  "z_string_optional ok (Some (JStr s)) = (if ok s then Some (Some s) else None)"
  "z_string_optional ok (Some JNull) = None"
  "z_count (Some (JNum n)) = (if 0 \<le> n then Some n else None)" "z_count None = None"
  "any_string s"
  by (simp_all add: z_string_def z_string_optional_def z_count_def any_string_def)

lemma zod_result_simps [simp]:
  "zod_result (Some x) = Inr x" "zod_result None = Inl (PlainErr ''ZodError'')"
  by (simp_all add: zod_result_def)

section \<open>Events\<close>

definition USER_REGISTERED :: string where "USER_REGISTERED = ''user.registered''"
definition NOTIFICATION_CREATED :: string where "NOTIFICATION_CREATED = ''notification.created''"

record user_registered =
  ur_userId :: string
  ur_email :: string
  ur_code :: string
  ur_createdAt :: string
  ur_requestId :: "string option"

definition UserRegisteredSchema :: "zod_formats \<Rightarrow> json \<Rightarrow> exn + user_registered" where
  "UserRegisteredSchema z j = zod_result
     (case (z_string (zf_uuid z) (jget ''userId'' j), z_string (zf_email z) (jget ''email'' j),
            z_string any_string (jget ''code'' j), z_string (zf_datetime z) (jget ''createdAt'' j),
            z_string_optional any_string (jget ''requestId'' j)) of
        (Some u, Some e, Some c, Some d, Some r) \<Rightarrow>
          Some \<lparr>ur_userId = u, ur_email = e, ur_code = c, ur_createdAt = d, ur_requestId = r\<rparr>
      | _ \<Rightarrow> None)"

record notification_created =
  nc_notificationId :: string
  nc_userId :: string
  nc_type :: string
  nc_title :: string
  nc_body :: "string option"
  nc_data :: "json option"
  nc_actionCreatedAt :: string
  nc_unreadCount :: int

definition NotificationCreatedSchema :: "zod_formats \<Rightarrow> json \<Rightarrow> exn + notification_created" where
  "NotificationCreatedSchema z j = zod_result
     (case (z_string (zf_uuid z) (jget ''notificationId'' j), z_string (zf_uuid z) (jget ''userId'' j),
            z_string any_string (jget ''type'' j), z_string any_string (jget ''title'' j),
            z_string_optional any_string (jget ''body'' j),
            z_string (zf_datetime z) (jget ''actionCreatedAt'' j), z_count (jget ''unreadCount'' j)) of
        (Some i, Some u, Some t, Some ti, Some b, Some d, Some c) \<Rightarrow>
          Some \<lparr>nc_notificationId = i, nc_userId = u, nc_type = t, nc_title = ti, nc_body = b,
                nc_data = jget ''data'' j, nc_actionCreatedAt = d, nc_unreadCount = c\<rparr>
      | _ \<Rightarrow> None)"

text \<open>\<open>JSON.stringify\<close> of an event: members that are \<open>undefined\<close> are left out.\<close>

definition notification_created_json :: "notification_created \<Rightarrow> json" where
  "notification_created_json n = JObj (
     [(''notificationId'', JStr (nc_notificationId n)), (''userId'', JStr (nc_userId n)),
      (''type'', JStr (nc_type n)), (''title'', JStr (nc_title n))]
     @ opt_member ''body'' (map_option JStr (nc_body n))
     @ opt_member ''data'' (nc_data n)
     @ [(''actionCreatedAt'', JStr (nc_actionCreatedAt n)), (''unreadCount'', JNum (nc_unreadCount n))])"

definition user_registered_json :: "user_registered \<Rightarrow> json" where
  "user_registered_json n = JObj (
     [(''userId'', JStr (ur_userId n)), (''email'', JStr (ur_email n)), (''code'', JStr (ur_code n)),
      (''createdAt'', JStr (ur_createdAt n))]
     @ opt_member ''requestId'' (map_option JStr (ur_requestId n)))"

section \<open>Jobs\<close>

definition PASSWORD_RESET_REQUESTED :: string where
  "PASSWORD_RESET_REQUESTED = ''passwordReset.requested''"

record password_reset_requested =
  pr_userId :: string
  pr_email :: string
  pr_token :: string
  pr_expiresAt :: string

definition PasswordResetRequestedSchema :: "zod_formats \<Rightarrow> json \<Rightarrow> exn + password_reset_requested" where
  "PasswordResetRequestedSchema z j = zod_result
     (case (z_string (zf_uuid z) (jget ''userId'' j), z_string (zf_email z) (jget ''email'' j),
            z_string any_string (jget ''token'' j), z_string (zf_datetime z) (jget ''expiresAt'' j)) of
        (Some u, Some e, Some t, Some x) \<Rightarrow>
          Some \<lparr>pr_userId = u, pr_email = e, pr_token = t, pr_expiresAt = x\<rparr>
      | _ \<Rightarrow> None)"

section \<open>WebSocket messages\<close>

definition WS_NOTIFICATION_NEW :: string where "WS_NOTIFICATION_NEW = ''notification:new''"
definition WS_NOTIFICATION_READ :: string where "WS_NOTIFICATION_READ = ''notification:read''"
definition WS_NOTIFICATION_READ_ALL :: string where "WS_NOTIFICATION_READ_ALL = ''notification:read-all''"
definition WS_NOTIFICATION_UPDATED :: string where "WS_NOTIFICATION_UPDATED = ''notification:updated''"
definition WS_UNREAD_COUNT_UPDATED :: string where "WS_UNREAD_COUNT_UPDATED = ''unreadCount:updated''"

text \<open>\<open>safeParse\<close> of a read request: the id, or a failure.\<close>

definition NotificationReadRequestSchema :: "zod_formats \<Rightarrow> json \<Rightarrow> string option" where
  "NotificationReadRequestSchema z j = z_string (zf_uuid z) (jget ''notificationId'' j)"

definition notification_new_payload :: "notification_created \<Rightarrow> json" where
  "notification_new_payload n = JObj (
     [(''notificationId'', JStr (nc_notificationId n)), (''userId'', JStr (nc_userId n)),
      (''type'', JStr (nc_type n)), (''title'', JStr (nc_title n))]
     @ opt_member ''body'' (map_option JStr (nc_body n))
     @ [(''createdAt'', JStr (nc_actionCreatedAt n)), (''unreadCount'', JNum (nc_unreadCount n))])"

definition notification_updated_payload :: "string \<Rightarrow> string option \<Rightarrow> json option \<Rightarrow> json" where
  "notification_updated_payload action notificationId unreadCount = JObj (
     [(''action'', JStr action)]
     @ opt_member ''notificationId'' (map_option JStr notificationId)
     @ opt_member ''unreadCount'' unreadCount)"

text \<open>The schemas of what the gateway sends; it sends without parsing.\<close>

record notification_new =
  nn_notificationId :: string
  nn_userId :: string
  nn_type :: string
  nn_title :: string
  nn_body :: "string option"
  nn_createdAt :: string
  nn_unreadCount :: int

definition NotificationNewPayloadSchema :: "zod_formats \<Rightarrow> json \<Rightarrow> exn + notification_new" where
  "NotificationNewPayloadSchema z j = zod_result
     (case (z_string (zf_uuid z) (jget ''notificationId'' j), z_string (zf_uuid z) (jget ''userId'' j),
            z_string any_string (jget ''type'' j), z_string any_string (jget ''title'' j),
            z_string_optional any_string (jget ''body'' j),
            z_string (zf_datetime z) (jget ''createdAt'' j), z_count (jget ''unreadCount'' j)) of
        (Some i, Some u, Some t, Some ti, Some b, Some d, Some c) \<Rightarrow>
          Some \<lparr>nn_notificationId = i, nn_userId = u, nn_type = t, nn_title = ti, nn_body = b,
                nn_createdAt = d, nn_unreadCount = c\<rparr>
      | _ \<Rightarrow> None)"

record notification_updated =
  nu_action :: string
  nu_notificationId :: "string option"
  nu_unreadCount :: int

definition NotificationUpdatedPayloadSchema :: "zod_formats \<Rightarrow> json \<Rightarrow> exn + notification_updated" where
  "NotificationUpdatedPayloadSchema z j = zod_result
     (case (z_string (\<lambda>s. s \<in> {''read'', ''read-all''}) (jget ''action'' j),
            z_string_optional (zf_uuid z) (jget ''notificationId'' j), z_count (jget ''unreadCount'' j)) of
        (Some a, Some i, Some c) \<Rightarrow> Some \<lparr>nu_action = a, nu_notificationId = i, nu_unreadCount = c\<rparr>
      | _ \<Rightarrow> None)"

definition UnreadCountUpdatedPayloadSchema :: "json \<Rightarrow> exn + int" where
  "UnreadCountUpdatedPayloadSchema j = zod_result (z_count (jget ''count'' j))"

definition NotificationReadAllRequestSchema :: "json \<Rightarrow> exn + unit" where
  "NotificationReadAllRequestSchema j = zod_result (if is_object j then Some () else None)"

section \<open>Round trips\<close>

definition created_ok :: "zod_formats \<Rightarrow> notification_created \<Rightarrow> bool" where
  "created_ok z n \<longleftrightarrow> zf_uuid z (nc_notificationId n) \<and> zf_uuid z (nc_userId n)
     \<and> zf_datetime z (nc_actionCreatedAt n) \<and> 0 \<le> nc_unreadCount n"

lemma jget_append: "jget k (JObj (xs @ ys)) =
    (case jget k (JObj ys) of None \<Rightarrow> jget k (JObj xs) | r \<Rightarrow> r)"
  by (simp add: jget_def map_add_def split: option.split)

lemma jget_opt_member: "jget k (JObj (opt_member k' v)) = (if k = k' then v else None)"
  by (cases v) (simp_all add: opt_member_def jget_Cons)

lemma jget_created [simp]:
  "jget ''notificationId'' (notification_created_json n) = Some (JStr (nc_notificationId n))"
  "jget ''userId'' (notification_created_json n) = Some (JStr (nc_userId n))"
  "jget ''type'' (notification_created_json n) = Some (JStr (nc_type n))"
  "jget ''title'' (notification_created_json n) = Some (JStr (nc_title n))"
  "jget ''body'' (notification_created_json n) = map_option JStr (nc_body n)"
  "jget ''data'' (notification_created_json n) = nc_data n"
  "jget ''actionCreatedAt'' (notification_created_json n) = Some (JStr (nc_actionCreatedAt n))"
  "jget ''unreadCount'' (notification_created_json n) = Some (JNum (nc_unreadCount n))"
  by (simp_all add: notification_created_json_def jget_append jget_Cons jget_opt_member split: option.split)

lemma jget_registered [simp]:
  "jget ''userId'' (user_registered_json n) = Some (JStr (ur_userId n))"
  "jget ''email'' (user_registered_json n) = Some (JStr (ur_email n))"
  "jget ''code'' (user_registered_json n) = Some (JStr (ur_code n))"
  "jget ''createdAt'' (user_registered_json n) = Some (JStr (ur_createdAt n))"
  "jget ''requestId'' (user_registered_json n) = map_option JStr (ur_requestId n)"
  by (simp_all add: user_registered_json_def jget_append jget_Cons jget_opt_member split: option.split)

lemma z_string_optional_JStr [simp]: "z_string_optional any_string (map_option JStr v) = Some v"
  by (cases v) simp_all

lemma NotificationCreated_roundtrip [simp]:
  "NotificationCreatedSchema z (notification_created_json n) =
     (if created_ok z n then Inr n else Inl (PlainErr ''ZodError''))"
  by (auto simp: NotificationCreatedSchema_def created_ok_def)

definition registered_ok :: "zod_formats \<Rightarrow> user_registered \<Rightarrow> bool" where
  "registered_ok z n \<longleftrightarrow> zf_uuid z (ur_userId n) \<and> zf_email z (ur_email n) \<and> zf_datetime z (ur_createdAt n)"

lemma UserRegistered_roundtrip [simp]:
  "UserRegisteredSchema z (user_registered_json n) =
     (if registered_ok z n then Inr n else Inl (PlainErr ''ZodError''))"
  by (auto simp: UserRegisteredSchema_def registered_ok_def)

text \<open>What is pushed for a created notification conforms; an update conforms when it has a count.\<close>

lemma new_payload_conforms:
  assumes "created_ok z n"
  shows "NotificationNewPayloadSchema z (notification_new_payload n) =
    Inr \<lparr>nn_notificationId = nc_notificationId n, nn_userId = nc_userId n, nn_type = nc_type n, nn_title = nc_title n,
         nn_body = nc_body n, nn_createdAt = nc_actionCreatedAt n, nn_unreadCount = nc_unreadCount n\<rparr>"
proof -
  have "jget ''notificationId'' (notification_new_payload n) = Some (JStr (nc_notificationId n))"
    "jget ''userId'' (notification_new_payload n) = Some (JStr (nc_userId n))"
    "jget ''type'' (notification_new_payload n) = Some (JStr (nc_type n))"
    "jget ''title'' (notification_new_payload n) = Some (JStr (nc_title n))"
    "jget ''body'' (notification_new_payload n) = map_option JStr (nc_body n)"
    "jget ''createdAt'' (notification_new_payload n) = Some (JStr (nc_actionCreatedAt n))"
    "jget ''unreadCount'' (notification_new_payload n) = Some (JNum (nc_unreadCount n))"
    by (simp_all add: notification_new_payload_def jget_append jget_Cons jget_opt_member split: option.split)
  then show ?thesis using assms by (simp add: NotificationNewPayloadSchema_def created_ok_def)
qed

lemma updated_payload_conforms:
  assumes "action \<in> {''read'', ''read-all''}" and "\<And>i. nid = Some i \<Longrightarrow> zf_uuid z i"
  shows "NotificationUpdatedPayloadSchema z (notification_updated_payload action nid (Some (JNum (int n)))) =
    Inr \<lparr>nu_action = action, nu_notificationId = nid, nu_unreadCount = int n\<rparr>"
proof -
  let ?p = "notification_updated_payload action nid (Some (JNum (int n)))"
  have "jget ''action'' ?p = Some (JStr action)" "jget ''notificationId'' ?p = map_option JStr nid"
    "jget ''unreadCount'' ?p = Some (JNum (int n))"
    by (simp_all add: notification_updated_payload_def jget_append jget_Cons jget_opt_member opt_member_def split: option.split)
  then show ?thesis using assms by (cases nid) (simp_all add: NotificationUpdatedPayloadSchema_def)
qed

lemma updated_payload_without_count:
  "NotificationUpdatedPayloadSchema z (notification_updated_payload action nid None) = Inl (PlainErr ''ZodError'')"
proof -
  have "jget ''unreadCount'' (notification_updated_payload action nid None) = None"
    by (simp add: notification_updated_payload_def jget_append jget_Cons jget_opt_member opt_member_def split: option.split)
  then show ?thesis by (simp add: NotificationUpdatedPayloadSchema_def split: option.split)
qed

end
