(* ===== verification/Http.thy ===== *)
theory Http
  imports Errors
begin

text \<open>
  Calls between the services. A call is sent through an axios client created with
  \<open>validateStatus: () => true\<close>, so every answer, error statuses included, is an ordinary
  response; only a call without an answer throws. The network is a parameter: a program on the
  world behind it. \<open>checked_call\<close> is the shape of the calls to the auth service (look at the status,
  hand an error status to \<open>handleAxiosError\<close>), \<open>unchecked_call\<close> the shape of those that do not look.
\<close>

record http_call =
  hc_method :: string
  hc_path :: string
  hc_headers :: "(string \<times> string) list"
  hc_params :: "(string \<times> string option) list"
  hc_body :: "json option"

record response =
  rs_status :: int
  rs_data :: json
  rs_setCookie :: "string list"

type_synonym 'w network = "http_call \<Rightarrow> ('w, exn, response) prog"

definition check_status :: "string \<Rightarrow> response \<Rightarrow> ('w, exn, unit) prog" where
  "check_status dflt r = throw_if (400 \<le> rs_status r)
     (handleAxiosError (AxiosLike (Some (rs_status r)) (Some (rs_data r)) None) dflt)"

definition guarded :: "string \<Rightarrow> ('w, exn, 'a) prog \<Rightarrow> ('w, exn, 'a) prog" where
  "guarded dflt m = catchp m (\<lambda>e. throw (handleAxiosError e dflt))"

definition checked_call :: "'w network \<Rightarrow> string \<Rightarrow> http_call \<Rightarrow> ('w, exn, json) prog" where
  "checked_call net dflt call = guarded dflt (bind (net call) (\<lambda>r. andthen (check_status dflt r) (ret (rs_data r))))"

definition unchecked_call :: "'w network \<Rightarrow> string \<Rightarrow> http_call \<Rightarrow> ('w, exn, json) prog" where
  "unchecked_call net dflt call = guarded dflt (bind (net call) (\<lambda>r. ret (rs_data r)))"

lemma guarded_run: "guarded dflt m w = (case m w of (Inl e, w') \<Rightarrow> (Inl (handleAxiosError e dflt), w') | r \<Rightarrow> r)"
  by (auto simp: guarded_def catchp_run split: prod.splits sum.splits)

lemma guarded_service:
  assumes "guarded dflt m w = (Inl e, w')"
  shows "\<exists>s. e = ServiceErr s"
proof -
  from assms obtain e' where "e = handleAxiosError e' dflt"
    by (auto simp: guarded_run split: prod.splits sum.splits)
  then show ?thesis using handleAxiosError_service by simp
qed

text \<open>What the caller of a checked call gets, by what the network gave.\<close>

lemma checked_call_run:
  "net call w = (Inl e, w') \<Longrightarrow> checked_call net dflt call w = (Inl (handleAxiosError e dflt), w')"
  "net call w = (Inr r, w') \<Longrightarrow> rs_status r < 400 \<Longrightarrow> checked_call net dflt call w = (Inr (rs_data r), w')"
  "net call w = (Inr r, w') \<Longrightarrow> 400 \<le> rs_status r \<Longrightarrow> checked_call net dflt call w =
     (Inl (handleAxiosError (AxiosLike (Some (rs_status r)) (Some (rs_data r)) None) dflt), w')"
  by (simp_all add: checked_call_def guarded_run check_status_def bind_run andthen_run handleAxiosError_idem)

lemma unchecked_call_run:
  "net call w = (Inl e, w') \<Longrightarrow> unchecked_call net dflt call w = (Inl (handleAxiosError e dflt), w')"
  "net call w = (Inr r, w') \<Longrightarrow> unchecked_call net dflt call w = (Inr (rs_data r), w')"
  by (simp_all add: unchecked_call_def guarded_run bind_run)

section \<open>The token of the gateway\<close>

text \<open>\<open>jwt.sign\<close>: payload, secret, issuer, audience, lifetime.\<close>

type_synonym jwt_sign = "json \<Rightarrow> string \<Rightarrow> string \<Rightarrow> string \<Rightarrow> string \<Rightarrow> string"

definition signInternalToken ::
  "jwt_sign \<Rightarrow> string option \<Rightarrow> string option \<Rightarrow> string option \<Rightarrow> json \<Rightarrow> string" where
  "signInternalToken jwt_sign secret issuer audience data =
     jwt_sign (JObj [(''sub'', JStr ''gateway''), (''data'', data)])
       (or_str secret ''change-internal'') (or_str issuer ''gateway'') (or_str audience ''internal'') ''5m''"

end
