(* ===== verification/WsGateway.thy ===== *)
theory WsGateway
  imports SocketRegistry FixedWindow Contracts Http
begin

text \<open>
  The WebSocket side of the gateway: \<open>apps/gateway/src/modules/websocket/websocket.gateway.ts\<close>
  (connections, the limiter of incoming messages, pushes), the handlers of
  \<open>events/notification-ws.gateway.ts\<close> and the consumer of \<open>events/notification-jetstream.consumer.ts\<close>,
  with the notification client they call.

  The state holds the socket registry, the limiter's windows, \<open>client.data\<close> of every open
  socket, the effects on the sockets in order, and the world behind the network. \<open>jwt.verify\<close>
  is a parameter: \<open>None\<close> when it throws. A handler of \<open>notification-ws.gateway.ts\<close> runs here in
  one step; what other events do during its awaits is not interleaved.
\<close>

section \<open>State\<close>

record jwt_payload =
  jp_sub :: string
  jp_email :: string
  jp_permVersion :: int

record socket_data =
  sd_userId :: string
  sd_email :: string
  sd_authenticated :: bool

datatype ws_effect = ToSocket string string json | ToAll string json | Disconnect string

record 'w ws_state =
  ws_registry :: registry
  ws_limits :: "string \<rightharpoonup> int \<times> int"
  ws_data :: "string \<rightharpoonup> socket_data"
  ws_out :: "ws_effect list"
  ws_world :: 'w

record ws_config =
  wc_secret :: string
  wc_issuer :: string
  wc_audience :: string

definition ws_config_new :: "string option \<Rightarrow> string option \<Rightarrow> string option \<Rightarrow> ws_config" where
  "ws_config_new secret issuer audience = \<lparr>wc_secret = or_str secret ''change-me'',
     wc_issuer = or_str issuer ''auth-service'', wc_audience = or_str audience ''api''\<rparr>"

definition emit_socket :: "string \<Rightarrow> string \<Rightarrow> json \<Rightarrow> 'w ws_state \<Rightarrow> 'w ws_state" where
  "emit_socket socketId event data st = st\<lparr>ws_out := ws_out st @ [ToSocket socketId event data]\<rparr>"

definition disconnect :: "string \<Rightarrow> 'w ws_state \<Rightarrow> 'w ws_state" where
  "disconnect socketId st = st\<lparr>ws_out := ws_out st @ [Disconnect socketId]\<rparr>"

definition error_message :: "string \<Rightarrow> json" where
  "error_message m = JObj [(''message'', JStr m)]"

section \<open>Connections\<close>

record handshake =
  hs_queryToken :: "json option"
  hs_authorization :: "string option"
  hs_authToken :: "json option"

definition nonempty_string :: "json option \<Rightarrow> string option" where
  "nonempty_string v = (case v of Some (JStr s) \<Rightarrow> if s = [] then None else Some s | _ \<Rightarrow> None)"

definition extractToken :: "handshake \<Rightarrow> string option" where
  "extractToken hs = (case nonempty_string (hs_queryToken hs) of
     Some t \<Rightarrow> Some t
   | None \<Rightarrow> (case hs_authorization hs of
       Some h \<Rightarrow> if starts_with ''Bearer '' h then Some (drop 7 h) else nonempty_string (hs_authToken hs)
     | None \<Rightarrow> nonempty_string (hs_authToken hs)))"

type_synonym jwt_verify = "string \<Rightarrow> string \<Rightarrow> string \<Rightarrow> string \<Rightarrow> jwt_payload option"

definition verifyToken :: "jwt_verify \<Rightarrow> ws_config \<Rightarrow> string \<Rightarrow> jwt_payload option" where
  "verifyToken verify cfg token = verify token (wc_secret cfg) (wc_issuer cfg) (wc_audience cfg)"

definition handleConnection ::
  "jwt_verify \<Rightarrow> ws_config \<Rightarrow> string \<Rightarrow> handshake \<Rightarrow> 'w ws_state \<Rightarrow> 'w ws_state" where
  "handleConnection verify cfg socketId hs st =
     (if \<not> truthy (extractToken hs) then
        disconnect socketId (emit_socket socketId ''error'' (error_message ''Authentication required'') st)
      else (case verifyToken verify cfg (nullish (extractToken hs) []) of
         None \<Rightarrow> disconnect socketId (emit_socket socketId ''error'' (error_message ''Invalid token'') st)
       | Some payload \<Rightarrow>
          emit_socket socketId ''authenticated''
            (JObj [(''userId'', JStr (jp_sub payload)), (''message'', JStr ''Connected successfully'')])
            (st\<lparr>ws_data := (ws_data st)(socketId \<mapsto>
                  \<lparr>sd_userId = jp_sub payload, sd_email = jp_email payload, sd_authenticated = True\<rparr>),
                ws_registry := register (jp_sub payload) socketId (ws_registry st)\<rparr>)))"

text \<open>The socket object, with its \<open>client.data\<close>, is gone after the handler.\<close>

definition handleDisconnect :: "string \<Rightarrow> 'w ws_state \<Rightarrow> 'w ws_state" where
  "handleDisconnect socketId st =
     (let reg = unregister socketId (ws_registry st)
      in st\<lparr>ws_registry := reg,
            ws_limits := (case ws_data st socketId of
                None \<Rightarrow> ws_limits st
              | Some d \<Rightarrow> if sd_userId d \<noteq> [] \<and> \<not> isUserOnline (sd_userId d) reg
                         then (ws_limits st)(sd_userId d := None) else ws_limits st),
            ws_data := (ws_data st)(socketId := None)\<rparr>)"

section \<open>The limiter, pings and pushes\<close>

definition MAX_MESSAGES_PER_SECOND :: nat where "MAX_MESSAGES_PER_SECOND = 10"

definition checkRateLimit :: "int \<Rightarrow> string \<Rightarrow> (string \<rightharpoonup> int \<times> int) \<Rightarrow> bool \<times> (string \<rightharpoonup> int \<times> int)" where
  "checkRateLimit now userId limits = (case limits userId of
     None \<Rightarrow> (True, limits(userId \<mapsto> (1, now + 1000)))
   | Some (count, resetAt) \<Rightarrow>
      if resetAt < now then (True, limits(userId \<mapsto> (1, now + 1000)))
      else if int MAX_MESSAGES_PER_SECOND \<le> count then (False, limits)
      else (True, limits(userId \<mapsto> (count + 1, resetAt))))"

definition handlePing :: "int \<Rightarrow> string \<Rightarrow> 'w ws_state \<Rightarrow> 'w ws_state" where
  "handlePing now socketId = emit_socket socketId ''pong'' (JObj [(''timestamp'', JNum now)])"

definition emitToUser :: "string \<Rightarrow> string \<Rightarrow> json \<Rightarrow> 'w ws_state \<Rightarrow> 'w ws_state" where
  "emitToUser userId event data st =
     (let socketIds = getSocketsByUser userId (ws_registry st)
      in if length socketIds = 0 then st
         else fold (\<lambda>s. emit_socket s event data) socketIds st)"

definition broadcast :: "string \<Rightarrow> json \<Rightarrow> 'w ws_state \<Rightarrow> 'w ws_state" where
  "broadcast event data st = st\<lparr>ws_out := ws_out st @ [ToAll event data]\<rparr>"

section \<open>The notification client\<close>

text \<open>\<open>apps/gateway/.../notification.service.ts\<close>: only \<open>ping\<close> looks at the status.\<close>

definition getHeaders :: "string \<Rightarrow> string option \<Rightarrow> (string \<times> string) list" where
  "getHeaders requestId userToken = (''x-request-id'', requestId) #
     (if truthy userToken then [(''Authorization'', nullish userToken [])] else [])"

definition noti_call :: "string \<Rightarrow> string \<Rightarrow> (string \<times> string) list \<Rightarrow> json option \<Rightarrow> http_call" where
  "noti_call m path headers body = \<lparr>hc_method = m, hc_path = path, hc_headers = headers, hc_params = [], hc_body = body\<rparr>"

definition noti_failed :: string where "noti_failed = ''Notification service request failed''"

definition noti_ping :: "'w network \<Rightarrow> ('w, exn, json) prog" where
  "noti_ping net = checked_call net noti_failed (noti_call ''GET'' ''health'' (getHeaders ''health-check'' None) None)"

definition noti_create :: "'w network \<Rightarrow> json \<Rightarrow> string option \<Rightarrow> string \<Rightarrow> ('w, exn, json) prog" where
  "noti_create net dto authToken requestId =
     unchecked_call net noti_failed (noti_call ''POST'' ''notification'' (getHeaders requestId authToken) (Some dto))"

definition noti_findAll :: "'w network \<Rightarrow> string option \<Rightarrow> string \<Rightarrow> string option \<Rightarrow> string option
    \<Rightarrow> string option \<Rightarrow> string option \<Rightarrow> ('w, exn, json) prog" where
  "noti_findAll net authToken requestId page limit sortBy sortOrder =
     unchecked_call net noti_failed ((noti_call ''GET'' ''notification/list'' (getHeaders requestId authToken) None)
       \<lparr>hc_params := [(''page'', page), (''limit'', limit), (''sortBy'', sortBy), (''sortOrder'', sortOrder)]\<rparr>)"

definition noti_unreadCount :: "'w network \<Rightarrow> string option \<Rightarrow> string \<Rightarrow> ('w, exn, json) prog" where
  "noti_unreadCount net authToken requestId =
     unchecked_call net noti_failed (noti_call ''GET'' ''notification/unread-count'' (getHeaders requestId authToken) None)"

definition noti_markRead :: "'w network \<Rightarrow> string \<Rightarrow> string option \<Rightarrow> string \<Rightarrow> ('w, exn, json) prog" where
  "noti_markRead net nid authToken requestId =
     unchecked_call net noti_failed
       (noti_call ''POST'' (''notification/'' @ nid @ ''/read'') (getHeaders requestId authToken) None)"

definition noti_readAll :: "'w network \<Rightarrow> string option \<Rightarrow> string \<Rightarrow> ('w, exn, json) prog" where
  "noti_readAll net authToken requestId =
     unchecked_call net noti_failed (noti_call ''POST'' ''notification/read-all'' (getHeaders requestId authToken) None)"

section \<open>The notification handlers\<close>

text \<open>\<open>const { k } = v\<close>: throws on \<open>null\<close>, \<open>undefined\<close> member otherwise.\<close>

definition destructure :: "string \<Rightarrow> json \<Rightarrow> exn + json option" where
  "destructure k v = (if v = JNull then Inl (PlainErr ''Cannot destructure'') else Inr (jget k v))"

definition with_world :: "('w, exn, 'a) prog \<Rightarrow> 'w ws_state \<Rightarrow> (exn + 'a) \<times> 'w ws_state" where
  "with_world m st = (let (r, w) = m (ws_world st) in (r, st\<lparr>ws_world := w\<rparr>))"

text \<open>
  The two guards every handler starts with: an open, authenticated socket, and room in its
  user's window. \<open>sign\<close> is \<open>InternalJwtService.signInternalToken\<close> on the data \<open>{ userId }\<close>.
\<close>

definition ws_guarded ::
  "int \<Rightarrow> string \<Rightarrow> (string \<Rightarrow> 'w ws_state \<Rightarrow> 'w ws_state) \<Rightarrow> 'w ws_state \<Rightarrow> 'w ws_state" where
  "ws_guarded now socketId body st = (case ws_data st socketId of
     None \<Rightarrow> emit_socket socketId ''error'' (error_message ''Not authenticated'') st
   | Some d \<Rightarrow>
      if \<not> sd_authenticated d then emit_socket socketId ''error'' (error_message ''Not authenticated'') st
      else (case checkRateLimit now (sd_userId d) (ws_limits st) of
          (False, limits) \<Rightarrow> emit_socket socketId ''error''
             (error_message ''Rate limit exceeded, please slow down'') (st\<lparr>ws_limits := limits\<rparr>)
        | (True, limits) \<Rightarrow> body (sd_userId d) (st\<lparr>ws_limits := limits\<rparr>)))"

definition mark_and_count ::
  "'w network \<Rightarrow> string \<Rightarrow> string \<Rightarrow> string \<Rightarrow> ('w, exn, json option) prog" where
  "mark_and_count net nid token requestId =
     andthen (noti_markRead net nid (Some token) requestId)
       (bind (noti_unreadCount net (Some token) requestId) (\<lambda>data. lift (destructure ''count'' data)))"

definition handleNotificationRead ::
  "zod_formats \<Rightarrow> (json \<Rightarrow> json) \<Rightarrow> 'w network \<Rightarrow> (string \<Rightarrow> string) \<Rightarrow> int \<Rightarrow> string \<Rightarrow> string \<Rightarrow> json
     \<Rightarrow> 'w ws_state \<Rightarrow> 'w ws_state" where
  "handleNotificationRead z flatten net sign now requestId socketId body =
     ws_guarded now socketId (\<lambda>userId st.
       (case NotificationReadRequestSchema z body of
          None \<Rightarrow> emit_socket socketId ''error''
             (JObj [(''message'', JStr ''Invalid payload''), (''errors'', flatten body)]) st
        | Some nid \<Rightarrow>
           (case with_world (mark_and_count net nid (''Bearer '' @ sign userId) requestId) st of
              (Inr count, st') \<Rightarrow> emitToUser userId WS_NOTIFICATION_UPDATED
                 (notification_updated_payload ''read'' (Some nid) count) st'
            | (Inl e, st') \<Rightarrow> emit_socket socketId ''error''
                 (error_message ''Failed to mark notification as read'') st')))"

definition handleNotificationReadAll ::
  "'w network \<Rightarrow> (string \<Rightarrow> string) \<Rightarrow> int \<Rightarrow> string \<Rightarrow> string \<Rightarrow> 'w ws_state \<Rightarrow> 'w ws_state" where
  "handleNotificationReadAll net sign now requestId socketId =
     ws_guarded now socketId (\<lambda>userId st.
       (case with_world (bind (noti_readAll net (Some (''Bearer '' @ sign userId)) requestId)
                (\<lambda>data. lift (destructure ''updated'' data))) st of
          (Inr _, st') \<Rightarrow> emitToUser userId WS_NOTIFICATION_UPDATED
             (notification_updated_payload ''read-all'' None (Some (JNum 0))) st'
        | (Inl e, st') \<Rightarrow> emit_socket socketId ''error''
             (error_message ''Failed to mark all notifications as read'') st'))"

text \<open>\<open>signInternalToken\<close>; \<open>jwt_sign\<close> is a parameter: payload, secret, issuer, audience, lifetime.\<close>


section \<open>The consumer of created notifications\<close>

text \<open>Its handler: a message that is no JSON or fails the schema throws; otherwise it is pushed.\<close>

definition handle_notification_created ::
  "zod_formats \<Rightarrow> string \<Rightarrow> ('w ws_state, exn, unit) prog" where
  "handle_notification_created z msg =
     bind (lift (case json_parse msg of None \<Rightarrow> Inl (PlainErr ''SyntaxError'') | Some j \<Rightarrow> Inr j)) (\<lambda>data.
     bind (lift (NotificationCreatedSchema z data)) (\<lambda>payload.
       modify (emitToUser (nc_userId payload) WS_NOTIFICATION_NEW (notification_new_payload payload))))"


section \<open>Effects\<close>

lemma emit_socket_simps [simp]:
  "ws_registry (emit_socket s e d st) = ws_registry st" "ws_data (emit_socket s e d st) = ws_data st"
  "ws_limits (emit_socket s e d st) = ws_limits st" "ws_world (emit_socket s e d st) = ws_world st"
  "ws_out (emit_socket s e d st) = ws_out st @ [ToSocket s e d]"
  by (simp_all add: emit_socket_def)

lemma disconnect_simps [simp]:
  "ws_registry (disconnect s st) = ws_registry st" "ws_data (disconnect s st) = ws_data st"
  "ws_limits (disconnect s st) = ws_limits st" "ws_world (disconnect s st) = ws_world st"
  "ws_out (disconnect s st) = ws_out st @ [Disconnect s]"
  by (simp_all add: disconnect_def)

lemma fold_emit: "fold (\<lambda>s. emit_socket s e d) ss st = st\<lparr>ws_out := ws_out st @ map (\<lambda>s. ToSocket s e d) ss\<rparr>"
  by (induction ss arbitrary: st) (simp_all add: emit_socket_def)

lemma emitToUser_eq: "emitToUser u e d st =
    st\<lparr>ws_out := ws_out st @ map (\<lambda>s. ToSocket s e d) (getSocketsByUser u (ws_registry st))\<rparr>"
  by (simp add: emitToUser_def fold_emit Let_def)

lemma with_world_simps: "with_world m st = (r, st') \<longleftrightarrow>
    (\<exists>w. m (ws_world st) = (r, w) \<and> st' = st\<lparr>ws_world := w\<rparr>)"
  by (auto simp: with_world_def Let_def split: prod.splits)

section \<open>The message limiter keeps the fixed-window contract\<close>

interpretation wsl: window_limiter "\<lambda>_. True" "\<lambda>l. l u" "\<lambda>t l. checkRateLimit t u l" MAX_MESSAGES_PER_SECOND 1000
  for u
  by unfold_locales
    (auto simp: checkRateLimit_def live_None_iff live_Some_iff split: option.splits prod.splits)

lemma checkRateLimit_other: "u' \<noteq> u \<Longrightarrow> snd (checkRateLimit t u l) u' = l u'"
  by (auto simp: checkRateLimit_def split: option.splits prod.splits)

lemma checkRateLimit_dom: "dom (snd (checkRateLimit t u l)) \<subseteq> insert u (dom l)"
  by (auto simp: checkRateLimit_def split: option.splits prod.splits if_splits)

text \<open>
  C30. The message limiter holds for a user who stays connected: in no closed interval of one
  second does the gateway accept more than 20 of the user's messages, whatever other users send
  in between, and a refused message follows at least 10 accepted ones within one second.
\<close>
theorem ws_message_limit:
  assumes "sorted (ts @ [t])" and "l u = None"
  shows "allowed_in a (a + 1000) (run_hits (\<lambda>t. checkRateLimit t u) l ts) \<le> 20
    \<and> (\<not> fst (checkRateLimit t u (after_hits (\<lambda>t. checkRateLimit t u) l ts)) \<longrightarrow>
        10 \<le> allowed_in (t - 1000) t (run_hits (\<lambda>t. checkRateLimit t u) l ts))
    \<and> (u' \<noteq> u \<longrightarrow> snd (checkRateLimit t u' l) u = l u)"
proof (intro conjI impI)
  have "sorted ts" using assms(1) by (simp add: sorted_append)
  moreover have room: "wsl.room u l" by (simp add: wsl.room_def assms(2))
  ultimately
  show "allowed_in a (a + 1000) (run_hits (\<lambda>t. checkRateLimit t u) l ts) \<le> 20"
    using wsl.burst_bound [of ts u l "a + 1000" a] room by (simp add: MAX_MESSAGES_PER_SECOND_def)
  show "10 \<le> allowed_in (t - 1000) t (run_hits (\<lambda>t. checkRateLimit t u) l ts)"
    if "\<not> fst (checkRateLimit t u (after_hits (\<lambda>t. checkRateLimit t u) l ts))"
    using wsl.refusal_justified [of ts t l u] assms that by (simp add: MAX_MESSAGES_PER_SECOND_def)
  show "snd (checkRateLimit t u' l) u = l u" if "u' \<noteq> u"
    using that by (simp add: checkRateLimit_other)
qed

lemma ws_message_limit_witness:
  "allowed_in 0 1000 (run_hits (\<lambda>t. checkRateLimit t ''u'') Map.empty (replicate 12 5)) \<le> 20
    \<and> \<not> fst (checkRateLimit 5 ''u'' (after_hits (\<lambda>t. checkRateLimit t ''u'') Map.empty (replicate 12 5)))"
proof
  have sorted: "sorted (replicate 12 (5::int) @ [5])" by code_simp
  show "allowed_in 0 1000 (run_hits (\<lambda>t. checkRateLimit t ''u'') Map.empty (replicate 12 5)) \<le> 20"
    using ws_message_limit [of "replicate 12 5" 5 Map.empty "''u''" 0] sorted by simp
  show "\<not> fst (checkRateLimit 5 ''u'' (after_hits (\<lambda>t. checkRateLimit t ''u'') Map.empty (replicate 12 5)))"
    by code_simp
qed

section \<open>Runs of the gateway\<close>

record 'w ws_env =
  we_verify :: jwt_verify
  we_config :: ws_config
  we_formats :: zod_formats
  we_flatten :: "json \<Rightarrow> json"
  we_network :: "'w network"
  we_sign :: "string \<Rightarrow> string"

datatype ws_event =
    Connect string handshake
  | Disconnected string
  | PingMessage string
  | ReadMessage string string json
  | ReadAllMessage string string
  | CreatedMessage string

fun ws_apply :: "'w ws_env \<Rightarrow> int \<Rightarrow> ws_event \<Rightarrow> 'w ws_state \<Rightarrow> 'w ws_state" where
  "ws_apply E t (Connect s hs) st = handleConnection (we_verify E) (we_config E) s hs st"
| "ws_apply E t (Disconnected s) st = handleDisconnect s st"
| "ws_apply E t (PingMessage s) st = handlePing t s st"
| "ws_apply E t (ReadMessage rid s body) st =
     handleNotificationRead (we_formats E) (we_flatten E) (we_network E) (we_sign E) t rid s body st"
| "ws_apply E t (ReadAllMessage rid s) st = handleNotificationReadAll (we_network E) (we_sign E) t rid s st"
| "ws_apply E t (CreatedMessage msg) st = snd (handle_notification_created (we_formats E) msg st)"

definition ws_init :: "'w \<Rightarrow> 'w ws_state" where
  "ws_init w = \<lparr>ws_registry = registry_empty, ws_limits = Map.empty, ws_data = Map.empty, ws_out = [], ws_world = w\<rparr>"

text \<open>The socket server gives a new connection an id that no open socket has.\<close>

definition ws_possible :: "ws_event \<Rightarrow> 'w ws_state \<Rightarrow> bool" where
  "ws_possible ev st = (case ev of Connect s hs \<Rightarrow> ws_data st s = None | _ \<Rightarrow> True)"

inductive ws_reachable :: "'w ws_env \<Rightarrow> 'w ws_state \<Rightarrow> bool" for E where
  init: "ws_reachable E (ws_init w)"
| step: "ws_reachable E st \<Longrightarrow> ws_possible ev st \<Longrightarrow> ws_reachable E (ws_apply E t ev st)"

text \<open>Tokens name a user: the auth service signs the user's id as \<open>sub\<close>.\<close>

definition tokens_name_users :: "'w ws_env \<Rightarrow> bool" where
  "tokens_name_users E \<longleftrightarrow> (\<forall>tok p. verifyToken (we_verify E) (we_config E) tok = Some p \<longrightarrow> jp_sub p \<noteq> [])"

definition ws_sound :: "'w ws_env \<Rightarrow> 'w ws_state \<Rightarrow> bool" where
  "ws_sound E st \<longleftrightarrow> registry_ok (ws_registry st)
     \<and> (\<forall>s. getUserBySocket s (ws_registry st) = map_option sd_userId (ws_data st s))
     \<and> (\<forall>s d. ws_data st s = Some d \<longrightarrow> sd_authenticated d \<and>
          (\<exists>tok p. verifyToken (we_verify E) (we_config E) tok = Some p \<and> sd_userId d = jp_sub p))
     \<and> (\<forall>u. ws_limits st u \<noteq> None \<longrightarrow> isUserOnline u (ws_registry st))"

lemma ws_soundD:
  assumes "ws_sound E st"
  shows "registry_ok (ws_registry st)"
    "\<And>s. getUserBySocket s (ws_registry st) = map_option sd_userId (ws_data st s)"
    "\<And>s d. ws_data st s = Some d \<Longrightarrow> sd_authenticated d \<and>
          (\<exists>tok p. verifyToken (we_verify E) (we_config E) tok = Some p \<and> sd_userId d = jp_sub p)"
    "\<And>u. ws_limits st u \<noteq> None \<Longrightarrow> isUserOnline u (ws_registry st)"
  using assms unfolding ws_sound_def by blast+

text \<open>A handler that leaves the sessions alone and opens windows for online users only.\<close>

definition ws_frame :: "'w ws_state \<Rightarrow> 'w ws_state \<Rightarrow> bool" where
  "ws_frame st st' \<longleftrightarrow> ws_registry st' = ws_registry st \<and> ws_data st' = ws_data st \<and>
     (\<forall>u. ws_limits st' u \<noteq> None \<longrightarrow> ws_limits st u \<noteq> None \<or> (\<exists>s d. ws_data st s = Some d \<and> sd_userId d = u))"

lemma ws_online:
  assumes "ws_sound E st"
  shows "isUserOnline u (ws_registry st) \<longleftrightarrow> (\<exists>s d. ws_data st s = Some d \<and> sd_userId d = u)"
  unfolding sreg.online_owner [OF ws_soundD(1) [OF assms]] ws_soundD(2) [OF assms] by auto

lemma ws_frame_sound:
  assumes "ws_frame st st'" and "ws_sound E st"
  shows "ws_sound E st'"
proof -
  have eq: "ws_registry st' = ws_registry st" "ws_data st' = ws_data st"
    using assms(1) by (simp_all add: ws_frame_def)
  have "isUserOnline u (ws_registry st)" if "ws_limits st' u \<noteq> None" for u
  proof (cases "ws_limits st u = None")
    case True
    with assms(1) that show ?thesis unfolding ws_frame_def ws_online [OF assms(2)] by blast
  next
    case False
    then show ?thesis by (rule ws_soundD(4) [OF assms(2)])
  qed
  then show ?thesis
    unfolding ws_sound_def eq using ws_soundD(1-3) [OF assms(2)] by blast
qed

lemma ws_frame_limits:
  "ws_data st s = Some d \<Longrightarrow> ws_frame st (st\<lparr>ws_limits := snd (checkRateLimit now (sd_userId d) (ws_limits st))\<rparr>)"
  by (auto simp: ws_frame_def checkRateLimit_def split: option.splits prod.splits if_splits)

lemma ws_frame_trans:
  "ws_frame st st' \<Longrightarrow> ws_registry st'' = ws_registry st' \<and> ws_data st'' = ws_data st' \<and> ws_limits st'' = ws_limits st' \<Longrightarrow>
    ws_frame st st''"
  by (simp add: ws_frame_def)

lemma ws_frame_same:
  "ws_registry st' = ws_registry st \<and> ws_data st' = ws_data st \<and> ws_limits st' = ws_limits st \<Longrightarrow> ws_frame st st'"
  by (simp add: ws_frame_def)

lemma ws_guarded_cases:
  obtains (refused) m l where "ws_guarded now s body st = emit_socket s ''error'' m (st\<lparr>ws_limits := l\<rparr>)"
      "l = ws_limits st \<or> (\<exists>d. ws_data st s = Some d \<and> l = snd (checkRateLimit now (sd_userId d) (ws_limits st)))"
  | (accepted) d where "ws_data st s = Some d" "sd_authenticated d"
      "fst (checkRateLimit now (sd_userId d) (ws_limits st))"
      "ws_guarded now s body st =
        body (sd_userId d) (st\<lparr>ws_limits := snd (checkRateLimit now (sd_userId d) (ws_limits st))\<rparr>)"
proof (cases "ws_data st s")
  case None
  then show thesis by (intro refused [of _ "ws_limits st"]) (simp_all add: ws_guarded_def)
next
  case (Some d)
  obtain ok l where c: "checkRateLimit now (sd_userId d) (ws_limits st) = (ok, l)" by fastforce
  show thesis
  proof (cases "sd_authenticated d \<and> ok")
    case True
    with Some c show thesis by (intro accepted [of d]) (simp_all add: ws_guarded_def)
  next
    case False
    show thesis
    proof (cases "sd_authenticated d")
      case True
      with Some c False show thesis by (intro refused [of _ l]) (auto simp: ws_guarded_def)
    next
      case False
      with Some show thesis by (intro refused [of _ "ws_limits st"]) (simp_all add: ws_guarded_def)
    qed
  qed
qed

lemma ws_frame_guarded:
  assumes "\<And>u st. ws_registry (body u st) = ws_registry st \<and> ws_data (body u st) = ws_data st
    \<and> ws_limits (body u st) = ws_limits st"
  shows "ws_frame st (ws_guarded now s body st)"
proof (cases rule: ws_guarded_cases [of now s body st])
  case (refused m l)
  from refused(2) have "ws_frame st (st\<lparr>ws_limits := l\<rparr>)"
  proof (elim disjE exE conjE)
    assume "l = ws_limits st"
    then show ?thesis by (simp add: ws_frame_def)
  next
    fix d
    assume "ws_data st s = Some d" "l = snd (checkRateLimit now (sd_userId d) (ws_limits st))"
    then show ?thesis by (simp only: ws_frame_limits)
  qed
  then show ?thesis by (rule ws_frame_trans) (simp add: refused(1))
next
  case (accepted d)
  from ws_frame_limits [OF accepted(1), of now] show ?thesis
    by (rule ws_frame_trans) (simp only: accepted(4) assms)
qed

lemma with_world_frame: "with_world m st = (r, st') \<Longrightarrow>
    ws_registry st' = ws_registry st \<and> ws_data st' = ws_data st \<and> ws_limits st' = ws_limits st
    \<and> ws_out st' = ws_out st"
  by (auto simp: with_world_simps)

lemma ws_frame_read: "ws_frame st (handleNotificationRead z fl net sign now rid s body st)"
  unfolding handleNotificationRead_def
  by (rule ws_frame_guarded)
    (auto simp: emitToUser_eq dest!: with_world_frame split: option.split prod.splits sum.splits)

lemma ws_frame_readAll: "ws_frame st (handleNotificationReadAll net sign now rid s st)"
  unfolding handleNotificationReadAll_def
  by (rule ws_frame_guarded)
    (auto simp: emitToUser_eq dest!: with_world_frame split: option.split prod.splits sum.splits)

lemma ws_frame_created: "ws_frame st (snd (handle_notification_created z msg st))"
  by (auto simp: handle_notification_created_def bind_run ws_frame_def emitToUser_eq split: sum.splits option.splits)


lemma handleDisconnect_sound:
  assumes "ws_sound E st" and "tokens_name_users E"
  shows "ws_sound E (handleDisconnect s st)"
  unfolding ws_sound_def
proof (intro conjI allI impI)
  let ?st = "handleDisconnect s st"
  note ok = ws_soundD [OF assms(1)]
  have reg: "ws_registry ?st = unregister s (ws_registry st)" by (simp add: handleDisconnect_def Let_def)
  have data: "ws_data ?st = (ws_data st)(s := None)" by (simp add: handleDisconnect_def Let_def)
  show "registry_ok (ws_registry ?st)" unfolding reg by (rule sreg.unreg_inv [OF ok(1)])
  show "getUserBySocket s' (ws_registry ?st) = map_option sd_userId (ws_data ?st s')" for s'
    unfolding reg data by (simp add: sreg.unreg_owner [OF ok(1)] ok(2))
  show "sd_authenticated d" if "ws_data ?st s' = Some d" for s' d
    using that ok(3) [of s' d] unfolding data by (auto split: if_splits)
  show "\<exists>tok p. verifyToken (we_verify E) (we_config E) tok = Some p \<and> sd_userId d = jp_sub p"
    if "ws_data ?st s' = Some d" for s' d
    using that ok(3) [of s' d] unfolding data by (auto split: if_splits)
  show "isUserOnline u (ws_registry ?st)" if "ws_limits ?st u \<noteq> None" for u
  proof (rule ccontr)
    assume off: "\<not> isUserOnline u (ws_registry ?st)"
    have "ws_limits ?st u \<noteq> None \<Longrightarrow> ws_limits st u \<noteq> None"
      by (auto simp: handleDisconnect_def Let_def split: option.splits if_splits)
    then have "isUserOnline u (ws_registry st)" using that ok(4) by blast
    then obtain s' d where d: "ws_data st s' = Some d" "sd_userId d = u"
      unfolding ws_online [OF assms(1)] by blast
    have "s' = s"
      using off d unfolding reg sreg.unreg_online [OF ok(1)] by (metis ok(2) option.map(2))
    moreover have "u \<noteq> []"
      using ok(3) [OF d(1)] d(2) assms(2) unfolding tokens_name_users_def by metis
    ultimately have "ws_limits ?st u = None"
      using off d unfolding reg by (simp add: handleDisconnect_def Let_def)
    with that show False by simp
  qed
qed

lemma handleConnection_cases:
  obtains (rejected) m where "handleConnection v c s hs st = disconnect s (emit_socket s ''error'' m st)"
  | (accepted) tok p where "extractToken hs = Some tok" "verifyToken v c tok = Some p"
      "ws_data (handleConnection v c s hs st) = (ws_data st)(s \<mapsto>
         \<lparr>sd_userId = jp_sub p, sd_email = jp_email p, sd_authenticated = True\<rparr>)"
      "ws_registry (handleConnection v c s hs st) = register (jp_sub p) s (ws_registry st)"
      "ws_limits (handleConnection v c s hs st) = ws_limits st"
proof (cases "truthy (extractToken hs)")
  case False
  then show thesis by (intro rejected) (simp add: handleConnection_def)
next
  case True
  then obtain tok where t: "extractToken hs = Some tok" "tok \<noteq> []" by (cases "extractToken hs") auto
  show thesis
  proof (cases "verifyToken v c tok")
    case None
    with t show thesis by (intro rejected) (simp add: handleConnection_def)
  next
    case (Some p)
    with t show thesis by (intro accepted [OF t(1) Some]) (simp_all add: handleConnection_def)
  qed
qed

lemma handleConnection_sound:
  assumes "ws_sound E st" and "tokens_name_users E" and "ws_data st s = None"
  shows "ws_sound E (handleConnection (we_verify E) (we_config E) s hs st)"
proof (cases rule: handleConnection_cases [of "we_verify E" "we_config E" s hs st])
  case (rejected m)
  then show ?thesis using ws_frame_sound [OF ws_frame_same assms(1)] by simp
next
  case (accepted tok p)
  note ok = ws_soundD [OF assms(1)]
  let ?st = "handleConnection (we_verify E) (we_config E) s hs st"
  have p: "jp_sub p \<noteq> []" using accepted(2) assms(2) by (auto simp: tokens_name_users_def)
  have new: "getUserBySocket s (ws_registry st) = None" by (simp add: ok(2) assms(3))
  show ?thesis
    unfolding ws_sound_def
  proof (intro conjI allI impI)
    show "registry_ok (ws_registry ?st)" unfolding accepted(4) using sreg.reg_inv [OF ok(1) p] new by blast
    show "getUserBySocket s' (ws_registry ?st) = map_option sd_userId (ws_data ?st s')" for s'
      unfolding accepted(3,4) by (simp add: sreg.reg_owner [OF ok(1) p] ok(2))
    show "sd_authenticated d" if "ws_data ?st s' = Some d" for s' d
      using that ok(3) [of s' d] unfolding accepted(3) by (auto split: if_splits)
    show "\<exists>tok p. verifyToken (we_verify E) (we_config E) tok = Some p \<and> sd_userId d = jp_sub p"
      if "ws_data ?st s' = Some d" for s' d
    proof (cases "s' = s")
      case True
      with that have "sd_userId d = jp_sub p" unfolding accepted(3) by auto
      with accepted(2) show ?thesis by blast
    next
      case False
      with that have "ws_data st s' = Some d" unfolding accepted(3) by simp
      then show ?thesis using ok(3) by blast
    qed
    show "isUserOnline u (ws_registry ?st)" if "ws_limits ?st u \<noteq> None" for u
      using that ok(4) [of u] new unfolding accepted(4,5) by (simp add: sreg.reg_online [OF ok(1) p])
  qed
qed

lemma ws_reachable_sound:
  assumes "ws_reachable E st" and "tokens_name_users E"
  shows "ws_sound E st"
  using assms(1)
proof induction
  case (init w)
  show ?case
    by (simp add: ws_sound_def ws_init_def) (simp add: registry_empty_def getUserBySocket_def)
next
  case (step st ev t)
  show ?case
  proof (cases ev)
    case (Connect s hs)
    with step show ?thesis
      using handleConnection_sound [OF step.IH assms(2)] by (simp add: ws_possible_def)
  next
    case (Disconnected s)
    then show ?thesis using handleDisconnect_sound [OF step.IH assms(2)] by simp
  next
    case (PingMessage s)
    then show ?thesis using ws_frame_sound [OF ws_frame_same step.IH] by (simp add: handlePing_def)
  next
    case (ReadMessage rid s body)
    then show ?thesis using ws_frame_sound [OF ws_frame_read step.IH] by simp
  next
    case (ReadAllMessage rid s)
    then show ?thesis using ws_frame_sound [OF ws_frame_readAll step.IH] by simp
  next
    case (CreatedMessage msg)
    then show ?thesis using ws_frame_sound [OF ws_frame_created step.IH] by simp
  qed
qed


section \<open>What the gateway guarantees\<close>

text \<open>
  C7. Sessions are sound in every reachable state: a socket is registered for a user exactly
  while it is open and its token named that user, a user is online exactly while one of these
  sockets is open, and the limiter keeps a window only for users who are online, so its map does
  not grow with users who have left.
\<close>
theorem ws_sessions:
  assumes "ws_reachable E st" and "tokens_name_users E"
  shows "(\<forall>s u. s \<in> set (getSocketsByUser u (ws_registry st)) \<longleftrightarrow>
        (\<exists>d. ws_data st s = Some d \<and> sd_userId d = u))
    \<and> (\<forall>s d. ws_data st s = Some d \<longrightarrow>
        (\<exists>tok p. verifyToken (we_verify E) (we_config E) tok = Some p \<and> sd_userId d = jp_sub p))
    \<and> (\<forall>u. isUserOnline u (ws_registry st) \<longleftrightarrow> (\<exists>s d. ws_data st s = Some d \<and> sd_userId d = u))
    \<and> (\<forall>u. ws_limits st u \<noteq> None \<longrightarrow> isUserOnline u (ws_registry st))"
proof -
  have sound: "ws_sound E st" by (rule ws_reachable_sound [OF assms])
  note ok = ws_soundD [OF sound]
  have "s \<in> set (getSocketsByUser u (ws_registry st)) \<longleftrightarrow> (\<exists>d. ws_data st s = Some d \<and> sd_userId d = u)" for s u
    unfolding sreg.sockets_owner [OF ok(1)] ok(2) by auto
  then show ?thesis using ok(3,4) ws_online [OF sound] by blast
qed

text \<open>
  C21. A pushed notification reaches its user and no one else: in every reachable state, handling
  the event of a created notification appends one \<open>notification:new\<close> message for each open
  socket of the user the event names, and changes nothing else.
\<close>
theorem ws_push_exact:
  assumes "ws_reachable E st" and "tokens_name_users E" and "created_ok (we_formats E) n"
  shows "\<exists>ss. handle_notification_created (we_formats E) (stringify (notification_created_json n)) st =
      (Inr (), st\<lparr>ws_out := ws_out st @ map (\<lambda>s. ToSocket s ''notification:new'' (notification_new_payload n)) ss\<rparr>)
    \<and> distinct ss \<and> (\<forall>s. s \<in> set ss \<longleftrightarrow> (\<exists>d. ws_data st s = Some d \<and> sd_userId d = nc_userId n))"
proof -
  note ok = ws_soundD [OF ws_reachable_sound [OF assms(1,2)]]
  have "s \<in> set (getSocketsByUser u (ws_registry st)) \<longleftrightarrow> (\<exists>d. ws_data st s = Some d \<and> sd_userId d = u)" for s u
    unfolding sreg.sockets_owner [OF ok(1)] ok(2) by auto
  then show ?thesis
    using assms(3) sreg.sockets_distinct [OF ok(1), of "nc_userId n"]
    by (intro exI [of _ "getSocketsByUser (nc_userId n) (ws_registry st)"])
      (simp add: handle_notification_created_def bind_run emitToUser_eq WS_NOTIFICATION_NEW_def)
qed

text \<open>
  The guards of the handlers come before any effect: a read request of a socket that is not
  authenticated, of a user out of messages, or with an invalid body does not reach the
  notification service, and its only effect on sockets is an error to the sender.
\<close>
theorem ws_guard_first:
  assumes "case ws_data st s of None \<Rightarrow> True
      | Some d \<Rightarrow> \<not> sd_authenticated d \<or> \<not> fst (checkRateLimit now (sd_userId d) (ws_limits st))
          \<or> NotificationReadRequestSchema z body = None"
  shows "\<exists>m. ws_world (handleNotificationRead z fl net sign now rid s body st) = ws_world st
    \<and> ws_out (handleNotificationRead z fl net sign now rid s body st) = ws_out st @ [ToSocket s ''error'' m]"
  using assms
  by (auto simp: handleNotificationRead_def ws_guarded_def split: option.splits prod.splits bool.splits)

text \<open>
  A read that the notification service rejects is announced as done: the client of the
  gateway does not look at the status, so when the service answers 404 (or any error status) to
  the mark request, every socket of the user is still told that the notification was read.
\<close>
theorem ws_rejected_read_announced:
  assumes "ws_data st s = Some d" and "sd_authenticated d"
    and "fst (checkRateLimit now (sd_userId d) (ws_limits st))"
    and "NotificationReadRequestSchema z body = Some nid"
    and "net (noti_call ''POST'' (''notification/'' @ nid @ ''/read'') hdrs None) (ws_world st) = (Inr r, w)"
    and "net (noti_call ''GET'' ''notification/unread-count'' hdrs None) w = (Inr r', w')"
    and "hdrs = getHeaders rid (Some (''Bearer '' @ sign (sd_userId d)))"
    and "rs_status r = 404" and "rs_data r' = JObj [(''count'', JNum c)]"
  shows "ws_out (handleNotificationRead z fl net sign now rid s body st) = ws_out st @
    map (\<lambda>s'. ToSocket s' ''notification:updated'' (notification_updated_payload ''read'' (Some nid) (Some (JNum c))))
      (getSocketsByUser (sd_userId d) (ws_registry st))"
proof -
  obtain l where l: "checkRateLimit now (sd_userId d) (ws_limits st) = (True, l)"
    using assms(3) by (cases "checkRateLimit now (sd_userId d) (ws_limits st)") auto
  show ?thesis
    using assms(1,2,4) unchecked_call_run(2) [of net, OF assms(5)] unchecked_call_run(2) [of net, OF assms(6)] assms(7,9)
    by (simp add: handleNotificationRead_def ws_guarded_def l with_world_def mark_and_count_def andthen_run
        bind_run noti_markRead_def noti_unreadCount_def destructure_def jget_Cons
        emitToUser_eq WS_NOTIFICATION_UPDATED_def)
qed

text \<open>
  Leaving resets the limit: when the last socket of a user closes, the user's window is
  forgotten, so after reconnecting in the same millisecond a user whose messages were being
  refused is accepted again.
\<close>
theorem ws_reconnect_resets_limit:
  assumes "ws_reachable E st" and "tokens_name_users E" and "ws_data st s = Some d"
    and "\<forall>s' d'. ws_data st s' = Some d' \<and> sd_userId d' = sd_userId d \<longrightarrow> s' = s"
    and "verifyToken (we_verify E) (we_config E) tok = Some p" and "jp_sub p = sd_userId d"
    and "extractToken hs = Some tok" and "tok \<noteq> []"
  shows "fst (checkRateLimit t (sd_userId d)
    (ws_limits (ws_apply E t (Connect s' hs) (ws_apply E t (Disconnected s) st))))"
proof -
  have sound: "ws_sound E st" by (rule ws_reachable_sound [OF assms(1,2)])
  note ok = ws_soundD [OF sound]
  have "sd_userId d \<noteq> []" using assms(2,5,6) unfolding tokens_name_users_def by metis
  moreover have "\<not> isUserOnline (sd_userId d) (unregister s (ws_registry st))"
    unfolding sreg.unreg_online [OF ok(1)] ok(2) using assms(4) by auto
  ultimately have "ws_limits (handleDisconnect s st) (sd_userId d) = None"
    using assms(3) by (simp add: handleDisconnect_def Let_def)
  then show ?thesis
    using assms(5-8) by (simp add: handleConnection_def checkRateLimit_def)
qed

text \<open>A small environment: every token names the user \<open>u\<close>, and the backend has no notification.\<close>

definition sample_net :: "unit network" where
  "sample_net call w = (if hc_method call = ''POST'' then (Inr \<lparr>rs_status = 404, rs_data = JNull, rs_setCookie = []\<rparr>, w)
     else (Inr \<lparr>rs_status = 200, rs_data = JObj [(''count'', JNum 3)], rs_setCookie = []\<rparr>, w))"

definition sample_env :: "unit ws_env" where
  "sample_env = \<lparr>we_verify = (\<lambda>tok sec iss aud. Some \<lparr>jp_sub = ''u'', jp_email = ''e'', jp_permVersion = 1\<rparr>),
     we_config = ws_config_new None None None,
     we_formats = \<lparr>zf_uuid = \<lambda>_. True, zf_email = \<lambda>_. True, zf_datetime = \<lambda>_. True\<rparr>,
     we_flatten = id, we_network = sample_net, we_sign = id\<rparr>"

definition sample_hs :: handshake where
  "sample_hs = \<lparr>hs_queryToken = Some (JStr ''t''), hs_authorization = None, hs_authToken = None\<rparr>"

definition sample_st :: "unit ws_state" where
  "sample_st = ws_apply sample_env 0 (Connect ''s1'' sample_hs) (ws_init ())"

lemma sample_tokens [simp]: "tokens_name_users sample_env"
  by (simp add: tokens_name_users_def sample_env_def verifyToken_def)

lemma sample_reachable [simp]: "ws_reachable sample_env sample_st"
  unfolding sample_st_def by (rule ws_reachable.step [OF ws_reachable.init]) (simp add: ws_possible_def ws_init_def)

lemma sample_data [simp]: "ws_data sample_st = [''s1'' \<mapsto> \<lparr>sd_userId = ''u'', sd_email = ''e'', sd_authenticated = True\<rparr>]"
  "ws_limits sample_st = Map.empty"
  by (simp_all add: sample_st_def sample_env_def sample_hs_def ws_init_def handleConnection_def
      extractToken_def nonempty_string_def verifyToken_def)

lemma ws_sessions_witness:
  "\<exists>s d. ws_data sample_st s = Some d \<and> sd_userId d = ''u'' \<and> isUserOnline ''u'' (ws_registry sample_st)"
  using ws_sessions [OF sample_reachable sample_tokens] by (intro exI [of _ "''s1''"]) auto

lemma ws_push_exact_witness:
  "\<exists>st'. handle_notification_created (we_formats sample_env)
      (stringify (notification_created_json \<lparr>nc_notificationId = ''n'', nc_userId = ''u'', nc_type = ''t'',
         nc_title = ''hi'', nc_body = None, nc_data = None, nc_actionCreatedAt = ''d'', nc_unreadCount = 1\<rparr>)) sample_st
      = (Inr (), st')"
  using ws_push_exact [OF sample_reachable sample_tokens, of "\<lparr>nc_notificationId = ''n'', nc_userId = ''u'',
      nc_type = ''t'', nc_title = ''hi'', nc_body = None, nc_data = None, nc_actionCreatedAt = ''d'', nc_unreadCount = 1\<rparr>"]
  by (auto simp: created_ok_def sample_env_def)

lemma ws_guard_first_witness:
  "\<exists>m. ws_out (handleNotificationRead (we_formats sample_env) id sample_net id 0 ''r'' ''s2'' JNull sample_st) =
     ws_out sample_st @ [ToSocket ''s2'' ''error'' m]"
  using ws_guard_first [where st = sample_st and s = "''s2''" and now = 0 and z = "we_formats sample_env"
      and body = JNull and fl = id and net = sample_net and sign = id and rid = "''r''"] by auto

lemma ws_rejected_read_announced_witness:
  "ws_out (handleNotificationRead (we_formats sample_env) id sample_net id 0 ''r'' ''s1''
      (JObj [(''notificationId'', JStr ''n'')]) sample_st) = ws_out sample_st @
    map (\<lambda>s'. ToSocket s' ''notification:updated'' (notification_updated_payload ''read'' (Some ''n'') (Some (JNum 3))))
      (getSocketsByUser ''u'' (ws_registry sample_st))"
  using ws_rejected_read_announced [of sample_st "''s1''" "\<lparr>sd_userId = ''u'', sd_email = ''e'', sd_authenticated = True\<rparr>"
      0 "we_formats sample_env" "JObj [(''notificationId'', JStr ''n'')]" "''n''" sample_net
      "getHeaders ''r'' (Some (''Bearer '' @ id ''u''))" "\<lparr>rs_status = 404, rs_data = JNull, rs_setCookie = []\<rparr>" "()"
      "\<lparr>rs_status = 200, rs_data = JObj [(''count'', JNum 3)], rs_setCookie = []\<rparr>" "()" "''r''" id 3 id]
  by (simp add: checkRateLimit_def NotificationReadRequestSchema_def jget_Cons sample_env_def sample_net_def
      noti_call_def)

lemma ws_reconnect_resets_limit_witness:
  "fst (checkRateLimit 7 ''u'' (ws_limits (ws_apply sample_env 7 (Connect ''s2'' sample_hs)
     (ws_apply sample_env 7 (Disconnected ''s1'') sample_st))))"
proof -
  have "fst (checkRateLimit 7 (sd_userId \<lparr>sd_userId = ''u'', sd_email = ''e'', sd_authenticated = True\<rparr>)
      (ws_limits (ws_apply sample_env 7 (Connect ''s2'' sample_hs)
        (ws_apply sample_env 7 (Disconnected ''s1'') sample_st))))"
    by (rule ws_reconnect_resets_limit [OF sample_reachable sample_tokens, of "''s1''" _ "''t''"
          "\<lparr>jp_sub = ''u'', jp_email = ''e'', jp_permVersion = 1\<rparr>"])
      (simp_all add: sample_env_def verifyToken_def sample_hs_def extractToken_def nonempty_string_def)
  then show ?thesis by (simp only: socket_data.simps)
qed

end
