(* ===== verification/Idempotency.thy ===== *)
theory Idempotency
  imports Http
begin

text \<open>
  The gateway's idempotency keys (\<open>apps/gateway/src/modules/share/idempotency.service.ts\<close>): the
  table \<open>idempotency_records\<close>, the in-memory cache in front of it, and the operations on them.
  \<open>'w\<close> is the world behind the network. SHA-256, the UUIDs of new rows and JWT signing are
  parameters. An operation runs at one instant, given in milliseconds.
\<close>

section \<open>State\<close>

datatype IdempotencyStatus = processing | completed | failed

record idem_row =
  ir_id :: string
  ir_key :: string
  ir_requestHash :: string
  ir_status :: IdempotencyStatus
  ir_responseStatus :: "int option"
  ir_responseBody :: "json option"
  ir_expiresAt :: int

datatype gw_effect = AppendCookie string | ClearedCookie string

record 'w gw =
  gw_rows :: "idem_row list"
  gw_cache :: "string \<rightharpoonup> json \<times> int"
  gw_draws :: nat
  gw_out :: "gw_effect list"
  gw_world :: 'w

record gw_env =
  ge_sha256 :: "string \<Rightarrow> string"
  ge_uuid :: "nat \<Rightarrow> string"
  ge_jwtSign :: jwt_sign
  ge_secret :: "string option"
  ge_issuer :: "string option"
  ge_audience :: "string option"

type_synonym ('w, 'a) gwp = "('w gw, exn, 'a) prog"

record IdempotencyRequest =
  iq_method :: string
  iq_path :: string
  iq_body :: json
  iq_key :: string

section \<open>The operations\<close>

definition canonical :: "string \<Rightarrow> string \<Rightarrow> json \<Rightarrow> string" where
  "canonical method path body = stringify (JObj [(''method'', JStr method), (''path'', JStr path),
     (''body'', JStr (stringify body))])"

definition computeRequestHash :: "gw_env \<Rightarrow> string \<Rightarrow> string \<Rightarrow> json \<Rightarrow> string" where
  "computeRequestHash E method path body = ge_sha256 E (canonical method path body)"

text \<open>A cached \<open>null\<close> is indistinguishable from no entry.\<close>

definition getFromCache :: "int \<Rightarrow> string \<Rightarrow> ('w, json) gwp" where
  "getFromCache t key = (\<lambda>s. case gw_cache s key of
     None \<Rightarrow> (Inr JNull, s)
   | Some (response, expiresAt) \<Rightarrow>
       if t > expiresAt then (Inr JNull, s\<lparr>gw_cache := (gw_cache s)(key := None)\<rparr>) else (Inr response, s))"

definition setCache :: "int \<Rightarrow> string \<Rightarrow> json \<Rightarrow> ('w, unit) gwp" where
  "setCache t key response = modify (\<lambda>s. s\<lparr>gw_cache := (gw_cache s)(key \<mapsto> (response, t + 5 * 60 * 1000))\<rparr>)"

definition day :: int where "day = 24 * 60 * 60 * 1000"

definition record_update :: "string \<Rightarrow> (idem_row \<Rightarrow> idem_row) \<Rightarrow> ('w, unit) gwp" where
  "record_update i f = bind (gets (\<lambda>s. exists_row (\<lambda>r. ir_id r = i) (gw_rows s))) (\<lambda>ok.
     if ok then modify (\<lambda>s. s\<lparr>gw_rows := update_where (\<lambda>r. ir_id r = i) f (gw_rows s)\<rparr>)
     else throw (PrismaErr ''P2025'' ''Record to update not found''))"

definition record_create :: "idem_row \<Rightarrow> ('w, unit) gwp" where
  "record_create row = bind (gets (\<lambda>s. exists_row (\<lambda>r. ir_id r = ir_id row \<or> ir_key r = ir_key row) (gw_rows s))) (\<lambda>dup.
     if dup then throw (PrismaErr ''P2002'' ''Unique constraint failed'')
     else modify (\<lambda>s. s\<lparr>gw_rows := gw_rows s @ [row]\<rparr>))"

definition conflict :: "string \<Rightarrow> exn" where
  "conflict msg = ServiceErr (service_error_new (Some (code_str CONFLICT)) (Some 409) msg None (Some True))"

definition different_request :: exn where
  "different_request = conflict ''Idempotency key conflict: different request with same key''"

definition still_processing :: exn where
  "still_processing = conflict ''Request is still processing''"

text \<open>
  The result: \<open>recordId\<close>, \<open>shouldExecute\<close>, \<open>cachedResponse\<close>. \<open>check_record\<close> is the second half,
  the look at the table; \<open>decide\<close> is what it does with the row it read.
\<close>

definition decide :: "gw_env \<Rightarrow> int \<Rightarrow> IdempotencyRequest \<Rightarrow> idem_row option \<Rightarrow> ('w, string \<times> bool \<times> json option) gwp" where
  "decide E t req existing =
     (let requestHash = computeRequestHash E (iq_method req) (iq_path req) (iq_body req)
      in (case existing of
           Some r \<Rightarrow>
             if ir_requestHash r \<noteq> requestHash then throw different_request
             else (case ir_status r of
               completed \<Rightarrow> andthen (setCache t (iq_key req) (nullish (ir_responseBody r) JNull))
                   (ret (ir_id r, False, Some (nullish (ir_responseBody r) JNull)))
             | processing \<Rightarrow> throw still_processing
             | failed \<Rightarrow> andthen (record_update (ir_id r) (\<lambda>r. r\<lparr>ir_status := processing,
                     ir_responseStatus := None, ir_expiresAt := t + day\<rparr>))
                   (ret (ir_id r, True, None)))
         | None \<Rightarrow>
             bind (\<lambda>s. (Inr (ge_uuid E (gw_draws s)), s\<lparr>gw_draws := gw_draws s + 1\<rparr>)) (\<lambda>i.
               andthen (record_create \<lparr>ir_id = i, ir_key = iq_key req, ir_requestHash = requestHash,
                   ir_status = processing, ir_responseStatus = None, ir_responseBody = None,
                   ir_expiresAt = t + day\<rparr>)
                 (ret (i, True, None)))))"

definition check_record :: "gw_env \<Rightarrow> int \<Rightarrow> IdempotencyRequest \<Rightarrow> ('w, string \<times> bool \<times> json option) gwp" where
  "check_record E t req =
     bind (gets (\<lambda>s. find_first (\<lambda>r. ir_key r = iq_key req) (gw_rows s))) (decide E t req)"

definition checkIdempotency :: "gw_env \<Rightarrow> int \<Rightarrow> IdempotencyRequest \<Rightarrow> ('w, string \<times> bool \<times> json option) gwp" where
  "checkIdempotency E t req =
     (if iq_key req = [] then ret ([], True, None)
      else bind (getFromCache t (iq_key req)) (\<lambda>cachedResponse.
        if cachedResponse \<noteq> JNull then ret ([], False, Some cachedResponse)
        else check_record E t req))"

definition markCompleted :: "string \<Rightarrow> int \<Rightarrow> json \<Rightarrow> ('w, unit) gwp" where
  "markCompleted recordId responseStatus responseBody =
     (if recordId = [] then ret ()
      else record_update recordId (\<lambda>r. r\<lparr>ir_status := completed, ir_responseStatus := Some responseStatus,
        ir_responseBody := Some responseBody\<rparr>))"

definition markFailed :: "string \<Rightarrow> int \<Rightarrow> json \<Rightarrow> ('w, unit) gwp" where
  "markFailed recordId responseStatus errorData =
     (if recordId = [] then ret ()
      else record_update recordId (\<lambda>r. r\<lparr>ir_status := failed, ir_responseStatus := Some responseStatus,
        ir_responseBody := Some (if json_truthy errorData then errorData
          else JObj [(''error'', JStr ''Internal server error'')])\<rparr>))"

definition cacheResponse :: "int \<Rightarrow> string \<Rightarrow> json \<Rightarrow> ('w, unit) gwp" where
  "cacheResponse t key response = (if key = [] then ret () else setCache t key response)"

section \<open>The tables and the cache agree\<close>

definition idem_ok :: "'w gw \<Rightarrow> bool" where
  "idem_ok s \<longleftrightarrow> distinct (map ir_key (gw_rows s)) \<and> distinct (map ir_id (gw_rows s)) \<and> (\<forall>r\<in>set (gw_rows s). ir_id r \<noteq> [])
     \<and> (\<forall>k v x. gw_cache s k = Some (v, x) \<longrightarrow>
         (\<exists>r\<in>set (gw_rows s). ir_key r = k \<and> ir_status r = completed \<and> nullish (ir_responseBody r) JNull = v))"

definition uuids_ok :: "gw_env \<Rightarrow> bool" where
  "uuids_ok E \<longleftrightarrow> (\<forall>n. ge_uuid E n \<noteq> [])"

text \<open>The row of a key: the answer a completed request left.\<close>

definition answered :: "string \<Rightarrow> string \<Rightarrow> json \<Rightarrow> 'w gw \<Rightarrow> bool" where
  "answered k h d s \<longleftrightarrow> (\<exists>r. find_first (\<lambda>r. ir_key r = k) (gw_rows s) = Some r \<and> ir_requestHash r = h
     \<and> ir_status r = completed \<and> nullish (ir_responseBody r) JNull = d)"

lemma canonical_inject [simp]: "canonical m p b = canonical m' p' b' \<longleftrightarrow> m = m' \<and> p = p' \<and> b = b'"
  unfolding canonical_def stringify_inject by auto

lemma find_first_key:
  "distinct (map k t) \<Longrightarrow> r \<in> set t \<Longrightarrow> k r = v \<Longrightarrow> find_first (\<lambda>x. k x = v) t = Some r"
  using find_first_unique [of k t r] by simp

lemma cached_row:
  assumes "idem_ok s" and "gw_cache s k = Some (v, x)"
  obtains r where "find_first (\<lambda>r. ir_key r = k) (gw_rows s) = Some r" "ir_status r = completed"
    "nullish (ir_responseBody r) JNull = v"
  using assms find_first_key [of ir_key "gw_rows s" _ k] unfolding idem_ok_def by blast

lemma not_cached:
  assumes "idem_ok s" and "\<And>r. find_first (\<lambda>r. ir_key r = k) (gw_rows s) = Some r \<Longrightarrow> ir_status r \<noteq> completed"
  shows "gw_cache s k = None"
proof (rule ccontr)
  assume "gw_cache s k \<noteq> None"
  then obtain v x where "gw_cache s k = Some (v, x)" by auto
  then show False by (rule cached_row [OF assms(1)]) (use assms(2) in blast)
qed

lemma getFromCache_cases:
  obtains "gw_cache s k = None" "getFromCache t k s = (Inr JNull, s)"
  | v x where "gw_cache s k = Some (v, x)" "t \<le> x" "getFromCache t k s = (Inr v, s)"
  | v x where "gw_cache s k = Some (v, x)" "x < t" "getFromCache t k s = (Inr JNull, s\<lparr>gw_cache := (gw_cache s)(k := None)\<rparr>)"
  by (cases "gw_cache s k"; cases "t \<le> snd (the (gw_cache s k))") (auto simp: getFromCache_def)

lemma idem_ok_forget: "idem_ok s \<Longrightarrow> idem_ok (s\<lparr>gw_cache := (gw_cache s)(k := None)\<rparr>)"
  by (simp add: idem_ok_def)

lemma idem_ok_remember:
  assumes "idem_ok s" and "find_first (\<lambda>r. ir_key r = k) (gw_rows s) = Some r" and "ir_status r = completed"
  shows "idem_ok (s\<lparr>gw_cache := (gw_cache s)(k \<mapsto> (nullish (ir_responseBody r) JNull, x))\<rparr>)"
  using assms(1,3) find_first_SomeD [OF assms(2)] by (auto simp: idem_ok_def)

lemma getFromCache_keeps: "preserves idem_ok (getFromCache t k)"
proof
  fix s :: "'a gw"
  assume ok: "idem_ok s"
  show "idem_ok (snd (getFromCache t k s))"
    by (cases rule: getFromCache_cases [of s k t]) (use ok in \<open>simp_all add: idem_ok_forget\<close>)
qed

text \<open>Changing a row that is not completed, by its key: the cache still agrees.\<close>

lemma record_update_ok:
  assumes "idem_ok s" and r: "find_first (\<lambda>r. ir_key r = k) (gw_rows s) = Some r" and "ir_status r \<noteq> completed"
    and f: "\<And>r. ir_id (f r) = ir_id r" "\<And>r. ir_key (f r) = ir_key r"
  obtains s' where "record_update (ir_id r) f s = (Inr (), s')" "idem_ok s'"
    "find_first (\<lambda>r. ir_key r = k) (gw_rows s') = Some (f r)"
    "gw_world s' = gw_world s" "gw_cache s' = gw_cache s" "gw_out s' = gw_out s" "gw_draws s' = gw_draws s"
proof -
  let ?rows = "update_where (\<lambda>x. ir_id x = ir_id r) f (gw_rows s)"
  have mem: "r \<in> set (gw_rows s)" using find_first_SomeD [OF r] by simp
  have ids: "map ir_id ?rows = map ir_id (gw_rows s)" and keys: "map ir_key ?rows = map ir_key (gw_rows s)"
    by (simp_all add: map_update_where f)
  have "x \<in> set ?rows" if "x \<in> set (gw_rows s)" "ir_status x = completed" for x
  proof -
    have "ir_id x \<noteq> ir_id r"
      using unique_key_eq [of ir_id "gw_rows s" x r] assms(1,3) mem that unfolding idem_ok_def by blast
    with that(1) show ?thesis by (force simp: set_update_where)
  qed
  moreover have "\<forall>x\<in>set ?rows. ir_id x \<noteq> []"
    using assms(1) by (auto simp: idem_ok_def set_update_where f)
  ultimately have "idem_ok (s\<lparr>gw_rows := ?rows\<rparr>)"
    using assms(1) unfolding idem_ok_def by (simp add: ids keys) blast
  moreover have "find_first (\<lambda>r. ir_key r = k) ?rows = Some (f r)"
    by (simp add: find_first_update_where f r)
  ultimately show ?thesis
    using mem by (intro that [of "s\<lparr>gw_rows := ?rows\<rparr>"]) (auto simp: record_update_def bind_run)
qed

section \<open>What a check does\<close>

abbreviation req_hash :: "gw_env \<Rightarrow> IdempotencyRequest \<Rightarrow> string" where
  "req_hash E req \<equiv> computeRequestHash E (iq_method req) (iq_path req) (iq_body req)"

text \<open>The caller holds the row of the key while it executes.\<close>

definition holds :: "string \<Rightarrow> string \<Rightarrow> string \<Rightarrow> 'w gw \<Rightarrow> bool" where
  "holds k h i s \<longleftrightarrow> (\<exists>r. find_first (\<lambda>r. ir_key r = k) (gw_rows s) = Some r \<and> ir_id r = i
     \<and> ir_requestHash r = h \<and> ir_status r = processing)"

lemma check_answered:
  assumes "idem_ok s" and "iq_key req \<noteq> []" and "answered (iq_key req) (req_hash E req) d s"
  obtains i s' where "checkIdempotency E t req s = (Inr (i, False, Some d), s')" "idem_ok s'"
    "gw_rows s' = gw_rows s" "gw_world s' = gw_world s" "gw_out s' = gw_out s"
proof -
  note result = that
  let ?k = "iq_key req"
  from assms(3) obtain r where r: "find_first (\<lambda>r. ir_key r = ?k) (gw_rows s) = Some r"
    "ir_requestHash r = req_hash E req" "ir_status r = completed" "nullish (ir_responseBody r) JNull = d"
    unfolding answered_def by blast
  have hit: thesis if live: "getFromCache t ?k s = (Inr v, s)" and "v \<noteq> JNull" and c: "gw_cache s ?k = Some (v, x)" for v x
  proof -
    have "v = d" by (rule cached_row [OF assms(1) c]) (use r in simp)
    with live \<open>v \<noteq> JNull\<close> show thesis
      by (intro result [of "[]" s]) (simp_all add: checkIdempotency_def assms(1,2) bind_run)
  qed
  have miss: thesis if "getFromCache t ?k s = (Inr JNull, u)" and "idem_ok u" and "gw_rows u = gw_rows s"
      and "gw_world u = gw_world s" "gw_out u = gw_out s" for u
  proof (rule result)
    show "checkIdempotency E t req s = (Inr (ir_id r, False, Some d), u\<lparr>gw_cache := (gw_cache u)(?k \<mapsto> (d, t + 5 * 60 * 1000))\<rparr>)"
      using that(1,3) r assms(2)
      by (simp add: checkIdempotency_def check_record_def decide_def Let_def bind_run andthen_run setCache_def)
    show "idem_ok (u\<lparr>gw_cache := (gw_cache u)(?k \<mapsto> (d, t + 5 * 60 * 1000))\<rparr>)"
      using idem_ok_remember [OF that(2), of ?k r] that(3) r by simp
  qed (use that in simp_all)
  show thesis
  proof (cases rule: getFromCache_cases [of s ?k t])
    case 1
    then show thesis using miss [of s] assms(1) by simp
  next
    case (2 v x)
    then show thesis using hit [of v x] miss [of s] assms(1) by (cases "v = JNull") simp_all
  next
    case (3 v x)
    then show thesis using miss [OF _ idem_ok_forget [OF assms(1)]] by simp
  qed
qed

lemma check_record_found:
  assumes "find_first (\<lambda>r. ir_key r = iq_key req) (gw_rows s) = Some r"
  shows "ir_requestHash r \<noteq> req_hash E req \<Longrightarrow> check_record E t req s = (Inl different_request, s)"
    and "ir_requestHash r = req_hash E req \<Longrightarrow> ir_status r = processing \<Longrightarrow> check_record E t req s = (Inl still_processing, s)"
  using assms by (simp_all add: check_record_def decide_def Let_def bind_run)

lemma check_record_new:
  assumes "\<forall>r\<in>set (gw_rows s). ir_key r \<noteq> iq_key req"
  shows "check_record E t req s = (let i = ge_uuid E (gw_draws s); u = s\<lparr>gw_draws := gw_draws s + 1\<rparr> in
    if \<exists>r\<in>set (gw_rows s). ir_id r = i then (Inl (PrismaErr ''P2002'' ''Unique constraint failed''), u)
    else (Inr (i, True, None), u\<lparr>gw_rows := gw_rows s @ [\<lparr>ir_id = i, ir_key = iq_key req, ir_requestHash = req_hash E req,
      ir_status = processing, ir_responseStatus = None, ir_responseBody = None, ir_expiresAt = t + day\<rparr>]\<rparr>))"
  using assms by (auto simp: check_record_def decide_def Let_def bind_run andthen_run record_create_def find_first_none)

text \<open>When the caller is told to execute, it holds the row; otherwise nothing but the cache changed.\<close>

lemma check_record_execute:
  assumes "idem_ok s" and "uuids_ok E" and "check_record E t req s = (Inr (i, True, c), s')"
  shows "idem_ok s' \<and> holds (iq_key req) (req_hash E req) i s' \<and> i \<noteq> [] \<and> gw_world s' = gw_world s"
proof (cases "find_first (\<lambda>r. ir_key r = iq_key req) (gw_rows s)")
  case None
  let ?row = "\<lparr>ir_id = ge_uuid E (gw_draws s), ir_key = iq_key req, ir_requestHash = req_hash E req,
    ir_status = processing, ir_responseStatus = None, ir_responseBody = None, ir_expiresAt = t + day\<rparr>"
  have new: "\<forall>r\<in>set (gw_rows s). ir_key r \<noteq> iq_key req" using None by simp
  from assms(3) have s': "s' = s\<lparr>gw_draws := Suc (gw_draws s), gw_rows := gw_rows s @ [?row]\<rparr>"
    and i: "i = ge_uuid E (gw_draws s)" and fresh: "\<forall>r\<in>set (gw_rows s). ir_id r \<noteq> i"
    by (auto simp: check_record_new [OF new] Let_def split: if_splits)
  have "idem_ok s'"
    using assms(1,2) new fresh unfolding idem_ok_def uuids_ok_def by (auto simp: s' i)
  then show ?thesis
    using new assms(2) by (simp add: holds_def s' i find_first_last uuids_ok_def)
next
  case (Some r)
  let ?f = "\<lambda>r. r\<lparr>ir_status := processing, ir_responseStatus := None, ir_expiresAt := t + day\<rparr>"
  from assms(3) Some have h: "ir_requestHash r = req_hash E req" and st: "ir_status r = failed"
    by (auto simp: check_record_def decide_def Let_def bind_run andthen_run setCache_def
        split: if_splits IdempotencyStatus.splits prod.splits sum.splits)
  obtain u where u: "record_update (ir_id r) ?f s = (Inr (), u)" "idem_ok u"
    "find_first (\<lambda>r. ir_key r = iq_key req) (gw_rows u) = Some (?f r)" "gw_world u = gw_world s"
    by (rule record_update_ok [OF assms(1) Some, of ?f]) (simp_all add: st)
  have "i = ir_id r" "s' = u"
    using assms(3) Some h st u(1) by (simp_all add: check_record_def decide_def Let_def bind_run andthen_run)
  then show ?thesis
    using u h find_first_SomeD [OF Some] assms(1) by (auto simp: holds_def idem_ok_def)
qed

lemma check_record_stop:
  assumes "idem_ok s" and "check_record E t req s = (x, s')" and "\<And>i c. x \<noteq> Inr (i, True, c)"
  shows "idem_ok s' \<and> gw_rows s' = gw_rows s \<and> gw_world s' = gw_world s"
proof (cases "find_first (\<lambda>r. ir_key r = iq_key req) (gw_rows s)")
  case None
  then have "\<forall>r\<in>set (gw_rows s). ir_key r \<noteq> iq_key req" by simp
  then show ?thesis
    using assms by (auto simp: check_record_new Let_def idem_ok_def split: if_splits)
next
  case (Some r)
  consider "ir_requestHash r \<noteq> req_hash E req \<or> ir_status r = processing"
    | "ir_requestHash r = req_hash E req" "ir_status r = completed"
    | "ir_requestHash r = req_hash E req" "ir_status r = failed"
    by (cases "ir_status r") auto
  then show ?thesis
  proof cases
    case 1
    then show ?thesis using assms(1,2) Some by (auto simp: check_record_def decide_def Let_def bind_run split: if_splits)
  next
    case 2
    then show ?thesis
      using assms(2) Some idem_ok_remember [OF assms(1) Some]
      by (auto simp: check_record_def decide_def Let_def bind_run andthen_run setCache_def)
  next
    case 3
    obtain u where u: "record_update (ir_id r) (\<lambda>r. r\<lparr>ir_status := processing, ir_responseStatus := None,
        ir_expiresAt := t + day\<rparr>) s = (Inr (), u)"
      by (rule record_update_ok [OF assms(1) Some, of "\<lambda>r. r\<lparr>ir_status := processing, ir_responseStatus := None,
        ir_expiresAt := t + day\<rparr>"]) (simp_all add: 3)
    then show ?thesis using assms(2,3) Some 3 by (auto simp: check_record_def decide_def Let_def bind_run andthen_run)
  qed
qed

lemma getFromCache_frame:
  assumes "idem_ok s"
  obtains v u where "getFromCache t k s = (Inr v, u)" "idem_ok u" "gw_rows u = gw_rows s" "gw_world u = gw_world s"
  by (cases rule: getFromCache_cases [of s k t]) (use assms idem_ok_forget [OF assms, of k] in \<open>auto intro: that\<close>)

lemma checkIdempotency_eq:
  assumes "iq_key req \<noteq> []" and "getFromCache t (iq_key req) s = (Inr v, u)"
  shows "checkIdempotency E t req s = (if v \<noteq> JNull then (Inr ([], False, Some v), u) else check_record E t req u)"
  using assms by (simp add: checkIdempotency_def bind_run)

lemma check_execute:
  assumes "idem_ok s" and "uuids_ok E" and "iq_key req \<noteq> []" and run: "checkIdempotency E t req s = (Inr (i, True, c), s')"
  shows "idem_ok s' \<and> holds (iq_key req) (req_hash E req) i s' \<and> i \<noteq> [] \<and> gw_world s' = gw_world s"
proof (rule getFromCache_frame [OF assms(1), of t "iq_key req"])
  fix v u
  assume u: "getFromCache t (iq_key req) s = (Inr v, u)" "idem_ok u" "gw_world u = gw_world s"
  from run have "check_record E t req u = (Inr (i, True, c), s')"
    unfolding checkIdempotency_eq [OF assms(3) u(1)] by (cases "v = JNull") simp_all
  from check_record_execute [OF u(2) assms(2) this] u(3) show ?thesis by simp
qed

lemma check_stop:
  assumes "idem_ok s" and "iq_key req \<noteq> []" and run: "checkIdempotency E t req s = (x, s')"
    and "\<And>i c. x \<noteq> Inr (i, True, c)"
  shows "idem_ok s' \<and> gw_rows s' = gw_rows s \<and> gw_world s' = gw_world s"
proof (rule getFromCache_frame [OF assms(1), of t "iq_key req"])
  fix v u
  assume u: "getFromCache t (iq_key req) s = (Inr v, u)" "idem_ok u" "gw_rows u = gw_rows s" "gw_world u = gw_world s"
  show ?thesis
  proof (cases "v = JNull")
    case True
    with run have "check_record E t req u = (x, s')" unfolding checkIdempotency_eq [OF assms(2) u(1)] by simp
    from check_record_stop [OF u(2) this assms(4)] u(3,4) show ?thesis by simp
  next
    case False
    with run u show ?thesis unfolding checkIdempotency_eq [OF assms(2) u(1)] by simp
  qed
qed

lemma check_record_answer:
  assumes "check_record E t req s = (Inr (i, False, c), s')"
  obtains v r where "c = Some v" "find_first (\<lambda>r. ir_key r = iq_key req) (gw_rows s) = Some r" "ir_status r = completed"
    "nullish (ir_responseBody r) JNull = v"
proof (cases "find_first (\<lambda>r. ir_key r = iq_key req) (gw_rows s)")
  case None
  then have "\<forall>r\<in>set (gw_rows s). ir_key r \<noteq> iq_key req" by simp
  then show ?thesis using assms by (auto simp: check_record_new Let_def split: if_splits)
next
  case (Some r)
  then show ?thesis
    using assms that [of _ r]
    by (cases "ir_status r") (auto simp: check_record_def decide_def Let_def bind_run andthen_run setCache_def
        split: if_splits prod.splits sum.splits)
qed

text \<open>A check that answers from the record or the cache answers what the row of the key holds.\<close>

lemma check_answer:
  assumes "idem_ok s" and "iq_key req \<noteq> []" and run: "checkIdempotency E t req s = (Inr (i, False, c), s')"
  obtains v r where "c = Some v" "find_first (\<lambda>r. ir_key r = iq_key req) (gw_rows s) = Some r" "ir_status r = completed"
    "nullish (ir_responseBody r) JNull = v"
proof (cases rule: getFromCache_cases [of s "iq_key req" t])
  case (2 v x)
  show ?thesis
  proof (cases "v = JNull")
    case False
    then have "c = Some v" using run by (simp add: checkIdempotency_eq [OF assms(2) 2(3)])
    then show ?thesis by (rule_tac cached_row [OF assms(1) 2(1)]) (rule that)
  next
    case True
    then have "check_record E t req s = (Inr (i, False, c), s')" using run by (simp add: checkIdempotency_eq [OF assms(2) 2(3)])
    then show ?thesis by (rule check_record_answer) (rule that)
  qed
next
  case 1
  then have "check_record E t req s = (Inr (i, False, c), s')" using run by (simp add: checkIdempotency_eq [OF assms(2) 1(2)])
  then show ?thesis by (rule check_record_answer) (rule that)
next
  case (3 v x)
  then have "check_record E t req (s\<lparr>gw_cache := (gw_cache s)(iq_key req := None)\<rparr>) = (Inr (i, False, c), s')"
    using run by (simp add: checkIdempotency_eq [OF assms(2) 3(3)])
  then show ?thesis by (rule check_record_answer) (rule that, simp_all)
qed

text \<open>The end of an execution: the row of the key is completed, or failed.\<close>

lemma complete_held:
  assumes "idem_ok s" and "holds k h i s" and "i \<noteq> []"
  obtains s' r where "markCompleted i st d s = (Inr (), s')" "idem_ok s'" "gw_world s' = gw_world s"
    "find_first (\<lambda>r. ir_key r = k) (gw_rows s') = Some r" "ir_requestHash r = h" "ir_status r = completed"
    "ir_responseBody r = Some d"
proof -
  note result = that
  from assms(2) obtain r where r: "find_first (\<lambda>r. ir_key r = k) (gw_rows s) = Some r" "ir_id r = i"
    "ir_requestHash r = h" "ir_status r = processing"
    unfolding holds_def by blast
  show thesis
    by (rule record_update_ok [OF assms(1) r(1), of "\<lambda>r. r\<lparr>ir_status := completed, ir_responseStatus := Some st, ir_responseBody := Some d\<rparr>"])
      (use r assms(3) in \<open>auto simp: markCompleted_def intro!: result\<close>)
qed

lemma fail_held:
  assumes "idem_ok s" and "find_first (\<lambda>r. ir_key r = k) (gw_rows s) = Some r" "ir_status r \<noteq> completed" "ir_id r \<noteq> []"
  obtains s' r' where "markFailed (ir_id r) st d s = (Inr (), s')" "idem_ok s'" "gw_world s' = gw_world s"
    "find_first (\<lambda>r. ir_key r = k) (gw_rows s') = Some r'" "ir_id r' = ir_id r" "ir_requestHash r' = ir_requestHash r"
    "ir_status r' = failed" "ir_responseStatus r' = Some st"
proof -
  note result = that
  show thesis
    by (rule record_update_ok [OF assms(1,2,3), of "\<lambda>r. r\<lparr>ir_status := failed, ir_responseStatus := Some st,
        ir_responseBody := Some (if json_truthy d then d else JObj [(''error'', JStr ''Internal server error'')])\<rparr>"])
      (use assms(4) in \<open>auto simp: markFailed_def intro!: result\<close>)
qed

text \<open>A failed record is taken over.\<close>

lemma check_failed:
  assumes "idem_ok s" and "iq_key req \<noteq> []"
    and r: "\<exists>r. find_first (\<lambda>r. ir_key r = iq_key req) (gw_rows s) = Some r \<and> ir_requestHash r = req_hash E req \<and> ir_status r = failed"
  obtains i c s' where "checkIdempotency E t req s = (Inr (i, True, c), s')"
proof -
  note result = that
  from r obtain r where r: "find_first (\<lambda>r. ir_key r = iq_key req) (gw_rows s) = Some r" "ir_requestHash r = req_hash E req"
    "ir_status r = failed" by blast
  have "gw_cache s (iq_key req) = None"
    by (rule not_cached [OF assms(1)]) (use r in auto)
  moreover have "\<exists>u. record_update (ir_id r) (\<lambda>r. r\<lparr>ir_status := processing, ir_responseStatus := None, ir_expiresAt := t + day\<rparr>) s
      = (Inr (), u)"
    by (rule record_update_ok [OF assms(1) r(1), of "\<lambda>r. r\<lparr>ir_status := processing, ir_responseStatus := None,
        ir_expiresAt := t + day\<rparr>"]) (simp_all add: r(3))
  ultimately show thesis
    using r assms(2) by (auto simp: checkIdempotency_def check_record_def decide_def Let_def getFromCache_def bind_run andthen_run intro: result)
qed

end
