(* ===== verification/AuthClient.thy ===== *)
theory AuthClient
  imports Idempotency
begin

text \<open>
  The gateway's clients of the auth service: \<open>auth-client.service.ts\<close> with the idempotent
  registration, \<open>role-client.service.ts\<close>, and \<open>internal-jwt.service.ts\<close>, which signs the token
  the gateway uses when a call carries none of the user's.
\<close>

section \<open>Headers\<close>

definition gatewayToken :: "gw_env \<Rightarrow> string" where
  "gatewayToken E = signInternalToken (ge_jwtSign E) (ge_secret E) (ge_issuer E) (ge_audience E) (JObj [])"

definition auth_getHeaders :: "gw_env \<Rightarrow> string \<Rightarrow> string option \<Rightarrow> (string \<times> string) list" where
  "auth_getHeaders E requestId token = [(''x-request-id'', requestId), (''Authorization'',
     if truthy token then nullish token [] else ''Bearer '' @ gatewayToken E)]"

definition role_getHeaders :: "gw_env \<Rightarrow> string \<Rightarrow> string option \<Rightarrow> (string \<times> string) list" where
  "role_getHeaders E requestId authToken =
     (if truthy authToken then [(''Authorization'', nullish authToken []), (''x-request-id'', requestId)]
      else [(''Authorization'', ''Bearer '' @ gatewayToken E), (''x-request-id'', requestId)])"

definition cookie_header :: "string \<Rightarrow> string \<Rightarrow> string \<times> string" where
  "cookie_header refreshToken deviceId = (''Cookie'', ''refreshToken='' @ refreshToken @ ''; deviceId='' @ deviceId)"

definition simple_call :: "string \<Rightarrow> string \<Rightarrow> (string \<times> string) list \<Rightarrow> json option \<Rightarrow> http_call" where
  "simple_call m path headers body = \<lparr>hc_method = m, hc_path = path, hc_headers = headers, hc_params = [], hc_body = body\<rparr>"

text \<open>The network, on the state of the gateway.\<close>

definition via :: "'w network \<Rightarrow> http_call \<Rightarrow> ('w, response) gwp" where
  "via net call = (\<lambda>s. let (r, w) = net call (gw_world s) in (r, s\<lparr>gw_world := w\<rparr>))"

definition emit :: "gw_effect \<Rightarrow> ('w, unit) gwp" where
  "emit e = modify (\<lambda>s. s\<lparr>gw_out := gw_out s @ [e]\<rparr>)"

text \<open>\<open>clientRes\<close> says whether the response of the client was passed in.\<close>

definition forwardSetCookie :: "response \<Rightarrow> ('w, unit) gwp" where
  "forwardSetCookie r = for_each (rs_setCookie r) (\<lambda>c. emit (AppendCookie c))"

definition auth_failed :: string where "auth_failed = ''Auth service request failed''"

section \<open>Sessions\<close>

definition getProfileByUserId :: "gw_env \<Rightarrow> 'w network \<Rightarrow> string \<Rightarrow> string option \<Rightarrow> ('w, json) gwp" where
  "getProfileByUserId E net requestId token =
     checked_call (via net) auth_failed (simple_call ''GET'' ''auth/internal/me'' (auth_getHeaders E requestId token) None)"

definition client_login :: "gw_env \<Rightarrow> 'w network \<Rightarrow> json \<Rightarrow> string \<Rightarrow> bool \<Rightarrow> ('w, json) gwp" where
  "client_login E net loginDto requestId clientRes = guarded auth_failed
     (bind (via net (simple_call ''POST'' ''auth/internal/login'' (auth_getHeaders E requestId None) (Some loginDto))) (\<lambda>r.
       andthen (check_status auth_failed r)
      (andthen (whenp clientRes (forwardSetCookie r))
        (ret (rs_data r)))))"

definition client_refresh :: "gw_env \<Rightarrow> 'w network \<Rightarrow> string \<Rightarrow> string \<Rightarrow> string \<Rightarrow> bool \<Rightarrow> ('w, json) gwp" where
  "client_refresh E net refreshToken deviceId requestId clientRes = guarded auth_failed
     (bind (via net (simple_call ''POST'' ''auth/internal/refresh''
         (auth_getHeaders E requestId None @ [cookie_header refreshToken deviceId]) (Some (JObj [])))) (\<lambda>r.
       andthen (check_status auth_failed r)
      (andthen (whenp clientRes (forwardSetCookie r))
        (ret (rs_data r)))))"

definition clear_cookies :: "('w, unit) gwp" where
  "clear_cookies = andthen (emit (ClearedCookie ''refreshToken'')) (emit (ClearedCookie ''deviceId''))"

definition logout_result :: "response \<Rightarrow> json" where
  "logout_result r = (if rs_data r = JNull then JStr ''logout success'' else rs_data r)"

definition client_logoutDevice ::
  "gw_env \<Rightarrow> 'w network \<Rightarrow> string \<Rightarrow> string \<Rightarrow> string \<Rightarrow> bool \<Rightarrow> string option \<Rightarrow> ('w, json) gwp" where
  "client_logoutDevice E net deviceId refreshToken requestId clientRes token = guarded auth_failed
     (bind (via net (simple_call ''POST'' ''auth/internal/logout-device''
         (auth_getHeaders E requestId token @ [cookie_header refreshToken deviceId]) (Some (JObj [])))) (\<lambda>r.
       andthen (check_status auth_failed r)
      (andthen (whenp clientRes clear_cookies)
        (ret (logout_result r)))))"

definition client_logoutAll :: "gw_env \<Rightarrow> 'w network \<Rightarrow> string \<Rightarrow> bool \<Rightarrow> string option \<Rightarrow> ('w, json) gwp" where
  "client_logoutAll E net requestId clientRes token = guarded auth_failed
     (bind (via net (simple_call ''POST'' ''auth/internal/logout-all'' (auth_getHeaders E requestId token) (Some (JObj [])))) (\<lambda>r.
       andthen (check_status auth_failed r)
      (andthen (whenp clientRes clear_cookies)
        (ret (logout_result r)))))"

section \<open>Accounts\<close>

definition auth_post :: "gw_env \<Rightarrow> 'w network \<Rightarrow> string \<Rightarrow> string \<Rightarrow> json \<Rightarrow> ('w, json) gwp" where
  "auth_post E net path requestId body =
     checked_call (via net) auth_failed (simple_call ''POST'' path (auth_getHeaders E requestId None) (Some body))"

definition client_verify :: "gw_env \<Rightarrow> 'w network \<Rightarrow> json \<Rightarrow> string \<Rightarrow> ('w, json) gwp" where
  "client_verify E net verifyDto requestId = auth_post E net ''auth/internal/register/verify'' requestId verifyDto"

definition client_confirm :: "gw_env \<Rightarrow> 'w network \<Rightarrow> json \<Rightarrow> string \<Rightarrow> ('w, json) gwp" where
  "client_confirm E net confirmDto requestId = client_verify E net confirmDto requestId"

definition client_resendCode :: "gw_env \<Rightarrow> 'w network \<Rightarrow> string \<Rightarrow> string \<Rightarrow> ('w, json) gwp" where
  "client_resendCode E net email requestId =
     auth_post E net ''auth/internal/resend-code'' requestId (JObj [(''email'', JStr email)])"

definition client_forgotPassword :: "gw_env \<Rightarrow> 'w network \<Rightarrow> json \<Rightarrow> string \<Rightarrow> ('w, json) gwp" where
  "client_forgotPassword E net dto requestId = auth_post E net ''auth/internal/forgot/password'' requestId dto"

definition client_forgotPasswordVerify :: "gw_env \<Rightarrow> 'w network \<Rightarrow> json \<Rightarrow> string \<Rightarrow> ('w, json) gwp" where
  "client_forgotPasswordVerify E net dto requestId = auth_post E net ''auth/internal/forgot/password/verify'' requestId dto"

definition client_forgotPasswordReset :: "gw_env \<Rightarrow> 'w network \<Rightarrow> json \<Rightarrow> string \<Rightarrow> ('w, json) gwp" where
  "client_forgotPasswordReset E net dto requestId = auth_post E net ''auth/internal/forgot/password/reset'' requestId dto"

section \<open>Registration\<close>

definition register_failed :: string where "register_failed = ''Register request failed''"

definition err_text :: "exn \<Rightarrow> string" where
  "err_text e = (case e of NonErr j \<Rightarrow> to_str j | _ \<Rightarrow> nullish (err_message e) ''[object Object]'')"

definition failure_details :: "exn \<Rightarrow> json" where
  "failure_details e = JObj [(''error'', JStr ''Internal server error''), (''details'', JStr (err_text e))]"

text \<open>
  What follows the check, with the record the caller holds (the empty string: none); the
  response arrives at \<open>t'\<close>.
\<close>

definition register_execute ::
  "gw_env \<Rightarrow> 'w network \<Rightarrow> int \<Rightarrow> json \<Rightarrow> string \<Rightarrow> string option \<Rightarrow> string \<Rightarrow> ('w, json) gwp" where
  "register_execute E net t' registerDto requestId idempotencyKey recordId =
     bind (via net (simple_call ''POST'' ''auth/internal/register'' (auth_getHeaders E requestId None) (Some registerDto))) (\<lambda>r.
       andthen
        (if 400 \<le> rs_status r
         then andthen (whenp (recordId \<noteq> []) (markFailed recordId (rs_status r) (rs_data r))) (check_status auth_failed r)
         else ret ())
      (andthen
        (whenp (recordId \<noteq> [])
          (andthen (markCompleted recordId (rs_status r) (rs_data r)) (cacheResponse t' (nullish idempotencyKey []) (rs_data r))))
        (ret (rs_data r))))"

definition register_request :: "json \<Rightarrow> string \<Rightarrow> string option \<Rightarrow> IdempotencyRequest" where
  "register_request registerDto requestPath idempotencyKey = \<lparr>iq_method = ''POST'',
     iq_path = (if requestPath = [] then ''/client/auth/register'' else requestPath),
     iq_body = registerDto, iq_key = nullish idempotencyKey []\<rparr>"

definition client_register ::
  "gw_env \<Rightarrow> 'w network \<Rightarrow> int \<Rightarrow> int \<Rightarrow> json \<Rightarrow> string \<Rightarrow> string \<Rightarrow> string option \<Rightarrow> ('w, json) gwp" where
  "client_register E net t t' registerDto requestId requestPath idempotencyKey =
     bind (guarded register_failed (checkIdempotency E t (register_request registerDto requestPath idempotencyKey)))
       (\<lambda>(recordId, shouldExecute, cachedResponse).
          if \<not> shouldExecute \<and> cachedResponse \<noteq> None then ret (nullish cachedResponse JNull)
          else catchp (register_execute E net t' registerDto requestId idempotencyKey recordId)
            (\<lambda>err. andthen (whenp (recordId \<noteq> []) (markFailed recordId 500 (failure_details err)))
                     (throw (handleAxiosError err register_failed))))"

section \<open>Roles\<close>

definition role_call :: "gw_env \<Rightarrow> 'w network \<Rightarrow> string \<Rightarrow> string \<Rightarrow> string \<Rightarrow> string option \<Rightarrow> json option \<Rightarrow> ('w, json) gwp" where
  "role_call E net m path requestId authToken body =
     checked_call (via net) auth_failed (simple_call m path (role_getHeaders E requestId authToken) body)"

definition role_create :: "gw_env \<Rightarrow> 'w network \<Rightarrow> json \<Rightarrow> string \<Rightarrow> string option \<Rightarrow> ('w, json) gwp" where
  "role_create E net dto requestId authToken = role_call E net ''POST'' ''roles'' requestId authToken (Some dto)"

definition role_findAll :: "gw_env \<Rightarrow> 'w network \<Rightarrow> string \<Rightarrow> string option \<Rightarrow> ('w, json) gwp" where
  "role_findAll E net requestId authToken = role_call E net ''GET'' ''roles'' requestId authToken None"

definition role_findOne :: "gw_env \<Rightarrow> 'w network \<Rightarrow> string \<Rightarrow> string \<Rightarrow> string option \<Rightarrow> ('w, json) gwp" where
  "role_findOne E net i requestId authToken = role_call E net ''GET'' (''roles/'' @ i) requestId authToken None"

definition role_update :: "gw_env \<Rightarrow> 'w network \<Rightarrow> string \<Rightarrow> json \<Rightarrow> string \<Rightarrow> string option \<Rightarrow> ('w, json) gwp" where
  "role_update E net i dto requestId authToken = role_call E net ''PATCH'' (''roles/'' @ i) requestId authToken (Some dto)"

definition role_remove :: "gw_env \<Rightarrow> 'w network \<Rightarrow> string \<Rightarrow> string \<Rightarrow> string option \<Rightarrow> ('w, json) gwp" where
  "role_remove E net i requestId authToken = role_call E net ''DELETE'' (''roles/'' @ i) requestId authToken None"

definition role_getRolesForUser :: "gw_env \<Rightarrow> 'w network \<Rightarrow> string \<Rightarrow> string \<Rightarrow> string option \<Rightarrow> ('w, json) gwp" where
  "role_getRolesForUser E net userId requestId authToken =
     role_call E net ''GET'' (''roles/users/'' @ userId @ ''/roles'') requestId authToken None"

definition role_getPermissionsForUser :: "gw_env \<Rightarrow> 'w network \<Rightarrow> string \<Rightarrow> string \<Rightarrow> string option \<Rightarrow> ('w, json) gwp" where
  "role_getPermissionsForUser E net userId requestId authToken =
     role_call E net ''GET'' (''roles/users/'' @ userId @ ''/permissions'') requestId authToken None"

definition role_assign :: "gw_env \<Rightarrow> 'w network \<Rightarrow> json \<Rightarrow> string \<Rightarrow> string option \<Rightarrow> ('w, json) gwp" where
  "role_assign E net dto requestId authToken = role_call E net ''POST'' ''roles/assign-role'' requestId authToken (Some dto)"

definition role_unassign :: "gw_env \<Rightarrow> 'w network \<Rightarrow> json \<Rightarrow> string \<Rightarrow> string option \<Rightarrow> ('w, json) gwp" where
  "role_unassign E net dto requestId authToken = role_call E net ''POST'' ''roles/unassign-role'' requestId authToken (Some dto)"

section \<open>An execution\<close>

lemma via_run [simp]: "via net call s = (fst (net call (gw_world s)), s\<lparr>gw_world := snd (net call (gw_world s))\<rparr>)"
  by (simp add: via_def split: prod.split)

lemma world_frame [simp]: "idem_ok (s\<lparr>gw_world := w\<rparr>) = idem_ok s" "holds k h i (s\<lparr>gw_world := w\<rparr>) = holds k h i s"
  "answered k h d (s\<lparr>gw_world := w\<rparr>) = answered k h d s"
  by (simp_all add: idem_ok_def holds_def answered_def)

abbreviation register_call :: "gw_env \<Rightarrow> string \<Rightarrow> json \<Rightarrow> http_call" where
  "register_call E requestId dto \<equiv>
     simple_call ''POST'' ''auth/internal/register'' (auth_getHeaders E requestId None) (Some dto)"

definition failed_row :: "string \<Rightarrow> string \<Rightarrow> 'w gw \<Rightarrow> bool" where
  "failed_row k h s \<longleftrightarrow> (\<exists>r. find_first (\<lambda>r. ir_key r = k) (gw_rows s) = Some r \<and> ir_requestHash r = h
     \<and> ir_status r = failed \<and> ir_responseStatus r = Some 500)"

abbreviation on_failure :: "string \<Rightarrow> exn \<Rightarrow> ('w, json) gwp" where
  "on_failure i err \<equiv> andthen (whenp (i \<noteq> []) (markFailed i 500 (failure_details err)))
     (throw (handleAxiosError err register_failed))"

lemma on_failure_run:
  assumes "idem_ok s" and "find_first (\<lambda>r. ir_key r = k) (gw_rows s) = Some r" "ir_status r \<noteq> completed" "ir_id r \<noteq> []"
  obtains s' where "on_failure (ir_id r) err s = (Inl (handleAxiosError err register_failed), s')" "idem_ok s'"
    "failed_row k (ir_requestHash r) s'" "gw_world s' = gw_world s"
  by (rule fail_held [OF assms, of 500 "failure_details err"])
    (use assms(4) in \<open>auto simp: andthen_run failed_row_def intro: that\<close>)

lemma execute_success:
  assumes "idem_ok s" and "holds k h i s" and "i \<noteq> []" and "k = nullish key []" and "k \<noteq> []"
    and net: "net (register_call E requestId dto) (gw_world s) = (Inr r, w)" and "rs_status r < 400"
  obtains s' where "catchp (register_execute E net t' dto requestId key i) (on_failure i) s = (Inr (rs_data r), s')"
    "idem_ok s'" "answered k h (rs_data r) s'" "gw_world s' = w"
proof -
  note result = that
  obtain u q where u: "markCompleted i (rs_status r) (rs_data r) (s\<lparr>gw_world := w\<rparr>) = (Inr (), u)" "idem_ok u" "gw_world u = w"
    and q: "find_first (\<lambda>r. ir_key r = k) (gw_rows u) = Some q" "ir_requestHash q = h" "ir_status q = completed"
      "ir_responseBody q = Some (rs_data r)"
    by (rule complete_held [of "s\<lparr>gw_world := w\<rparr>" k h i "rs_status r" "rs_data r"]) (use assms(1-3) in auto)
  let ?s' = "u\<lparr>gw_cache := (gw_cache u)(k \<mapsto> (rs_data r, t' + 5 * 60 * 1000))\<rparr>"
  have "catchp (register_execute E net t' dto requestId key i) (on_failure i) s = (Inr (rs_data r), ?s')"
    using assms(3-5,7) u(1)
    by (simp add: register_execute_def catchp_run bind_run andthen_run net cacheResponse_def setCache_def)
  then show thesis
    by (rule result) (use u(3) q idem_ok_remember [OF u(2) q(1,3)] in \<open>simp_all add: answered_def\<close>)
qed

lemma execute_failure:
  assumes "idem_ok s" and "holds k h i s" and "i \<noteq> []"
    and "(net (register_call E requestId dto) (gw_world s) = (Inl e, w) \<and> err = handleAxiosError e register_failed)
      \<or> (net (register_call E requestId dto) (gw_world s) = (Inr r, w) \<and> 400 \<le> rs_status r
         \<and> err = handleAxiosError (AxiosLike (Some (rs_status r)) (Some (rs_data r)) None) auth_failed)"
  obtains s' where "catchp (register_execute E net t' dto requestId key i) (on_failure i) s = (Inl err, s')"
    "idem_ok s'" "failed_row k h s'" "gw_world s' = w"
proof -
  note result = that
  from assms(2) obtain p where p: "find_first (\<lambda>r. ir_key r = k) (gw_rows s) = Some p" "ir_id p = i"
    "ir_requestHash p = h" "ir_status p = processing"
    unfolding holds_def by blast
  let ?w = "s\<lparr>gw_world := w\<rparr>"
  from assms(4) show thesis
  proof (elim disjE conjE)
    assume net: "net (register_call E requestId dto) (gw_world s) = (Inl e, w)" and err: "err = handleAxiosError e register_failed"
    show thesis
      by (rule on_failure_run [of ?w k p e])
        (use assms(1,3) p net err in \<open>auto simp: register_execute_def catchp_run bind_run intro: result\<close>)
  next
    assume net: "net (register_call E requestId dto) (gw_world s) = (Inr r, w)" and st: "400 \<le> rs_status r"
      and err: "err = handleAxiosError (AxiosLike (Some (rs_status r)) (Some (rs_data r)) None) auth_failed"
    obtain u q where u: "markFailed i (rs_status r) (rs_data r) ?w = (Inr (), u)" "idem_ok u" "gw_world u = w"
      and q: "find_first (\<lambda>r. ir_key r = k) (gw_rows u) = Some q" "ir_id q = i" "ir_requestHash q = h" "ir_status q = failed"
      by (rule fail_held [of ?w k p "rs_status r" "rs_data r"]) (use assms(1,3) p in auto)
    show thesis
      by (rule on_failure_run [OF u(2) q(1), of err])
        (use q u st net assms(3) in \<open>auto simp: register_execute_def catchp_run bind_run andthen_run check_status_def err
          handleAxiosError_idem intro: result\<close>)
  qed
qed

section \<open>The contract of the key\<close>

lemma register_run: "client_register E net t t' dto rid path key s =
    (case checkIdempotency E t (register_request dto path key) s of
       (Inl e, u) \<Rightarrow> (Inl (handleAxiosError e register_failed), u)
     | (Inr (i, b, c), u) \<Rightarrow> if \<not> b \<and> c \<noteq> None then (Inr (nullish c JNull), u)
         else catchp (register_execute E net t' dto rid key i) (on_failure i) u)"
  by (auto simp: client_register_def guarded_run bind_run split: prod.splits sum.splits)

text \<open>The hash of a registration.\<close>

abbreviation reg_hash :: "gw_env \<Rightarrow> json \<Rightarrow> string \<Rightarrow> string" where
  "reg_hash E dto path \<equiv> computeRequestHash E ''POST'' (if path = [] then ''/client/auth/register'' else path) dto"

lemma register_success:
  assumes "idem_ok s" and "uuids_ok E" and "k \<noteq> []"
    and run: "client_register E net t t' dto rid path (Some k) s = (Inr d, s')"
  shows "idem_ok s' \<and> (\<exists>h. answered k h d s' \<and>
    (h = reg_hash E dto path \<or> (\<exists>r\<in>set (gw_rows s). ir_key r = k \<and> ir_requestHash r = h)))"
proof -
  let ?req = "register_request dto path (Some k)"
  have req: "iq_key ?req = k" "req_hash E ?req = reg_hash E dto path" by (simp_all add: register_request_def)
  then have k: "iq_key ?req \<noteq> []" using assms(3) by simp
  obtain x u where chk: "checkIdempotency E t ?req s = (x, u)" by fastforce
  obtain i b c where x: "x = Inr (i, b, c)"
    using run by (cases x) (auto simp: register_run chk)
  show ?thesis
  proof (cases b)
    case True
    with chk x have "checkIdempotency E t ?req s = (Inr (i, True, c), u)" by simp
    from check_execute [OF assms(1,2) k this]
    have u: "idem_ok u" "holds k (reg_hash E dto path) i u" "i \<noteq> []" by (simp_all add: req)
    have out: "catchp (register_execute E net t' dto rid (Some k) i) (on_failure i) u = (Inr d, s')"
      using run by (simp add: register_run chk x True)
    consider (ok) r w where "net (register_call E rid dto) (gw_world u) = (Inr r, w)" "rs_status r < 400"
      | (bad) r w where "net (register_call E rid dto) (gw_world u) = (Inr r, w)" "400 \<le> rs_status r"
      | (err) e w where "net (register_call E rid dto) (gw_world u) = (Inl e, w)"
      by (cases "net (register_call E rid dto) (gw_world u)"; cases "fst (net (register_call E rid dto) (gw_world u))")
        (auto simp: not_less intro: leI)
    then show ?thesis
    proof cases
      case ok
      show ?thesis
        by (rule execute_success [where net = net and t' = t' and key = "Some k", OF u _ assms(3) ok]) (use out in auto)
    next
      case bad
      show ?thesis
        by (rule execute_failure [where net = net and t' = t' and requestId = rid and dto = dto and key = "Some k", OF u disjI2])
          (use bad out in auto)
    next
      case err
      show ?thesis
        by (rule execute_failure [where net = net and t' = t' and requestId = rid and dto = dto and key = "Some k", OF u disjI1])
          (use err out in auto)
    qed
  next
    case False
    with chk x have chk': "checkIdempotency E t ?req s = (Inr (i, False, c), u)" by simp
    obtain v r where c: "c = Some v" and r: "find_first (\<lambda>r. ir_key r = k) (gw_rows s) = Some r"
      "ir_status r = completed" "nullish (ir_responseBody r) JNull = v"
      by (rule check_answer [OF assms(1) k chk']) (simp add: req)
    have "idem_ok u" "gw_rows u = gw_rows s" using check_stop [OF assms(1) k chk'] by simp_all
    moreover have "s' = u" "v = d" using run by (simp_all add: register_run chk' c)
    ultimately show ?thesis
      using r find_first_SomeD [OF r(1)] unfolding answered_def by auto
  qed
qed

section \<open>Attempts after the answer\<close>

lemma completed_apart:
  assumes "idem_ok s" and "find_first (\<lambda>x. ir_key x = k) (gw_rows s) = Some r" and "ir_status r = completed"
    and "q \<in> set (gw_rows s)" and "ir_status q \<noteq> completed"
  shows "ir_id q \<noteq> ir_id r"
  using unique_key_eq [of ir_id "gw_rows s" q r] assms find_first_SomeD [OF assms(2)] by (auto simp: idem_ok_def)

lemma record_update_row:
  assumes "ir_id r \<noteq> i" and "\<And>x. ir_key (f x) = ir_key x"
  shows "preserves (\<lambda>s. find_first (\<lambda>x. ir_key x = k) (gw_rows s) = Some r) (record_update i f)"
  using assms by (auto simp: preserves_def record_update_def bind_run find_first_update_where)

lemma check_keeps_completed:
  assumes "idem_ok s" and "find_first (\<lambda>x. ir_key x = k) (gw_rows s) = Some r" and "ir_status r = completed"
  shows "find_first (\<lambda>x. ir_key x = k) (gw_rows (snd (checkIdempotency E t req s))) = Some r"
proof (cases "iq_key req = []")
  case True
  then show ?thesis using assms(2) by (simp add: checkIdempotency_def)
next
  case False
  obtain v u where u: "getFromCache t (iq_key req) s = (Inr v, u)" "idem_ok u" "gw_rows u = gw_rows s"
    by (rule getFromCache_frame [OF assms(1)])
  have r: "find_first (\<lambda>x. ir_key x = k) (gw_rows u) = Some r" using assms(2) u(3) by simp
  have "find_first (\<lambda>x. ir_key x = k) (gw_rows (snd (check_record E t req u))) = Some r"
  proof (cases "find_first (\<lambda>r. ir_key r = iq_key req) (gw_rows u)")
    case None
    then have "\<forall>r\<in>set (gw_rows u). ir_key r \<noteq> iq_key req" by simp
    then show ?thesis using r by (simp add: check_record_new Let_def find_first_append)
  next
    case (Some q)
    show ?thesis
    proof (cases "ir_status q = failed")
      case True
      then have "ir_id r \<noteq> ir_id q"
        using completed_apart [OF u(2) r assms(3), of q] find_first_SomeD [OF Some] by auto
      then have keep: "preserves (\<lambda>s. find_first (\<lambda>x. ir_key x = k) (gw_rows s) = Some r) (record_update (ir_id q)
          (\<lambda>r. r\<lparr>ir_status := processing, ir_responseStatus := None, ir_expiresAt := t + day\<rparr>))"
        by (intro record_update_row) simp_all
      show ?thesis
        using r by (auto simp: check_record_def decide_def Let_def bind_run andthen_run Some True dest: preserves_run [OF keep]
            split: prod.split sum.split)
    next
      case False
      then show ?thesis
        using r by (cases "ir_status q") (auto simp: check_record_def decide_def Let_def bind_run andthen_run setCache_def Some)
    qed
  qed
  then show ?thesis using r unfolding checkIdempotency_eq [OF False u(1)] by simp
qed

lemma execute_keeps_row:
  assumes "ir_id r \<noteq> i"
  shows "preserves (\<lambda>s. find_first (\<lambda>x. ir_key x = k) (gw_rows s) = Some r)
    (catchp (register_execute E net t' dto rid key i) (on_failure i))"
proof -
  have "preserves (\<lambda>s. find_first (\<lambda>x. ir_key x = k) (gw_rows s) = Some r) (markCompleted i st body)"
    "preserves (\<lambda>s. find_first (\<lambda>x. ir_key x = k) (gw_rows s) = Some r) (markFailed i st body)" for st body
    unfolding markCompleted_def markFailed_def by (auto intro!: record_update_row assms)
  moreover have "preserves (\<lambda>s. find_first (\<lambda>x. ir_key x = k) (gw_rows s) = Some r) (via net c)"
    "preserves (\<lambda>s. find_first (\<lambda>x. ir_key x = k) (gw_rows s) = Some r) (cacheResponse t' y d)" for c y d
    by (simp_all add: preserves_def cacheResponse_def setCache_def)
  moreover have "preserves (\<lambda>s. find_first (\<lambda>x. ir_key x = k) (gw_rows s) = Some r) (check_status e st)" for e st
    by (simp add: preserves_def check_status_def)
  ultimately show ?thesis
    unfolding register_execute_def by (intro preserves_intros preserves_ret preserves_throw) (auto intro!: preserves_intros)
qed

lemma execute_keeps_ok:
  assumes "idem_ok s" and "holds k h i s" and "i \<noteq> []" and "k = nullish key []" and "k \<noteq> []"
  shows "idem_ok (snd (catchp (register_execute E net t' dto rid key i) (on_failure i) s))"
proof -
  consider (ok) r w where "net (register_call E rid dto) (gw_world s) = (Inr r, w)" "rs_status r < 400"
    | (bad) r w where "net (register_call E rid dto) (gw_world s) = (Inr r, w)" "400 \<le> rs_status r"
    | (err) e w where "net (register_call E rid dto) (gw_world s) = (Inl e, w)"
    by (cases "net (register_call E rid dto) (gw_world s)"; cases "fst (net (register_call E rid dto) (gw_world s))")
      (auto simp: not_less intro: leI)
  then show ?thesis
  proof cases
    case ok
    show ?thesis by (rule execute_success [where net = net and t' = t' and key = key, OF assms ok]) simp
  next
    case bad
    show ?thesis
      by (rule execute_failure [where net = net and t' = t' and requestId = rid and dto = dto and key = key, OF assms(1-3) disjI2])
        (use bad in auto)
  next
    case err
    show ?thesis
      by (rule execute_failure [where net = net and t' = t' and requestId = rid and dto = dto and key = key, OF assms(1-3) disjI1])
        (use err in auto)
  qed
qed

text \<open>A registration, of whatever kind, made after the key was answered.\<close>

record 'w attempt =
  at_net :: "'w network"
  at_start :: int
  at_end :: int
  at_dto :: json
  at_requestId :: string
  at_path :: string
  at_key :: "string option"

definition attempts :: "gw_env \<Rightarrow> 'w attempt list \<Rightarrow> 'w gw \<Rightarrow> 'w gw" where
  "attempts E as s = fold (\<lambda>a s. snd (client_register E (at_net a) (at_start a) (at_end a) (at_dto a) (at_requestId a) (at_path a)
     (at_key a) s)) as s"

lemma attempt_keeps_answer:
  assumes "idem_ok s" and "uuids_ok E" and "answered k h d s"
  shows "idem_ok (snd (client_register E net t t' dto rid path key s)) \<and> answered k h d (snd (client_register E net t t' dto rid path key s))"
proof -
  obtain r where r: "find_first (\<lambda>r. ir_key r = k) (gw_rows s) = Some r" "ir_requestHash r = h" "ir_status r = completed"
      "nullish (ir_responseBody r) JNull = d"
    using assms(3) unfolding answered_def by blast
  have still: "answered k h d u" if "find_first (\<lambda>r. ir_key r = k) (gw_rows u) = Some r" for u :: "'a gw"
    unfolding answered_def using that r(2-4) by blast
  let ?req = "register_request dto path key"
  obtain x u where chk: "checkIdempotency E t ?req s = (x, u)" by fastforce
  have row: "find_first (\<lambda>r. ir_key r = k) (gw_rows u) = Some r"
    using check_keeps_completed [OF assms(1) r(1,3), of E t ?req] chk by simp
  show ?thesis
  proof (cases "\<exists>i c. x = Inr (i, True, c)")
    case True
    then obtain i c where x: "x = Inr (i, True, c)" by blast
    have run: "client_register E net t t' dto rid path key s = catchp (register_execute E net t' dto rid key i) (on_failure i) u"
      by (simp add: register_run chk x)
    show ?thesis
    proof (cases "nullish key [] = []")
      case True
      then have "i = []" "u = s" using chk x by (simp_all add: checkIdempotency_def register_request_def)
      then have "gw_rows (snd (catchp (register_execute E net t' dto rid key i) (on_failure i) u)) = gw_rows s
          \<and> gw_cache (snd (catchp (register_execute E net t' dto rid key i) (on_failure i) u)) = gw_cache s"
        by (auto simp: register_execute_def catchp_run bind_run andthen_run whenp_def check_status_def split: prod.split sum.split)
      with still r(1) assms(1) show ?thesis unfolding run by (simp add: idem_ok_def)
    next
      case False
      then have k: "iq_key ?req \<noteq> []" "iq_key ?req = nullish key []" by (simp_all add: register_request_def)
      from check_execute [OF assms(1,2) k(1) chk [unfolded x]]
      have u: "idem_ok u" "holds (nullish key []) (req_hash E ?req) i u" "i \<noteq> []" by (simp_all add: k(2))
      from u(2) obtain q where q: "find_first (\<lambda>r. ir_key r = nullish key []) (gw_rows u) = Some q" "ir_id q = i" "ir_status q = processing"
        unfolding holds_def by blast
      have "ir_id r \<noteq> i"
        using completed_apart [OF u(1) row r(3), of q] find_first_SomeD [OF q(1)] q(2,3) by auto
      from preservesD [OF execute_keeps_row [OF this] row] still execute_keeps_ok [OF u refl False]
      show ?thesis unfolding run by blast
    qed
  next
    case False
    have "snd (client_register E net t t' dto rid path key s) = u"
    proof (cases x)
      case (Inr y)
      obtain i b c where y: "y = (i, b, c)" by (cases y)
      have b: "\<not> b" using False Inr y by auto
      have "c \<noteq> None"
      proof -
        have "iq_key ?req \<noteq> []" using chk Inr y b by (auto simp: checkIdempotency_def)
        from check_answer [OF assms(1) this chk [unfolded Inr y, simplified b]] show ?thesis using b by blast
      qed
      with b show ?thesis by (simp add: register_run chk Inr y)
    qed (simp add: register_run chk)
    moreover have "idem_ok u"
    proof (cases "iq_key ?req = []")
      case True
      then show ?thesis using chk False by (auto simp: checkIdempotency_def)
    next
      case ne: False
      show ?thesis using check_stop [OF assms(1) ne chk] False by blast
    qed
    ultimately show ?thesis using still [OF row] by simp
  qed
qed

lemma attempts_keep_answer:
  "idem_ok s \<Longrightarrow> uuids_ok E \<Longrightarrow> answered k h d s \<Longrightarrow> idem_ok (attempts E as s) \<and> answered k h d (attempts E as s)"
proof (induction as arbitrary: s)
  case (Cons a as)
  then show ?case
    using attempt_keeps_answer [OF Cons.prems, of "at_net a" "at_start a" "at_end a" "at_dto a" "at_requestId a" "at_path a" "at_key a"]
    by (simp add: attempts_def)
qed (simp add: attempts_def)

text \<open>
  C5. A key is answered once: after a registration succeeded under a key whose record, if there was one, was of
  the same request, every later attempt of this request with the key gets the same answer: whatever registrations
  were attempted in between, under this key or others and with whatever bodies, whenever it is made and whatever the
  network would do; nothing is sent and the table stays as it is.
\<close>
theorem register_replay:
  assumes "idem_ok s" and "uuids_ok E" and "k \<noteq> []"
    and "\<forall>r\<in>set (gw_rows s). ir_key r = k \<longrightarrow> ir_requestHash r = reg_hash E dto path"
    and "client_register E net t t' dto rid path (Some k) s = (Inr d, s1)"
  shows "\<exists>s2. client_register E net' t2 t2' dto rid' path (Some k) (attempts E as s1) = (Inr d, s2)
    \<and> gw_world s2 = gw_world (attempts E as s1) \<and> gw_rows s2 = gw_rows (attempts E as s1)"
proof -
  let ?req = "register_request dto path (Some k)"
  have req: "iq_key ?req = k" "req_hash E ?req = reg_hash E dto path" by (simp_all add: register_request_def)
  obtain h where ok: "idem_ok s1" and h: "answered k h d s1"
      "h = reg_hash E dto path \<or> (\<exists>r\<in>set (gw_rows s). ir_key r = k \<and> ir_requestHash r = h)"
    using register_success [OF assms(1,2,3,5)] by (elim conjE exE)
  have "h = reg_hash E dto path" using h(2)
  proof
    assume "\<exists>r\<in>set (gw_rows s). ir_key r = k \<and> ir_requestHash r = h"
    then obtain r where "r \<in> set (gw_rows s)" "ir_key r = k" "ir_requestHash r = h" by blast
    with assms(4) show ?thesis by simp
  qed
  with attempts_keep_answer [OF ok assms(2) h(1), of as]
  have later: "idem_ok (attempts E as s1)" "answered (iq_key ?req) (req_hash E ?req) d (attempts E as s1)" by (simp_all only: req)
  obtain i s2 where "checkIdempotency E t2 ?req (attempts E as s1) = (Inr (i, False, Some d), s2)"
      "gw_world s2 = gw_world (attempts E as s1)" "gw_rows s2 = gw_rows (attempts E as s1)"
    by (rule check_answered [OF later(1) _ later(2), of t2]) (simp_all only: req assms(3) not_False_eq_True)
  then show ?thesis by (simp add: register_run)
qed

text \<open>
  A key belongs to its request: unless its answer is cached, a different path or body under the
  key of another registration is refused with 409 before anything is sent.
\<close>
theorem register_conflict:
  assumes "gw_cache s k = None" and "k \<noteq> []" and "path \<noteq> []" and "path' \<noteq> []"
    and "find_first (\<lambda>r. ir_key r = k) (gw_rows s) = Some r" and "ir_requestHash r = reg_hash E dto' path'"
    and "(path, dto) \<noteq> (path', dto')"
    and "inj_on (ge_sha256 E) {canonical ''POST'' path dto, canonical ''POST'' path' dto'}"
  shows "client_register E net t t' dto rid path (Some k) s = (Inl different_request, s)"
proof -
  let ?req = "register_request dto path (Some k)"
  have "canonical ''POST'' path dto \<noteq> canonical ''POST'' path' dto'" using assms(7) by simp
  then have "ge_sha256 E (canonical ''POST'' path dto) \<noteq> ge_sha256 E (canonical ''POST'' path' dto')"
    using inj_onD [OF assms(8)] by blast
  then have "ir_requestHash r \<noteq> req_hash E ?req"
    unfolding assms(6) using assms(3,4) by (simp add: register_request_def computeRequestHash_def eq_commute)
  then have "check_record E t ?req s = (Inl different_request, s)"
    using assms(5) by (intro check_record_found) (simp_all add: register_request_def)
  then show ?thesis
    using assms(1,2) by (simp add: register_run checkIdempotency_def register_request_def bind_run getFromCache_def
        different_request_def conflict_def)
qed

text \<open>
  The cache does not look at the request: while an answer is cached (five minutes), any
  registration under its key, whatever its body, is told that answer, and is not carried out.
\<close>
theorem register_cache_ignores_request:
  assumes "gw_cache s k = Some (d, x)" and "t \<le> x" and "d \<noteq> JNull" and "k \<noteq> []"
  shows "client_register E net t t' dto rid path (Some k) s = (Inr d, s)"
  using assms by (simp add: register_run checkIdempotency_def register_request_def bind_run getFromCache_def)

text \<open>
  A record that is left \<open>processing\<close> (the gateway stopped during the call) blocks its key for
  good: the same request is refused at every later time, its \<open>expiresAt\<close> notwithstanding.
\<close>
theorem register_stuck:
  assumes "gw_cache s k = None" and "k \<noteq> []" and "find_first (\<lambda>r. ir_key r = k) (gw_rows s) = Some r"
    and "ir_requestHash r = reg_hash E dto path" and "ir_status r = processing"
  shows "client_register E net t t' dto rid path (Some k) s = (Inl still_processing, s)"
proof -
  let ?req = "register_request dto path (Some k)"
  have "check_record E t ?req s = (Inl still_processing, s)"
    using assms(3-5) by (intro check_record_found) (simp_all add: register_request_def)
  then show ?thesis
    using assms(1,2) by (simp add: register_run checkIdempotency_def register_request_def bind_run getFromCache_def
        still_processing_def conflict_def)
qed

text \<open>
  A failure can be retried: when the auth service refuses the first attempt, the caller gets its
  error, the record is \<open>failed\<close> (with status 500, whatever the service answered), and a second
  attempt is sent and, if the service then accepts it, answered and remembered.
\<close>
theorem register_retry:
  assumes "idem_ok s" and "uuids_ok E" and "k \<noteq> []" and "\<forall>r\<in>set (gw_rows s). ir_key r \<noteq> k \<and> ir_id r \<noteq> ge_uuid E (gw_draws s)"
    and "net (register_call E rid dto) (gw_world s) = (Inr r, w)" and "400 \<le> rs_status r"
    and "net' (register_call E rid' dto) w = (Inr r', w')" and "rs_status r' < 400"
  shows "\<exists>s1 s2. client_register E net t t' dto rid path (Some k) s =
      (Inl (handleAxiosError (AxiosLike (Some (rs_status r)) (Some (rs_data r)) None) auth_failed), s1)
    \<and> failed_row k (reg_hash E dto path) s1
    \<and> client_register E net' t2 t2' dto rid' path (Some k) s1 = (Inr (rs_data r'), s2)
    \<and> answered k (reg_hash E dto path) (rs_data r') s2"
proof -
  let ?req = "register_request dto path (Some k)"
  have req: "iq_key ?req = k" "req_hash E ?req = reg_hash E dto path" by (simp_all add: register_request_def)
  then have k: "iq_key ?req \<noteq> []" using assms(3) by simp
  have "gw_cache s k = None"
  proof (rule not_cached [OF assms(1)])
    fix r assume "find_first (\<lambda>r. ir_key r = k) (gw_rows s) = Some r"
    then show "ir_status r \<noteq> completed" using find_first_SomeD [of _ "gw_rows s" r] assms(4) by blast
  qed
  then have "getFromCache t (iq_key ?req) s = (Inr JNull, s)" by (simp add: getFromCache_def req)
  from checkIdempotency_eq [OF k this, of E] obtain i c u where chk: "checkIdempotency E t ?req s = (Inr (i, True, c), u)"
    using assms(4) check_record_new [of s ?req E t] by (simp add: req Let_def)
  from check_execute [OF assms(1,2) k chk]
  have u: "idem_ok u" "holds k (reg_hash E dto path) i u" "i \<noteq> []" "gw_world u = gw_world s" by (simp_all add: req)
  obtain s1 where s1: "client_register E net t t' dto rid path (Some k) s =
      (Inl (handleAxiosError (AxiosLike (Some (rs_status r)) (Some (rs_data r)) None) auth_failed), s1)"
    "idem_ok s1" "failed_row k (reg_hash E dto path) s1" "gw_world s1 = w"
    by (rule execute_failure [where net = net and t' = t' and requestId = rid and dto = dto and key = "Some k", OF u(1-3) disjI2])
      (use assms(5,6) u(4) chk in \<open>auto simp: register_run\<close>)
  obtain i' c' v where chk': "checkIdempotency E t2 ?req s1 = (Inr (i', True, c'), v)"
    by (rule check_failed [OF s1(2) k, of E t2]) (use s1(3) in \<open>auto simp: failed_row_def req\<close>)
  from check_execute [OF s1(2) assms(2) k chk']
  have v: "idem_ok v" "holds k (reg_hash E dto path) i' v" "i' \<noteq> []" "gw_world v = w" by (simp_all add: req s1(4))
  obtain s2 where "client_register E net' t2 t2' dto rid' path (Some k) s1 = (Inr (rs_data r'), s2)"
    "answered k (reg_hash E dto path) (rs_data r') s2"
    by (rule execute_success [where net = net' and t' = t2' and requestId = rid' and dto = dto and key = "Some k" and r = r' and w = w',
          OF v(1-3) _ assms(3)])
      (use assms(7,8) v(4) chk' in \<open>auto simp: register_run\<close>)
  with s1 show ?thesis by blast
qed

section \<open>Cookies\<close>

lemma emit_run [simp]: "emit e s = (Inr (), s\<lparr>gw_out := gw_out s @ [e]\<rparr>)"
  by (simp add: emit_def)

lemma forwardSetCookie_run [simp]:
  "forwardSetCookie r s = (Inr (), s\<lparr>gw_out := gw_out s @ map AppendCookie (rs_setCookie r)\<rparr>)"
proof -
  have "for_each cs (\<lambda>c. emit (AppendCookie c)) s = (Inr (), s\<lparr>gw_out := gw_out s @ map AppendCookie cs\<rparr>)" for cs
    by (induction cs arbitrary: s) (simp_all add: andthen_run)
  then show ?thesis by (simp add: forwardSetCookie_def)
qed

text \<open>
  The calls that may touch the cookies of the browser, with the response passed in, and what each
  does to them when the auth service accepted.
\<close>

definition session_call :: "gw_env \<Rightarrow> 'w network \<Rightarrow> ('w, json) gwp \<Rightarrow> http_call \<Rightarrow> (response \<Rightarrow> gw_effect list) \<Rightarrow> bool" where
  "session_call E net m call cookies \<longleftrightarrow>
     (\<exists>dto rid. m = client_login E net dto rid True \<and> cookies = (\<lambda>r. map AppendCookie (rs_setCookie r))
        \<and> call = simple_call ''POST'' ''auth/internal/login'' (auth_getHeaders E rid None) (Some dto))
   \<or> (\<exists>tok dev rid. m = client_refresh E net tok dev rid True \<and> cookies = (\<lambda>r. map AppendCookie (rs_setCookie r))
        \<and> call = simple_call ''POST'' ''auth/internal/refresh'' (auth_getHeaders E rid None @ [cookie_header tok dev]) (Some (JObj [])))
   \<or> (\<exists>dev tok rid a. m = client_logoutDevice E net dev tok rid True a
        \<and> cookies = (\<lambda>r. [ClearedCookie ''refreshToken'', ClearedCookie ''deviceId''])
        \<and> call = simple_call ''POST'' ''auth/internal/logout-device'' (auth_getHeaders E rid a @ [cookie_header tok dev]) (Some (JObj [])))
   \<or> (\<exists>rid a. m = client_logoutAll E net rid True a
        \<and> cookies = (\<lambda>r. [ClearedCookie ''refreshToken'', ClearedCookie ''deviceId''])
        \<and> call = simple_call ''POST'' ''auth/internal/logout-all'' (auth_getHeaders E rid a) (Some (JObj [])))"

text \<open>The common shape of the four.\<close>

definition session_shape :: "'w network \<Rightarrow> http_call \<Rightarrow> (response \<Rightarrow> ('w, unit) gwp) \<Rightarrow> (response \<Rightarrow> json) \<Rightarrow> ('w, json) gwp" where
  "session_shape net call act res = guarded auth_failed (bind (via net call) (\<lambda>r.
     andthen (check_status auth_failed r) (andthen (act r) (ret (res r)))))"

lemma session_callE:
  assumes "session_call E net m call cookies"
  obtains act res where "m = session_shape net call act res"
    "\<And>r s. act r s = (Inr (), s\<lparr>gw_out := gw_out s @ cookies r\<rparr>)"
  using assms unfolding session_call_def
  by (elim disjE exE conjE)
    (rule that, (simp only: client_login_def client_refresh_def client_logoutDevice_def client_logoutAll_def session_shape_def),
      simp add: clear_cookies_def andthen_run)+

text \<open>
  The cookies of the browser change only when the auth service accepted: a session call that
  fails touches none of them and throws a \<open>ServiceError\<close> with the status the service gave; one
  that succeeds forwards or clears exactly the cookies it should, and nothing else of the gateway
  changes.
\<close>
theorem session_cookies:
  assumes "session_call E net m call cookies" and "m s = (x, s')"
  shows "(\<exists>r d. fst (net call (gw_world s)) = Inr r \<and> rs_status r < 400 \<and> x = Inr d
        \<and> s' = s\<lparr>gw_world := snd (net call (gw_world s)), gw_out := gw_out s @ cookies r\<rparr>)
    \<or> (\<exists>e. x = Inl (ServiceErr e) \<and> s' = s\<lparr>gw_world := snd (net call (gw_world s))\<rparr>
        \<and> (\<forall>r. fst (net call (gw_world s)) = Inr r \<longrightarrow> 400 \<le> rs_status r \<and> se_statusCode e = rs_status r))"
proof (rule session_callE [OF assms(1)])
  fix act res
  assume m: "m = session_shape net call act res" and act: "\<And>r s. act r s = (Inr (), s\<lparr>gw_out := gw_out s @ cookies r\<rparr>)"
  obtain y w where net: "net call (gw_world s) = (y, w)" by fastforce
  show ?thesis
  proof (cases y)
    case (Inl e)
    obtain se where se: "handleAxiosError e auth_failed = ServiceErr se" using handleAxiosError_service by blast
    have "x = Inl (ServiceErr se)" "s' = s\<lparr>gw_world := w\<rparr>"
      using assms(2) by (simp_all add: m session_shape_def guarded_run bind_run net Inl se)
    then show ?thesis by (simp add: net Inl)
  next
    case (Inr r)
    show ?thesis
    proof (cases "400 \<le> rs_status r")
      case True
      obtain se where se: "handleAxiosError (AxiosLike (Some (rs_status r)) (Some (rs_data r)) None) auth_failed = ServiceErr se"
        "se_statusCode se = rs_status r"
        by (simp add: handleAxiosError_def axios_view_def axios_error_def service_error_new_def Let_def)
      have "x = Inl (ServiceErr se)" "s' = s\<lparr>gw_world := w\<rparr>"
        using assms(2) True by (simp_all add: m session_shape_def guarded_run bind_run andthen_run check_status_def net Inr se(1))
      then show ?thesis using True by (simp add: net Inr se(2))
    next
      case False
      then have "x = Inr (res r)" "s' = s\<lparr>gw_world := w, gw_out := gw_out s @ cookies r\<rparr>"
        using assms(2) by (simp_all add: m session_shape_def guarded_run bind_run andthen_run check_status_def net Inr act)
      then show ?thesis using False by (simp add: net Inr)
    qed
  qed
qed

section \<open>Witnesses\<close>

definition gw_env0 :: gw_env where
  "gw_env0 = \<lparr>ge_sha256 = id, ge_uuid = (\<lambda>n. CHR ''i'' # replicate n (CHR ''x'')), ge_jwtSign = (\<lambda>_ _ _ _ _. ''jwt''),
     ge_secret = None, ge_issuer = None, ge_audience = None\<rparr>"

definition gw_state0 :: "unit gw" where
  "gw_state0 = \<lparr>gw_rows = [], gw_cache = Map.empty, gw_draws = 0, gw_out = [], gw_world = ()\<rparr>"

definition up_net :: "unit network" where
  "up_net call w = (Inr \<lparr>rs_status = 201, rs_data = JStr ''ok'', rs_setCookie = [''c'']\<rparr>, w)"

definition down_net :: "unit network" where
  "down_net call w = (Inr \<lparr>rs_status = 503, rs_data = JNull, rs_setCookie = []\<rparr>, w)"

definition dto0 :: json where "dto0 = JObj [(''email'', JStr ''a'')]"

definition gw_row :: "IdempotencyStatus \<Rightarrow> idem_row" where
  "gw_row st = \<lparr>ir_id = ''i'', ir_key = ''k'', ir_requestHash = canonical ''POST'' ''/p'' dto0, ir_status = st,
     ir_responseStatus = None, ir_responseBody = Some (JStr ''ok''), ir_expiresAt = 5\<rparr>"

lemma gw_state0_ok [simp]: "idem_ok gw_state0" "uuids_ok gw_env0" "gw_rows gw_state0 = []" "gw_draws gw_state0 = 0"
  by (simp_all add: idem_ok_def gw_state0_def uuids_ok_def gw_env0_def)

lemma gw_row_facts [simp]: "ir_key (gw_row st) = ''k''" "ir_status (gw_row st) = st"
  "ir_requestHash (gw_row st) = computeRequestHash gw_env0 ''POST'' ''/p'' dto0"
  by (simp_all add: gw_row_def computeRequestHash_def gw_env0_def)

text \<open>In between, another body under the key, after the cached answer ran out, and another key while the service is down.\<close>

definition between :: "unit attempt list" where
  "between = [\<lparr>at_net = up_net, at_start = 400000, at_end = 400001, at_dto = JNull, at_requestId = ''r3'', at_path = ''/p'', at_key = Some ''k''\<rparr>,
     \<lparr>at_net = down_net, at_start = 400002, at_end = 400003, at_dto = dto0, at_requestId = ''r4'', at_path = ''/p'', at_key = Some ''j''\<rparr>]"

lemma register_replay_witness:
  "fst (client_register gw_env0 down_net 400099 400100 dto0 ''r2'' ''/p'' (Some ''k'') (attempts gw_env0 between
     (snd (client_register gw_env0 up_net 0 1 dto0 ''r1'' ''/p'' (Some ''k'') gw_state0)))) = Inr (JStr ''ok'')"
proof -
  have "fst (client_register gw_env0 up_net 0 1 dto0 ''r1'' ''/p'' (Some ''k'') gw_state0) = Inr (JStr ''ok'')"
    by code_simp
  then show ?thesis
    using register_replay [where s = gw_state0 and E = gw_env0 and k = "''k''" and dto = dto0 and path = "''/p''" and net = up_net
        and t = 0 and t' = 1 and rid = "''r1''" and d = "JStr ''ok''" and net' = down_net and ?t2.0 = 400099 and t2' = 400100 and rid' = "''r2''" and as = between
        and ?s1.0 = "snd (client_register gw_env0 up_net 0 1 dto0 ''r1'' ''/p'' (Some ''k'') gw_state0)"]
    by (auto simp: prod_eq_iff)
qed

lemma register_conflict_witness:
  "client_register gw_env0 up_net 0 1 JNull ''r'' ''/p'' (Some ''k'') (gw_state0\<lparr>gw_rows := [gw_row completed]\<rparr>) =
     (Inl different_request, gw_state0\<lparr>gw_rows := [gw_row completed]\<rparr>)"
  by (rule register_conflict [where path' = "''/p''" and r = "gw_row completed" and dto' = dto0])
    (simp_all add: gw_state0_def, simp_all add: gw_env0_def dto0_def)

lemma register_cache_ignores_request_witness:
  "client_register gw_env0 up_net 3 4 JNull ''r'' ''/p'' (Some ''k'')
     (gw_state0\<lparr>gw_rows := [gw_row completed], gw_cache := [''k'' \<mapsto> (JStr ''ok'', 7)]\<rparr>) =
   (Inr (JStr ''ok''), gw_state0\<lparr>gw_rows := [gw_row completed], gw_cache := [''k'' \<mapsto> (JStr ''ok'', 7)]\<rparr>)"
  by (rule register_cache_ignores_request [where x = 7]) simp_all

lemma register_stuck_witness:
  "client_register gw_env0 up_net 1000 1001 dto0 ''r'' ''/p'' (Some ''k'') (gw_state0\<lparr>gw_rows := [gw_row processing]\<rparr>) =
     (Inl still_processing, gw_state0\<lparr>gw_rows := [gw_row processing]\<rparr>)"
  by (rule register_stuck [where r = "gw_row processing"]) (simp_all add: gw_state0_def)

lemma register_retry_witness:
  "\<exists>e s1 s2. client_register gw_env0 down_net 0 1 dto0 ''r'' ''/p'' (Some ''k'') gw_state0 = (Inl e, s1)
    \<and> client_register gw_env0 up_net 2 3 dto0 ''r'' ''/p'' (Some ''k'') s1 = (Inr (JStr ''ok''), s2)"
  using register_retry [where s = gw_state0 and E = gw_env0 and k = "''k''" and net = down_net and rid = "''r''" and dto = dto0
      and r = "\<lparr>rs_status = 503, rs_data = JNull, rs_setCookie = []\<rparr>" and net' = up_net and rid' = "''r''" and path = "''/p''"
      and r' = "\<lparr>rs_status = 201, rs_data = JStr ''ok'', rs_setCookie = [''c'']\<rparr>" and t = 0 and t' = 1 and ?t2.0 = 2 and t2' = 3]
  by (auto simp: down_net_def up_net_def)

lemma session_cookies_witness:
  "gw_out (snd (client_login gw_env0 up_net dto0 ''r'' True gw_state0)) = [AppendCookie ''c'']"
proof -
  have "session_call gw_env0 up_net (client_login gw_env0 up_net dto0 ''r'' True)
      (simple_call ''POST'' ''auth/internal/login'' (auth_getHeaders gw_env0 ''r'' None) (Some dto0))
      (\<lambda>r. map AppendCookie (rs_setCookie r))"
    unfolding session_call_def by blast
  from session_cookies [OF this, of gw_state0 "fst (client_login gw_env0 up_net dto0 ''r'' True gw_state0)"
      "snd (client_login gw_env0 up_net dto0 ''r'' True gw_state0)"]
  obtain r where "r = \<lparr>rs_status = 201, rs_data = JStr ''ok'', rs_setCookie = [''c'']\<rparr>"
    "snd (client_login gw_env0 up_net dto0 ''r'' True gw_state0) =
      gw_state0\<lparr>gw_world := (), gw_out := gw_out gw_state0 @ map AppendCookie (rs_setCookie r)\<rparr>"
    by (auto simp: up_net_def)
  then show ?thesis by (simp add: gw_state0_def)
qed

end
