(* ===== verification/IdemRace.thy ===== *)
theory IdemRace
  imports AuthClient
begin

text \<open>
  Registrations that overlap. \<open>client_register\<close> of \<open>AuthClient\<close> runs a registration in one go; here
  it is cut at its \<open>await\<close>s, and any number of registrations take their steps in any order, on one
  table of idempotency records, one cache and one network. A step of a request reads or writes the
  shared state once, as one query or one call does. \<open>ra_log\<close> is what the auth service answered, in order.
\<close>

section \<open>One registration, step by step\<close>

record reg_call =
  rc_dto :: json
  rc_requestId :: string
  rc_path :: string
  rc_key :: "string option"

abbreviation rc_request :: "reg_call \<Rightarrow> IdempotencyRequest" where
  "rc_request c \<equiv> register_request (rc_dto c) (rc_path c) (rc_key c)"

text \<open>Where a registration stands: what it awaits, or its outcome.\<close>

datatype rpc =
    Started
  | Reading
  | Read "idem_row option"
  | Calling string
  | Answered string "exn + response"
  | Failing string exn
  | Completed string json
  | Finished "exn + json"

definition status_error :: "response \<Rightarrow> exn" where
  "status_error r = handleAxiosError (AxiosLike (Some (rs_status r)) (Some (rs_data r)) None) auth_failed"

fun reg_step :: "gw_env \<Rightarrow> 'w network \<Rightarrow> int \<Rightarrow> reg_call \<Rightarrow> rpc \<Rightarrow> 'w gw \<Rightarrow> rpc \<times> 'w gw" where
  "reg_step E net t c Started s =
     (if iq_key (rc_request c) = [] then (Calling [], s)
      else (case getFromCache t (iq_key (rc_request c)) s of
          (Inr v, s') \<Rightarrow> (if v \<noteq> JNull then Finished (Inr v) else Reading, s')
        | (Inl e, s') \<Rightarrow> (Finished (Inl (handleAxiosError e register_failed)), s')))"
| "reg_step E net t c Reading s = (Read (find_first (\<lambda>r. ir_key r = iq_key (rc_request c)) (gw_rows s)), s)"
| "reg_step E net t c (Read existing) s =
     (case decide E t (rc_request c) existing s of
        (Inl e, s') \<Rightarrow> (Finished (Inl (handleAxiosError e register_failed)), s')
      | (Inr (i, execute, answer), s') \<Rightarrow>
          (if \<not> execute \<and> answer \<noteq> None then Finished (Inr (nullish answer JNull)) else Calling i, s'))"
| "reg_step E net t c (Calling i) s =
     (case via net (simple_call ''POST'' ''auth/internal/register'' (auth_getHeaders E (rc_requestId c) None) (Some (rc_dto c))) s of
        (r, s') \<Rightarrow> (Answered i r, s'))"
| "reg_step E net t c (Answered i (Inl e)) s = (Failing i e, s)"
| "reg_step E net t c (Answered i (Inr r)) s =
     (if 400 \<le> rs_status r then
        (case whenp (i \<noteq> []) (markFailed i (rs_status r) (rs_data r)) s of
           (Inl e, s') \<Rightarrow> (Failing i e, s') | (Inr _, s') \<Rightarrow> (Failing i (status_error r), s'))
      else if i = [] then (Finished (Inr (rs_data r)), s)
      else (case markCompleted i (rs_status r) (rs_data r) s of
           (Inl e, s') \<Rightarrow> (Failing i e, s') | (Inr _, s') \<Rightarrow> (Completed i (rs_data r), s')))"
| "reg_step E net t c (Failing i e) s =
     (case whenp (i \<noteq> []) (markFailed i 500 (failure_details e)) s of
        (Inl e', s') \<Rightarrow> (Finished (Inl e'), s')
      | (Inr _, s') \<Rightarrow> (Finished (Inl (handleAxiosError e register_failed)), s'))"
| "reg_step E net t c (Completed i d) s = (Finished (Inr d), snd (cacheResponse t (iq_key (rc_request c)) d s))"
| "reg_step E net t c (Finished r) s = (Finished r, s)"

section \<open>Many registrations\<close>

record 'w race =
  ra_gw :: "'w gw"
  ra_pcs :: "rpc list"
  ra_log :: "(nat \<times> (exn + response)) list"

definition race_step :: "gw_env \<Rightarrow> 'w network \<Rightarrow> reg_call list \<Rightarrow> nat \<times> int \<Rightarrow> 'w race \<Rightarrow> 'w race" where
  "race_step E net cs = (\<lambda>(j, t) st.
     (if j < length cs \<and> j < length (ra_pcs st) then
        (let (p, s') = reg_step E net t (cs ! j) (ra_pcs st ! j) (ra_gw st)
         in st\<lparr>ra_gw := s', ra_pcs := (ra_pcs st)[j := p],
               ra_log := ra_log st @ (case p of Answered i r \<Rightarrow> [(j, r)] | _ \<Rightarrow> [])\<rparr>)
      else st))"

text \<open>A schedule says who steps, and when; \<open>race\<close> starts every registration and follows it.\<close>

definition race :: "gw_env \<Rightarrow> 'w network \<Rightarrow> reg_call list \<Rightarrow> (nat \<times> int) list \<Rightarrow> 'w gw \<Rightarrow> 'w race" where
  "race E net cs schedule s = fold (race_step E net cs) schedule
     \<lparr>ra_gw = s, ra_pcs = replicate (length cs) Started, ra_log = []\<rparr>"

lemma race_Nil [simp]: "race E net cs [] s = \<lparr>ra_gw = s, ra_pcs = replicate (length cs) Started, ra_log = []\<rparr>"
  by (simp add: race_def)

lemma race_snoc [simp]: "race E net cs (sch @ [x]) s = race_step E net cs x (race E net cs sch s)"
  by (simp add: race_def)

lemma length_race_step [simp]: "length (ra_pcs (race_step E net cs x st)) = length (ra_pcs st)"
  by (cases x) (simp add: race_step_def Let_def split: prod.split)

lemma length_race [simp]: "length (ra_pcs (race E net cs sch s)) = length cs"
  by (induction sch rule: rev_induct) simp_all

section \<open>A registration alone is \<open>client_register\<close>\<close>

abbreviation solo :: "gw_env \<Rightarrow> 'w network \<Rightarrow> reg_call \<Rightarrow> int \<Rightarrow> rpc \<times> 'w gw \<Rightarrow> rpc \<times> 'w gw" where
  "solo E net c t x \<equiv> reg_step E net t c (fst x) (snd x)"

lemma solo_call:
  "solo E net c t' (solo E net c t2 (solo E net c t1 (Calling i, s))) =
    (case catchp (register_execute E net t' (rc_dto c) (rc_requestId c) (rc_key c) i) (on_failure i) s of
       (r, s') \<Rightarrow> (Finished r, s'))"
proof (cases "fst (net (register_call E (rc_requestId c) (rc_dto c)) (gw_world s))")
  case (Inl e)
  then show ?thesis
    by (auto simp: register_execute_def catchp_run bind_run andthen_run split: prod.splits sum.splits)
next
  case (Inr r)
  let ?w = "s\<lparr>gw_world := snd (net (register_call E (rc_requestId c) (rc_dto c)) (gw_world s))\<rparr>"
  show ?thesis
  proof (cases "400 \<le> rs_status r")
    case True
    then show ?thesis
      by (cases "i = []"; cases "markFailed i (rs_status r) (rs_data r) ?w"; cases "fst (markFailed i (rs_status r) (rs_data r) ?w)")
        (simp_all add: Inr register_execute_def catchp_run bind_run andthen_run check_status_def status_error_def
          split: prod.splits sum.splits)
  next
    case False
    then show ?thesis
      by (cases "i = []"; cases "markCompleted i (rs_status r) (rs_data r) ?w"; cases "fst (markCompleted i (rs_status r) (rs_data r) ?w)")
        (simp_all add: Inr register_execute_def catchp_run bind_run andthen_run cacheResponse_def setCache_def register_request_def
          split: prod.splits sum.splits)
  qed
qed

lemma solo_check:
  assumes "iq_key (rc_request c) \<noteq> []"
  shows "solo E net c t (solo E net c t (solo E net c t (Started, s))) =
    (case checkIdempotency E t (rc_request c) s of
       (Inl e, u) \<Rightarrow> (Finished (Inl (handleAxiosError e register_failed)), u)
     | (Inr (i, b, a), u) \<Rightarrow> (if \<not> b \<and> a \<noteq> None then Finished (Inr (nullish a JNull)) else Calling i, u))"
proof (rule getFromCache_cases [of s "iq_key (rc_request c)" t])
qed (use assms in \<open>auto simp: checkIdempotency_def check_record_def bind_run split: prod.splits sum.splits\<close>)

text \<open>
  The steps are those of the code: a registration that takes its steps with nobody in between has
  the outcome, and leaves the state, of the handler that \<open>client_register\<close> models as a whole.
\<close>
lemma register_alone:
  "solo E net c t' (solo E net c t' (solo E net c t' (solo E net c t (solo E net c t (solo E net c t (Started, s)))))) =
    (case client_register E net t t' (rc_dto c) (rc_requestId c) (rc_path c) (rc_key c) s of (r, s') \<Rightarrow> (Finished r, s'))"
proof (cases "iq_key (rc_request c) = []")
  case True
  then have "solo E net c t (Started, s) = (Calling [], s)" by simp
  moreover have "client_register E net t t' (rc_dto c) (rc_requestId c) (rc_path c) (rc_key c) s =
      catchp (register_execute E net t' (rc_dto c) (rc_requestId c) (rc_key c) []) (on_failure []) s"
    using True by (simp add: register_run checkIdempotency_def)
  ultimately show ?thesis using solo_call [where E = E and net = net and c = c and t' = t' and ?t1.0 = t and ?t2.0 = t and i = "[]" and s = s] by (auto split: prod.splits)
next
  case False
  show ?thesis
    unfolding solo_check [OF False]
    by (auto simp: register_run solo_call [unfolded fst_conv snd_conv] simp del: reg_step.simps(4) split: prod.splits sum.splits)
qed

section \<open>Every registration ends\<close>

fun rank :: "rpc \<Rightarrow> nat" where
  "rank Started = 6"
| "rank Reading = 5"
| "rank (Read x) = 4"
| "rank (Calling i) = 3"
| "rank (Answered i r) = 2"
| "rank (Failing i e) = 1"
| "rank (Completed i d) = 1"
| "rank (Finished r) = 0"

lemma rank_step: "rank (fst (reg_step E net t c p s)) \<le> rank p - 1"
  by (cases "(E, net, t, c, p, s)" rule: reg_step.cases) (auto split: prod.splits sum.splits)

lemma race_step_pcs:
  "j < length cs \<Longrightarrow> length (ra_pcs st) = length cs \<Longrightarrow>
    ra_pcs (race_step E net cs (j, t) st) = (ra_pcs st)[j := fst (reg_step E net t (cs ! j) (ra_pcs st ! j) (ra_gw st))]"
  by (simp add: race_step_def Let_def split: prod.split)

lemma race_rank:
  "j < length cs \<Longrightarrow> rank (ra_pcs (race E net cs sch s) ! j) \<le> 6 - length (filter (\<lambda>x. fst x = j) sch)"
proof (induction sch rule: rev_induct)
  case (snoc x sch)
  obtain k t where x: "x = (k, t)" by fastforce
  let ?st = "race E net cs sch s"
  show ?case
  proof (cases "k = j")
    case True
    have "rank (fst (reg_step E net t (cs ! j) (ra_pcs ?st ! j) (ra_gw ?st))) \<le> rank (ra_pcs ?st ! j) - 1"
      by (rule rank_step)
    with snoc True show ?thesis by (simp add: x race_step_pcs)
  next
    case False
    then have "ra_pcs (race_step E net cs x ?st) ! j = ra_pcs ?st ! j"
      by (simp add: x race_step_def Let_def split: prod.split)
    with snoc False show ?thesis by (simp add: x)
  qed
qed simp

text \<open>
  Every registration is answered: whatever the others do in between, whatever the network answers and
  whatever state the gateway is in, a registration that has taken six of its steps has returned
  or thrown.
\<close>
lemma register_ends:
  assumes "j < length cs" and "6 \<le> length (filter (\<lambda>x. fst x = j) schedule)"
  shows "\<exists>r. ra_pcs (race E net cs schedule s) ! j = Finished r"
proof -
  have "rank (ra_pcs (race E net cs schedule s) ! j) = 0" using race_rank [OF assms(1), of E net schedule s] assms(2) by simp
  then show ?thesis by (cases "ra_pcs (race E net cs schedule s) ! j") simp_all
qed

section \<open>Who executes\<close>

definition refused :: "exn + response \<Rightarrow> bool" where
  "refused r \<longleftrightarrow> (case r of Inl _ \<Rightarrow> True | Inr x \<Rightarrow> 400 \<le> rs_status x)"

definition key_of :: "reg_call list \<Rightarrow> nat \<Rightarrow> string" where
  "key_of cs j = iq_key (rc_request (cs ! j))"

text \<open>The answers that registrations under the key \<open>k\<close> got.\<close>

definition answers :: "reg_call list \<Rightarrow> string \<Rightarrow> 'w race \<Rightarrow> (exn + response) list" where
  "answers cs k st = map snd (filter (\<lambda>x. key_of cs (fst x) = k) (ra_log st))"

fun pc_id :: "rpc \<Rightarrow> string option" where
  "pc_id (Read (Some r)) = Some (ir_id r)"
| "pc_id (Calling i) = Some i"
| "pc_id (Answered i r) = Some i"
| "pc_id (Failing i e) = Some i"
| "pc_id (Completed i d) = Some i"
| "pc_id p = None"

definition owns :: "string \<Rightarrow> string \<Rightarrow> idem_row list \<Rightarrow> bool" where
  "owns k i rows \<longleftrightarrow> k = [] \<and> i = [] \<or> (\<exists>r\<in>set rows. ir_id r = i \<and> ir_key r = k)"

definition table_ok :: "idem_row list \<Rightarrow> bool" where
  "table_ok rows \<longleftrightarrow> distinct (map ir_key rows) \<and> distinct (map ir_id rows) \<and> [] \<notin> ir_id ` set rows"

text \<open>What a step does to the table: nothing, a change of the row it owns, or a new row.\<close>

definition row_change :: "string \<Rightarrow> rpc \<Rightarrow> rpc \<Rightarrow> idem_row list \<Rightarrow> idem_row list \<Rightarrow> bool" where
  "row_change k p p' rows rows' \<longleftrightarrow> rows' = rows
     \<or> (\<exists>i f. pc_id p = Some i \<and> (\<forall>r. ir_id (f r) = ir_id r \<and> ir_key (f r) = ir_key r) \<and> rows' = update_where (\<lambda>r. ir_id r = i) f rows)
     \<or> (\<exists>r. p = Read None \<and> p' = Calling (ir_id r) \<and> ir_key r = k \<and> ir_id r \<noteq> [] \<and> ir_status r = processing
          \<and> (\<forall>q\<in>set rows. ir_id q \<noteq> ir_id r \<and> ir_key q \<noteq> k) \<and> rows' = rows @ [r])"

lemma record_update_run: "record_update i f s =
    (if \<exists>r\<in>set (gw_rows s). ir_id r = i then (Inr (), s\<lparr>gw_rows := update_where (\<lambda>r. ir_id r = i) f (gw_rows s)\<rparr>)
     else (Inl (PrismaErr ''P2025'' ''Record to update not found''), s))"
  by (auto simp: record_update_def bind_run)

lemma row_change_update:
  assumes "record_update i f s = (x, s')" and "pc_id p = Some i" and "\<And>r. ir_id (f r) = ir_id r \<and> ir_key (f r) = ir_key r"
  shows "row_change k p p' (gw_rows s) (gw_rows s')"
proof -
  have "gw_rows s' = gw_rows s \<or> gw_rows s' = update_where (\<lambda>r. ir_id r = i) f (gw_rows s)"
    using assms(1) by (auto simp: record_update_run split: if_splits)
  then show ?thesis using assms(2,3) unfolding row_change_def by blast
qed

lemma row_change_same [simp]: "row_change k p p' rows rows"
  by (simp add: row_change_def)

lemma step_Started: "gw_rows (snd (reg_step E net t c Started s)) = gw_rows s"
  by (simp add: getFromCache_def split: option.split)

lemma step_Read_Some:
  assumes "reg_step E net t c (Read (Some r)) s = (p', s')"
  shows "row_change k (Read (Some r)) p' (gw_rows s) (gw_rows s')"
    and "ir_status r \<noteq> failed \<Longrightarrow> gw_rows s' = gw_rows s \<and> (\<exists>x. p' = Finished x)"
    and "pc_id p' = None \<or> pc_id p' = Some (ir_id r)"
proof -
  let ?f = "\<lambda>r. r\<lparr>ir_status := processing, ir_responseStatus := None, ir_expiresAt := t + day\<rparr>"
  show "row_change k (Read (Some r)) p' (gw_rows s) (gw_rows s')"
    using assms row_change_update [of "ir_id r" ?f s _ _ "Read (Some r)" k p']
    by (auto simp: decide_def Let_def andthen_run setCache_def split: if_splits IdempotencyStatus.splits prod.splits sum.splits)
  show "pc_id p' = None \<or> pc_id p' = Some (ir_id r)"
    using assms by (auto simp: decide_def Let_def andthen_run setCache_def split: if_splits IdempotencyStatus.splits prod.splits sum.splits)
  show "ir_status r \<noteq> failed \<Longrightarrow> gw_rows s' = gw_rows s \<and> (\<exists>x. p' = Finished x)"
    using assms by (cases "ir_status r") (auto simp: decide_def Let_def andthen_run setCache_def split: if_splits)
qed

lemma step_Read_None:
  assumes "reg_step E net t c (Read None) s = (p', s')" and "uuids_ok E"
  shows "gw_rows s' = gw_rows s \<and> pc_id p' = None \<and> (\<forall>i. p' \<noteq> Calling i)
    \<or> (\<exists>r. p' = Calling (ir_id r) \<and> ir_key r = iq_key (rc_request c) \<and> ir_id r \<noteq> [] \<and> ir_status r = processing
         \<and> (\<forall>q\<in>set (gw_rows s). ir_id q \<noteq> ir_id r \<and> ir_key q \<noteq> iq_key (rc_request c)) \<and> gw_rows s' = gw_rows s @ [r])"
  using assms by (auto simp: decide_def Let_def bind_run andthen_run record_create_def uuids_ok_def split: if_splits)

lemma step_rows:
  assumes "reg_step E net t c p s = (p', s')" and "uuids_ok E"
  shows "row_change (iq_key (rc_request c)) p p' (gw_rows s) (gw_rows s')"
proof (cases p)
  case Started
  then show ?thesis using assms(1) step_Started [of E net t c s] by (metis row_change_same snd_conv)
next
  case (Read x)
  then show ?thesis
    using assms step_Read_None [of E net t c s p' s'] step_Read_Some(1) [of E net t c _ s p' s']
    by (cases x) (auto simp: row_change_def)
next
  case (Answered i r)
  then show ?thesis
    using assms(1) by (cases r) (auto simp: markFailed_def markCompleted_def intro: row_change_update split: if_splits prod.splits sum.splits)
next
  case (Failing i e)
  then show ?thesis
    using assms(1) by (auto simp: markFailed_def intro: row_change_update split: if_splits prod.splits sum.splits)
next
  case (Completed i d)
  then show ?thesis using assms(1) by (auto simp: cacheResponse_def setCache_def split: if_splits)
qed (use assms(1) in auto)

lemma row_change_ok:
  assumes "row_change k p p' rows rows'" and "table_ok rows"
  shows "table_ok rows'" and "owns k' i rows \<Longrightarrow> owns k' i rows'"
proof -
  from assms(1) consider "rows' = rows"
    | i f where "\<forall>r. ir_id (f r) = ir_id r \<and> ir_key (f r) = ir_key r" "rows' = update_where (\<lambda>r. ir_id r = i) f rows"
    | r where "ir_key r = k" "ir_id r \<noteq> []" "\<forall>q\<in>set rows. ir_id q \<noteq> ir_id r \<and> ir_key q \<noteq> k" "rows' = rows @ [r]"
    unfolding row_change_def by blast
  then have "table_ok rows' \<and> (owns k' i rows \<longrightarrow> owns k' i rows')"
  proof cases
    case (2 i f)
    then have "map ir_id rows' = map ir_id rows" "map ir_key rows' = map ir_key rows"
      by (simp_all add: map_update_where)
    moreover have "\<exists>q\<in>set rows'. ir_id q = ir_id r \<and> ir_key q = ir_key r" if "r \<in> set rows" for r
      using that 2 by (intro bexI [of _ "if ir_id r = i then f r else r"]) (auto simp: set_update_where)
    moreover have "ir_id ` set rows' = ir_id ` set rows"
      using arg_cong [OF calculation(1), of set] by (simp only: set_map)
    ultimately show ?thesis using assms(2) unfolding table_ok_def owns_def by metis
  qed (use assms(2) in \<open>auto simp: table_ok_def owns_def\<close>)
  then show "table_ok rows'" "owns k' i rows \<Longrightarrow> owns k' i rows'" by blast+
qed

lemma step_pc_id:
  assumes "reg_step E net t c p s = (p', s')" and "uuids_ok E" and "pc_id p' = Some i"
  shows "pc_id p = Some i \<or> owns (iq_key (rc_request c)) i (gw_rows s')"
proof (cases p)
  case Started
  then show ?thesis using assms by (auto simp: owns_def getFromCache_def split: if_splits option.splits)
next
  case Reading
  show ?thesis
  proof (cases "find_first (\<lambda>r. ir_key r = iq_key (rc_request c)) (gw_rows s)")
    case None
    with Reading assms show ?thesis by auto
  next
    case (Some q)
    from find_first_SomeD [OF this] have "owns (iq_key (rc_request c)) (ir_id q) (gw_rows s)" unfolding owns_def by blast
    with Some Reading assms show ?thesis by auto
  qed
next
  case (Read x)
  then show ?thesis
    using assms step_Read_None [of E net t c s p' s'] step_Read_Some(3) [of E net t c _ s p' s']
    by (cases x) (auto simp: owns_def)
next
  case (Answered j r)
  then show ?thesis using assms by (cases r) (auto split: if_splits prod.splits sum.splits)
next
  case (Failing j e)
  then show ?thesis using assms by (auto split: if_splits prod.splits sum.splits)
qed (use assms in auto)

section \<open>One execution\<close>

definition calm_pc :: "rpc \<Rightarrow> bool" where
  "calm_pc p \<longleftrightarrow> (case p of Read (Some r) \<Rightarrow> ir_status r \<noteq> failed | Failing _ _ \<Rightarrow> False | Answered _ r \<Rightarrow> \<not> refused r | _ \<Rightarrow> True)"

definition callers :: "reg_call list \<Rightarrow> string \<Rightarrow> rpc list \<Rightarrow> nat set" where
  "callers cs k pcs = {j. j < length cs \<and> key_of cs j = k \<and> (\<exists>i. pcs ! j = Calling i)}"

definition calm_rows :: "string \<Rightarrow> idem_row list \<Rightarrow> bool" where
  "calm_rows k rows \<longleftrightarrow> (\<forall>r\<in>set rows. ir_key r = k \<longrightarrow> ir_status r \<noteq> failed)"

definition used :: "string \<Rightarrow> idem_row list \<Rightarrow> bool" where
  "used k rows \<longleftrightarrow> (\<exists>r\<in>set rows. ir_key r = k)"

text \<open>Nothing under the key has failed: one registration at most is calling or has been answered.\<close>

definition calm :: "reg_call list \<Rightarrow> string \<Rightarrow> 'w race \<Rightarrow> bool" where
  "calm cs k st \<longleftrightarrow> calm_rows k (gw_rows (ra_gw st)) \<and> (\<forall>j<length cs. key_of cs j = k \<longrightarrow> calm_pc (ra_pcs st ! j))
     \<and> card (callers cs k (ra_pcs st)) + length (answers cs k st) \<le> (if used k (gw_rows (ra_gw st)) then 1 else 0)"

definition race_inv :: "reg_call list \<Rightarrow> string \<Rightarrow> 'w race \<Rightarrow> bool" where
  "race_inv cs k st \<longleftrightarrow> length (ra_pcs st) = length cs \<and> table_ok (gw_rows (ra_gw st))
     \<and> (\<forall>j<length cs. \<forall>i. pc_id (ra_pcs st ! j) = Some i \<longrightarrow> owns (key_of cs j) i (gw_rows (ra_gw st)))
     \<and> ((\<forall>r\<in>set (answers cs k st). \<not> refused r) \<longrightarrow> calm cs k st)"

lemma finite_callers [simp]: "finite (callers cs k pcs)"
  by (simp add: callers_def)

lemma callers_update:
  assumes "j < length cs" and "length pcs = length cs"
  shows "callers cs k (pcs[j := p]) =
    (if key_of cs j = k \<and> (\<exists>i. p = Calling i) then insert j (callers cs k pcs) else callers cs k pcs - {j})"
  using assms by (auto simp: callers_def nth_list_update)

text \<open>Another key: the rows of \<open>k\<close> and its registrations are as before.\<close>

lemma row_change_other:
  assumes "row_change k' p p' rows rows'" and "table_ok rows" and "k' \<noteq> k" and "\<And>i. pc_id p = Some i \<Longrightarrow> owns k' i rows"
  shows "{r \<in> set rows'. ir_key r = k} = {r \<in> set rows. ir_key r = k}"
proof -
  have same: "ir_id r \<noteq> i" if "owns k' i rows" "r \<in> set rows" "ir_key r = k" for r i
    using that assms(2,3) unique_key_eq [of ir_id rows] unfolding owns_def table_ok_def by (metis image_eqI)
  from assms(1) consider "rows' = rows"
    | i f where "pc_id p = Some i" "\<forall>r. ir_id (f r) = ir_id r \<and> ir_key (f r) = ir_key r" "rows' = update_where (\<lambda>r. ir_id r = i) f rows"
    | r where "ir_key r = k'" "rows' = rows @ [r]"
    unfolding row_change_def by blast
  then show ?thesis
  proof cases
    case (2 i f)
    have "\<forall>q\<in>set rows. ir_id q = i \<longrightarrow> ir_key q \<noteq> k" using same [OF assms(4) [OF 2(1)]] by blast
    then show ?thesis using 2(2) unfolding 2(3) set_update_where by (auto simp: image_iff split: if_splits)
  qed (use assms(3) in auto)
qed

fun is_calling :: "rpc \<Rightarrow> bool" where
  "is_calling (Calling i) = True" | "is_calling p = False"

fun answer_of :: "rpc \<Rightarrow> (exn + response) list" where
  "answer_of (Answered i r) = [r]" | "answer_of p = []"

text \<open>How a step of a calm registration under \<open>k\<close> moves: it takes the fresh key, it is answered, or neither.\<close>

definition calm_move :: "string \<Rightarrow> rpc \<Rightarrow> rpc \<Rightarrow> idem_row list \<Rightarrow> idem_row list \<Rightarrow> bool" where
  "calm_move k p p' rows rows' \<longleftrightarrow> calm_pc p' \<and> calm_rows k rows' \<and>
     (is_calling p' \<and> \<not> is_calling p \<and> answer_of p' = [] \<and> \<not> used k rows \<and> used k rows'
      \<or> is_calling p \<and> \<not> is_calling p' \<and> length (answer_of p') = 1 \<and> used k rows' = used k rows
      \<or> \<not> is_calling p \<and> \<not> is_calling p' \<and> answer_of p' = [] \<and> used k rows' = used k rows)"

lemma calm_complete:
  assumes "calm_rows k rows" and "\<forall>r. ir_id (f r) = ir_id r \<and> ir_key (f r) = ir_key r \<and> ir_status (f r) = completed"
  shows "calm_rows k (update_where P f rows)" and "used k (update_where P f rows) = used k rows"
proof -
  show "calm_rows k (update_where P f rows)" using assms by (auto simp: calm_rows_def set_update_where)
  have "used k r \<longleftrightarrow> k \<in> set (map ir_key r)" for r by (auto simp: used_def)
  moreover have "map ir_key (update_where P f rows) = map ir_key rows" using assms(2) by (simp add: map_update_where)
  ultimately show "used k (update_where P f rows) = used k rows" by (simp only:)
qed

lemma step_calm:
  assumes step: "reg_step E net t c p s = (p', s')" and k: "iq_key (rc_request c) = k" "k \<noteq> []"
    and "uuids_ok E" and "table_ok (gw_rows s)" and "calm_pc p" and calm: "calm_rows k (gw_rows s)"
    and own: "\<And>i. pc_id p = Some i \<Longrightarrow> owns k i (gw_rows s)" and good: "\<forall>r\<in>set (answer_of p'). \<not> refused r"
  shows "calm_move k p p' (gw_rows s) (gw_rows s')"
proof (cases p)
  case Started
  then show ?thesis
    using step k calm by (auto simp: calm_move_def calm_pc_def getFromCache_def split: if_splits option.splits)
next
  case Reading
  then have "p' = Read (find_first (\<lambda>r. ir_key r = k) (gw_rows s))" "s' = s" using step k by auto
  moreover have "calm_pc (Read (find_first (\<lambda>r. ir_key r = k) (gw_rows s)))"
  proof (cases "find_first (\<lambda>r. ir_key r = k) (gw_rows s)")
    case None
    show ?thesis unfolding None by (simp add: calm_pc_def)
  next
    case (Some r)
    from find_first_SomeD [OF this] calm show ?thesis unfolding Some by (simp add: calm_pc_def calm_rows_def)
  qed
  ultimately show ?thesis using calm Reading by (simp add: calm_move_def)
next
  case (Read x)
  show ?thesis
  proof (cases x)
    case None
    from step_Read_None [OF step [unfolded Read None] assms(4)] k(1) show ?thesis
      using calm Read None by (auto simp: calm_move_def calm_pc_def calm_rows_def used_def elim: pc_id.elims split: rpc.splits)
  next
    case (Some r)
    from step_Read_Some(2) [OF step [unfolded Read Some]] show ?thesis
      using calm assms(6) Read Some by (auto simp: calm_move_def calm_pc_def)
  qed
next
  case (Calling i)
  then show ?thesis using step good calm by (auto simp: calm_move_def calm_pc_def)
next
  case (Answered i r)
  have i: "i \<noteq> []" "\<exists>q\<in>set (gw_rows s). ir_id q = i"
    using own [of i] k(2) assms(5) Answered by (auto simp: owns_def table_ok_def image_iff)
  obtain x where x: "r = Inr x" "rs_status x < 400"
    using assms(6) Answered by (cases r) (auto simp: calm_pc_def refused_def)
  have "p' = Completed i (rs_data x)"
    and "gw_rows s' = update_where (\<lambda>r. ir_id r = i) (\<lambda>r. r\<lparr>ir_status := completed, ir_responseStatus := Some (rs_status x),
        ir_responseBody := Some (rs_data x)\<rparr>) (gw_rows s)"
    using step i Answered x by (auto simp: markCompleted_def record_update_run)
  then show ?thesis
    using calm_complete [OF calm, of "\<lambda>r. r\<lparr>ir_status := completed, ir_responseStatus := Some (rs_status x),
        ir_responseBody := Some (rs_data x)\<rparr>"] Answered
    by (simp add: calm_move_def calm_pc_def)
next
  case (Completed i d)
  then show ?thesis
    using step calm by (auto simp: calm_move_def calm_pc_def cacheResponse_def setCache_def split: if_splits)
qed (use assms in \<open>auto simp: calm_move_def calm_pc_def\<close>)

lemma race_step_run:
  assumes "j < length cs" and "length (ra_pcs st) = length cs"
    and "reg_step E net t (cs ! j) (ra_pcs st ! j) (ra_gw st) = (p', s')"
  shows "ra_gw (race_step E net cs (j, t) st) = s'"
    and "ra_pcs (race_step E net cs (j, t) st) = (ra_pcs st)[j := p']"
    and "answers cs k (race_step E net cs (j, t) st) = answers cs k st @ (if key_of cs j = k then answer_of p' else [])"
  using assms by (simp_all add: race_step_def answers_def split: rpc.split)

lemma step_answer: "reg_step E net t c p s = (p', s') \<Longrightarrow> answer_of p' \<noteq> [] \<Longrightarrow> is_calling p"
  by (cases "(E, net, t, c, p, s)" rule: reg_step.cases)
    (auto split: prod.splits sum.splits if_splits option.splits)

lemma card_callers:
  assumes "j < length cs" and "length pcs = length cs" and "key_of cs j = k"
  shows "card (callers cs k (pcs[j := p])) + (if is_calling (pcs ! j) then 1 else 0) =
    card (callers cs k pcs) + (if is_calling p then 1 else 0)"
proof -
  have mem: "j \<in> callers cs k pcs \<longleftrightarrow> is_calling (pcs ! j)"
    using assms by (cases "pcs ! j") (auto simp: callers_def)
  have p: "(\<exists>i. p = Calling i) \<longleftrightarrow> is_calling p" by (cases p) auto
  have "0 < card (callers cs k pcs)" if "j \<in> callers cs k pcs" using that by (auto simp: card_gt_0_iff)
  then show ?thesis
    unfolding callers_update [OF assms(1,2)] p using mem assms(3) by (auto simp: card_insert_if)
qed

lemma race_inv_step:
  assumes inv: "race_inv cs k st" and "uuids_ok E" and "k \<noteq> []"
  shows "race_inv cs k (race_step E net cs x st)"
proof (cases x)
  case (Pair j t)
  show ?thesis
  proof (cases "j < length cs")
    case False
    then show ?thesis using inv by (simp add: Pair race_step_def)
  next
    case True
    let ?st = "race_step E net cs (j, t) st" and ?rows = "gw_rows (ra_gw st)"
    let ?p = "ra_pcs st ! j"
    have len: "length (ra_pcs st) = length cs" and tab: "table_ok ?rows"
      and own: "\<And>j i. j < length cs \<Longrightarrow> pc_id (ra_pcs st ! j) = Some i \<Longrightarrow> owns (key_of cs j) i ?rows"
      using inv unfolding race_inv_def by blast+
    obtain p' s' where step: "reg_step E net t (cs ! j) ?p (ra_gw st) = (p', s')" by fastforce
    note run = race_step_run [OF True len step]
    have change: "row_change (key_of cs j) ?p p' ?rows (gw_rows s')"
      unfolding key_of_def by (rule step_rows [OF step assms(2)])
    have own': "owns (key_of cs n) i (gw_rows s')" if "n < length cs" "pc_id ((ra_pcs st)[j := p'] ! n) = Some i" for n i
    proof (cases "n = j \<and> pc_id ?p \<noteq> Some i")
      case True
      then show ?thesis
        using step_pc_id [OF step assms(2), of i] that len unfolding key_of_def by simp
    next
      case False
      then have "pc_id (ra_pcs st ! n) = Some i" using that len by (cases "n = j") auto
      then show ?thesis by (rule row_change_ok(2) [OF change tab own [OF that(1)]])
    qed
    have "calm cs k ?st" if good: "\<forall>r\<in>set (answers cs k ?st). \<not> refused r"
    proof -
      have calm: "calm_rows k ?rows" "\<And>n. n < length cs \<Longrightarrow> key_of cs n = k \<Longrightarrow> calm_pc (ra_pcs st ! n)"
        "card (callers cs k (ra_pcs st)) + length (answers cs k st) \<le> (if used k ?rows then 1 else 0)"
        using inv good unfolding race_inv_def calm_def run by auto
      show ?thesis
      proof (cases "key_of cs j = k")
        case True
        have "calm_move k ?p p' ?rows (gw_rows s')"
          by (rule step_calm [OF step _ assms(3,2) tab calm(2) calm(1)])
            (use True \<open>j < length cs\<close> own good in \<open>auto simp: key_of_def run\<close>)
        note move = this [unfolded calm_move_def]
        have "card (callers cs k ((ra_pcs st)[j := p'])) + (length (answers cs k st) + length (answer_of p'))
            \<le> (if used k (gw_rows s') then 1 else 0)"
          using move calm(3) card_callers [OF \<open>j < length cs\<close> len True, of p'] by (elim conjE disjE) simp_all
        moreover have "calm_pc ((ra_pcs st)[j := p'] ! n)" if "n < length cs" "key_of cs n = k" for n
          using move calm(2) [OF that] that(1) len by (cases "n = j") simp_all
        ultimately show ?thesis using move True unfolding calm_def run by simp
      next
        case False
        have "{r \<in> set (gw_rows s'). ir_key r = k} = {r \<in> set ?rows. ir_key r = k}"
          by (rule row_change_other [OF change tab False]) (rule own [OF \<open>j < length cs\<close>])
        then have "calm_rows k (gw_rows s') = calm_rows k ?rows" "used k (gw_rows s') = used k ?rows"
          unfolding calm_rows_def used_def by blast+
        moreover have "callers cs k ((ra_pcs st)[j := p']) = callers cs k (ra_pcs st)"
          using False by (auto simp: callers_update [OF \<open>j < length cs\<close> len]) (simp add: callers_def)
        moreover have "calm_pc ((ra_pcs st)[j := p'] ! n)" if "n < length cs" "key_of cs n = k" for n
          using calm(2) [OF that] that False by (cases "n = j") simp_all
        ultimately show ?thesis using calm(1,3) False unfolding calm_def run by simp
      qed
    qed
    then show ?thesis
      using row_change_ok(1) [OF change tab] own' len by (simp add: race_inv_def Pair run)
  qed
qed

text \<open>
  C6. One key, one registration: however the registrations of the gateway interleave, under a key that was not
  used before at most one of them reaches the auth service, as long as none under the key is
  refused. A retry is sent only after a refusal.
\<close>
theorem one_execution:
  assumes "table_ok (gw_rows s)" and "uuids_ok E" and "k \<noteq> []" and "\<not> used k (gw_rows s)"
    and "filter refused (answers cs k (race E net cs schedule s)) = []"
  shows "length (answers cs k (race E net cs schedule s)) \<le> 1"
proof -
  have "callers cs k (replicate (length cs) Started) = {}" by (auto simp: callers_def)
  then have start: "race_inv cs k (race E net cs [] s)"
    using assms(1,4) by (auto simp: race_inv_def calm_def calm_rows_def used_def answers_def calm_pc_def)
  have "race_inv cs k (race E net cs schedule s)"
    by (induction schedule rule: rev_induct) (use start in simp, simp only: race_snoc race_inv_step [OF _ assms(2,3)])
  then have "calm cs k (race E net cs schedule s)"
    using assms(5) unfolding race_inv_def by (auto simp: filter_empty_conv)
  then show ?thesis unfolding calm_def by (auto split: if_splits)
qed

text \<open>
  Two retries race: once a registration under a key has failed, two registrations that retry it at the
  same time can both be sent, whatever the auth service answers. Both read the failed record before
  either has marked it as processing, and marking asks for the id alone.
\<close>
theorem retry_race:
  assumes "iq_key (rc_request c) = k" and "k \<noteq> []" and "gw_cache s k = None"
    and "find_first (\<lambda>r. ir_key r = k) (gw_rows s) = Some r" and "ir_status r = failed" and "ir_requestHash r = req_hash E (rc_request c)"
  shows "\<exists>schedule. length (answers [c, c] k (race E net [c, c] schedule s)) = 2"
proof
  have mem: "\<exists>q\<in>set (gw_rows s). ir_id q = ir_id r" using find_first_SomeD [OF assms(4)] by blast
  have mem2: "\<exists>q\<in>set (update_where (\<lambda>q. ir_id q = ir_id r) f (gw_rows s)). ir_id q = ir_id r"
    if "\<And>q. ir_id (f q) = ir_id q" for f
  proof -
    from mem obtain q where "q \<in> set (gw_rows s)" "ir_id q = ir_id r" by blast
    then show ?thesis by (intro bexI [of _ "f q"]) (simp_all add: set_update_where that)
  qed
  let ?schedule = "[(0, 0), (0, 0), (1, 0), (1, 0), (0, 0), (1, 0), (0, 0), (1, 0)]"
  show "length (answers [c, c] k (race E net [c, c] ?schedule s)) = 2"
    using assms mem mem2
    by (simp add: race_def race_step_def answers_def key_of_def getFromCache_def decide_def Let_def andthen_run record_update_run)
qed

section \<open>No key is left processing\<close>

fun holding :: "rpc \<Rightarrow> string \<Rightarrow> bool" where
  "holding (Calling i) d \<longleftrightarrow> d = i"
| "holding (Answered i r) d \<longleftrightarrow> d = i"
| "holding (Failing i e) d \<longleftrightarrow> d = i"
| "holding p d \<longleftrightarrow> False"

text \<open>A step leaves a row processing only if the registration now holds it, or never did.\<close>

lemma step_processing:
  assumes "reg_step E net t c p s = (p', s')" and "q \<in> set (gw_rows s')" and "ir_status q = processing" and "table_ok (gw_rows s)"
  shows "holding p' (ir_id q) \<or> q \<in> set (gw_rows s) \<and> \<not> holding p (ir_id q)"
  using assms
  by (cases "(E, net, t, c, p, s)" rule: reg_step.cases)
    (auto simp: getFromCache_def decide_def Let_def bind_run andthen_run setCache_def record_create_def record_update_run
      markFailed_def markCompleted_def cacheResponse_def set_update_where table_ok_def image_iff
      split: if_splits option.splits prod.splits sum.splits IdempotencyStatus.splits)

text \<open>A step completes a row only with the answer that its registration got.\<close>

lemma step_completed:
  assumes "reg_step E net t c p s = (p', s')" and "q \<in> set (gw_rows s')" and "ir_status q = completed"
  shows "q \<in> set (gw_rows s) \<or> (\<exists>r. p = Answered (ir_id q) (Inr r) \<and> rs_status r < 400
    \<and> ir_responseStatus q = Some (rs_status r) \<and> ir_responseBody q = Some (rs_data r))"
  using assms
  by (cases "(E, net, t, c, p, s)" rule: reg_step.cases)
    (auto simp: getFromCache_def decide_def Let_def bind_run andthen_run setCache_def record_create_def record_update_run
      markFailed_def markCompleted_def cacheResponse_def set_update_where
      split: if_splits option.splits prod.splits sum.splits IdempotencyStatus.splits)

text \<open>
  What holds of every reachable state: a row that is processing is held by a registration that has not
  ended, and a completed one was there before or holds an answer given to a registration under its key.
\<close>

definition answered_from :: "reg_call list \<Rightarrow> 'w race \<Rightarrow> idem_row \<Rightarrow> bool" where
  "answered_from cs st q \<longleftrightarrow> (\<exists>r. Inr r \<in> set (answers cs (ir_key q) st) \<and> rs_status r < 400
     \<and> ir_responseStatus q = Some (rs_status r) \<and> ir_responseBody q = Some (rs_data r))"

definition held_inv :: "reg_call list \<Rightarrow> idem_row list \<Rightarrow> 'w race \<Rightarrow> bool" where
  "held_inv cs rows0 st \<longleftrightarrow> length (ra_pcs st) = length cs \<and> table_ok (gw_rows (ra_gw st))
     \<and> (\<forall>j<length cs. \<forall>i. pc_id (ra_pcs st ! j) = Some i \<longrightarrow> owns (key_of cs j) i (gw_rows (ra_gw st)))
     \<and> (\<forall>j<length cs. \<forall>i r. ra_pcs st ! j = Answered i r \<longrightarrow> r \<in> set (answers cs (key_of cs j) st))
     \<and> (\<forall>q\<in>set (gw_rows (ra_gw st)).
          (ir_status q = processing \<longrightarrow> (\<exists>j<length cs. holding (ra_pcs st ! j) (ir_id q)))
        \<and> (ir_status q = completed \<longrightarrow> q \<in> set rows0 \<or> answered_from cs st q))"

lemma owned_key: "owns k i rows \<Longrightarrow> table_ok rows \<Longrightarrow> q \<in> set rows \<Longrightarrow> ir_id q = i \<Longrightarrow> ir_key q = k"
  using unique_key_eq [of ir_id rows] unfolding owns_def table_ok_def by (metis image_eqI)

lemma held_inv_step:
  assumes inv: "held_inv cs rows0 st" and "uuids_ok E"
  shows "held_inv cs rows0 (race_step E net cs x st)"
proof (cases x)
  case (Pair j t)
  show ?thesis
  proof (cases "j < length cs")
    case False
    then show ?thesis using inv by (simp add: Pair race_step_def)
  next
    case True
    let ?st = "race_step E net cs (j, t) st" and ?rows = "gw_rows (ra_gw st)" and ?p = "ra_pcs st ! j"
    have len: "length (ra_pcs st) = length cs" and tab: "table_ok ?rows"
      and own: "\<And>j i. j < length cs \<Longrightarrow> pc_id (ra_pcs st ! j) = Some i \<Longrightarrow> owns (key_of cs j) i ?rows"
      and logged: "\<And>j i r. j < length cs \<Longrightarrow> ra_pcs st ! j = Answered i r \<Longrightarrow> r \<in> set (answers cs (key_of cs j) st)"
      and held: "\<And>q. q \<in> set ?rows \<Longrightarrow> ir_status q = processing \<Longrightarrow> \<exists>j<length cs. holding (ra_pcs st ! j) (ir_id q)"
      and source: "\<And>q. q \<in> set ?rows \<Longrightarrow> ir_status q = completed \<Longrightarrow> q \<in> set rows0 \<or> answered_from cs st q"
      using inv unfolding held_inv_def by blast+
    obtain p' s' where step: "reg_step E net t (cs ! j) ?p (ra_gw st) = (p', s')" by fastforce
    note run = race_step_run [OF True len step]
    have change: "row_change (key_of cs j) ?p p' ?rows (gw_rows s')"
      unfolding key_of_def by (rule step_rows [OF step assms(2)])
    have tab': "table_ok (gw_rows s')" by (rule row_change_ok(1) [OF change tab])
    have more: "set (answers cs k st) \<subseteq> set (answers cs k ?st)" for k by (auto simp: run)
    have "owns (key_of cs n) i (gw_rows s')" if "n < length cs" "pc_id ((ra_pcs st)[j := p'] ! n) = Some i" for n i
    proof (cases "n = j \<and> pc_id ?p \<noteq> Some i")
      case True
      then show ?thesis using step_pc_id [OF step assms(2), of i] that len unfolding key_of_def by simp
    next
      case False
      then have "pc_id (ra_pcs st ! n) = Some i" using that len by (cases "n = j") auto
      then show ?thesis by (rule row_change_ok(2) [OF change tab own [OF that(1)]])
    qed
    moreover have "r \<in> set (answers cs (key_of cs n) ?st)" if "n < length cs" "(ra_pcs st)[j := p'] ! n = Answered i r" for n i r
      using that logged [of n i r] more [of "key_of cs n"] len by (cases "n = j") (auto simp: run)
    moreover have "\<exists>n<length cs. holding ((ra_pcs st)[j := p'] ! n) (ir_id q)"
      if q: "q \<in> set (gw_rows s')" "ir_status q = processing" for q
      using step_processing [OF step q tab] held [of q] q(2) True len by (metis nth_list_update_eq nth_list_update_neq)
    moreover have "q \<in> set rows0 \<or> answered_from cs ?st q" if q: "q \<in> set (gw_rows s')" "ir_status q = completed" for q
    proof (rule disjE [OF step_completed [OF step q]])
      assume "q \<in> set ?rows"
      then show ?thesis using source [OF _ q(2)] more unfolding answered_from_def by blast
    next
      assume "\<exists>r. ?p = Answered (ir_id q) (Inr r) \<and> rs_status r < 400
        \<and> ir_responseStatus q = Some (rs_status r) \<and> ir_responseBody q = Some (rs_data r)"
      then obtain r where r: "?p = Answered (ir_id q) (Inr r)" "rs_status r < 400"
        "ir_responseStatus q = Some (rs_status r)" "ir_responseBody q = Some (rs_data r)" by blast
      have "owns (key_of cs j) (ir_id q) (gw_rows s')"
        using own [OF True, of "ir_id q"] r(1) row_change_ok(2) [OF change tab] by simp
      then have "ir_key q = key_of cs j" by (rule owned_key [OF _ tab' q(1) refl])
      then show ?thesis using logged [OF True r(1)] more [of "key_of cs j"] r unfolding answered_from_def by auto
    qed
    ultimately show ?thesis using tab' len unfolding held_inv_def Pair run by simp
  qed
qed

text \<open>
  C27. No key is left processing, which would refuse it for good: however registrations interleave and
  whatever the network answers, if no record was processing before, then once each has taken its steps every record is failed, and can be
  retried, or completed; and a record that was not completed before holds the status and body of an
  answer of the auth service below 400 to a registration under its key.
\<close>
theorem no_key_stuck:
  assumes "table_ok (gw_rows s)" and "uuids_ok E" and "filter (\<lambda>r. ir_status r = processing) (gw_rows s) = []"
    and "list_all (\<lambda>j. 6 \<le> length (filter (\<lambda>x. fst x = j) schedule)) [0..<length cs]"
    and "q \<in> set (gw_rows (ra_gw (race E net cs schedule s)))"
  shows "ir_status q = failed \<or> ir_status q = completed \<and> (q \<in> set (gw_rows s) \<or> answered_from cs (race E net cs schedule s) q)"
proof -
  have "held_inv cs (gw_rows s) (race E net cs [] s)"
    using assms(1,3) by (auto simp: held_inv_def filter_empty_conv)
  then have "held_inv cs (gw_rows s) (race E net cs schedule s)"
    by (induction schedule rule: rev_induct) (simp, simp only: race_snoc held_inv_step [OF _ assms(2)])
  moreover have "\<not> holding (ra_pcs (race E net cs schedule s) ! j) d" if "j < length cs" for j d
    using register_ends [OF that, of schedule E net s] assms(4) that by (auto simp: list_all_iff)
  ultimately show ?thesis using assms(5) unfolding held_inv_def by (cases "ir_status q") blast+
qed

section \<open>Witnesses\<close>

definition call0 :: reg_call where
  "call0 = \<lparr>rc_dto = dto0, rc_requestId = ''r'', rc_path = ''/p'', rc_key = Some ''k''\<rparr>"

text \<open>Two overlapping registrations under one key: afterwards the record holds the answer.\<close>

definition both :: "(nat \<times> int) list" where
  "both = [(0, 1), (1, 1), (0, 2), (1, 2), (0, 3), (1, 3), (0, 4), (1, 4), (0, 5), (1, 5), (0, 6), (1, 6)]"

theorem no_key_stuck_witness:
  "list_ex (\<lambda>q. ir_key q = ''k'' \<and> (ir_status q = failed \<or> ir_status q = completed
      \<and> (q \<in> set (gw_rows gw_state0) \<or> answered_from [call0, call0] (race gw_env0 up_net [call0, call0] both gw_state0) q)))
    (gw_rows (ra_gw (race gw_env0 up_net [call0, call0] both gw_state0)))"
proof -
  have "list_ex (\<lambda>q. ir_key q = ''k'') (gw_rows (ra_gw (race gw_env0 up_net [call0, call0] both gw_state0)))" by code_simp
  then obtain q where q: "q \<in> set (gw_rows (ra_gw (race gw_env0 up_net [call0, call0] both gw_state0)))" "ir_key q = ''k''"
    by (auto simp: list_ex_iff)
  have "table_ok (gw_rows gw_state0)" by (simp add: table_ok_def)
  moreover have "filter (\<lambda>r. ir_status r = processing) (gw_rows gw_state0) = []" by code_simp
  moreover have "list_all (\<lambda>j. 6 \<le> length (filter (\<lambda>x. fst x = j) both)) [0..<length [call0, call0]]" by code_simp
  ultimately show ?thesis
    using no_key_stuck [OF _ _ _ _ q(1)] q by (auto simp: list_ex_iff)
qed

text \<open>Two overlapping registrations under one key: the second is told to wait, the first is sent.\<close>

theorem one_execution_witness:
  "length (answers [call0, call0] ''k'' (race gw_env0 up_net [call0, call0]
     [(0, 1), (1, 1), (0, 2), (1, 2), (0, 3), (1, 3), (0, 4), (1, 4), (0, 5), (1, 5), (0, 6), (1, 6)] gw_state0)) \<le> 1"
  by (rule one_execution) (simp add: table_ok_def, simp, simp, simp add: used_def, code_simp)

theorem retry_race_witness:
  "\<exists>schedule. length (answers [call0, call0] ''k'' (race gw_env0 up_net [call0, call0] schedule
     (gw_state0\<lparr>gw_rows := [gw_row failed]\<rparr>))) = 2"
  by (rule retry_race [where r = "gw_row failed"])
    (simp_all add: call0_def gw_state0_def register_request_def)

end
