(* ===== verification/Pagination.thy ===== *)
theory Pagination
  imports Errors Complex_Main
begin

text \<open>
  Pages of a list: \<open>packages/common/src/pagination/pagination.helper.ts\<close>, and the way
  \<open>notification.service.ts\<close> reads page and limit from query strings with \<open>Number\<close>. A JavaScript
  number is \<open>NaN\<close>, an infinity or a rational; the rounding of doubles is left out.
\<close>

section \<open>\<open>Number\<close> of a string\<close>

datatype js_num = NaN | PosInf | NegInf | Num rat

definition pow10 :: "int \<Rightarrow> rat" where
  "pow10 e = (if 0 \<le> e then 10 ^ nat e else 1 / 10 ^ nat (- e))"

text \<open>The exponent part of a literal: absent, or \<open>e\<close> with an optional sign and digits.\<close>

definition exponent :: "string \<Rightarrow> int option" where
  "exponent s = (case s of [] \<Rightarrow> Some 0
     | c # r \<Rightarrow>
        if c \<noteq> CHR ''e'' \<and> c \<noteq> CHR ''E'' then None
        else (let neg = (r \<noteq> [] \<and> hd r = CHR ''-'');
                  ds = (if r \<noteq> [] \<and> hd r \<in> {CHR ''-'', CHR ''+''} then tl r else r)
              in if ds = [] \<or> \<not> list_all is_digit ds then None
                 else Some (if neg then - int (digits_val ds) else int (digits_val ds))))"

definition unsigned_decimal :: "string \<Rightarrow> rat option" where
  "unsigned_decimal s =
     (let ip = takeWhile is_digit s;
          r = dropWhile is_digit s;
          dot = (r \<noteq> [] \<and> hd r = CHR ''.'');
          fp = (if dot then takeWhile is_digit (tl r) else []);
          r' = (if dot then dropWhile is_digit (tl r) else r)
      in if ip = [] \<and> fp = [] then None
         else map_option (\<lambda>e. of_nat (digits_val (ip @ fp)) * pow10 (e - int (length fp))) (exponent r'))"

text \<open>Literals with a radix prefix take no sign.\<close>

definition radix_value :: "nat \<Rightarrow> string \<Rightarrow> nat option" where
  "radix_value b ds = (if ds = [] then None
     else foldl (\<lambda>a c. case (a, hex_val (lower_char c)) of
            (Some n, Some d) \<Rightarrow> if d < b then Some (b * n + d) else None | _ \<Rightarrow> None) (Some 0) ds)"

definition radix_of :: "string \<Rightarrow> nat option" where
  "radix_of s = (if \<not> (2 \<le> length s \<and> s ! 0 = CHR ''0'') then None
     else (let c = lower_char (s ! 1) in if c = CHR ''x'' then Some 16
           else if c = CHR ''o'' then Some 8 else if c = CHR ''b'' then Some 2 else None))"

definition toNumber :: "string \<Rightarrow> js_num" where
  "toNumber str =
     (let s = trim str
      in if s = [] then Num 0
         else (case radix_of s of
             Some b \<Rightarrow> (case radix_value b (drop 2 s) of None \<Rightarrow> NaN | Some n \<Rightarrow> Num (of_nat n))
           | None \<Rightarrow>
              (let neg = (hd s = CHR ''-'');
                   u = (if hd s \<in> {CHR ''-'', CHR ''+''} then tl s else s)
               in if u = ''Infinity'' then (if neg then NegInf else PosInf)
                  else (case unsigned_decimal u of None \<Rightarrow> NaN
                    | Some q \<Rightarrow> Num (if neg then - q else q)))))"

text \<open>\<open>x || d\<close>, \<open>Math.max\<close> with 1, \<open>Math.min\<close> with 100.\<close>

definition num_or :: "js_num \<Rightarrow> js_num \<Rightarrow> js_num" where
  "num_or x d = (if x = NaN \<or> x = Num 0 then d else x)"

definition max_1 :: "js_num \<Rightarrow> js_num" where
  "max_1 x = (case x of NaN \<Rightarrow> NaN | PosInf \<Rightarrow> PosInf | NegInf \<Rightarrow> Num 1 | Num q \<Rightarrow> Num (max 1 q))"

definition min_100 :: "js_num \<Rightarrow> js_num" where
  "min_100 x = (case x of NaN \<Rightarrow> NaN | PosInf \<Rightarrow> Num 100 | NegInf \<Rightarrow> NegInf | Num q \<Rightarrow> Num (min 100 q))"

definition query_page :: "string option \<Rightarrow> js_num" where
  "query_page raw = max_1 (num_or (case raw of None \<Rightarrow> Num 1 | Some s \<Rightarrow> toNumber s) (Num 1))"

definition query_limit :: "string option \<Rightarrow> js_num" where
  "query_limit raw = min_100 (max_1 (num_or (case raw of None \<Rightarrow> Num 20 | Some s \<Rightarrow> toNumber s) (Num 20)))"

text \<open>\<open>(page - 1) * limit\<close>, for a page of at least 1 and a limit between 1 and 100.\<close>

definition query_skip :: "js_num \<Rightarrow> js_num \<Rightarrow> js_num" where
  "query_skip page limit = (case (page, limit) of (Num p, Num l) \<Rightarrow> Num ((p - 1) * l) | (NaN, _) \<Rightarrow> NaN | (_, NaN) \<Rightarrow> NaN
     | _ \<Rightarrow> PosInf)"

lemma query_page_range: "query_page raw = PosInf \<or> (\<exists>p. query_page raw = Num p \<and> 1 \<le> p)"
  by (cases raw) (auto simp: query_page_def max_1_def num_or_def split: js_num.split)

lemma query_limit_range: "\<exists>l. query_limit raw = Num l \<and> 1 \<le> l \<and> l \<le> 100"
  by (cases raw) (auto simp: query_limit_def max_1_def min_100_def num_or_def split: js_num.split)

section \<open>\<open>parsePagination\<close>\<close>

text \<open>The DTO after validation: integers, \<open>page\<close> and \<open>per_page\<close> at least 1, \<open>_start\<close> and \<open>_end\<close> at least 0.\<close>

record pagination_dto =
  pg_page :: "int option"
  pg_perPage :: "int option"
  pg_start :: "int option"
  pg_end :: "int option"
  pg_sort :: "string option"
  pg_order :: "string option"
  pg_filter :: "string option"

record pagination_options =
  po_page :: int
  po_limit :: int
  po_skip :: int
  po_sort :: "(string \<times> string) list"
  po_filter :: json

definition or_int :: "int option \<Rightarrow> int \<Rightarrow> int" where
  "or_int v d = (if nullish v 0 = 0 then d else nullish v 0)"

definition start_error :: "int \<Rightarrow> int \<Rightarrow> exn" where
  "start_error s e = ServiceErr (service_error_new (Some (code_str VALIDATION_ERROR)) (Some 400)
     (''Invalid pagination params: _end ('' @ show_int e @ '') must be greater than _start ('' @ show_int s @ '')'')
     (Some (JObj [(''_start'', JNum s), (''_end'', JNum e)])) None)"

text \<open>\<open>json_error\<close>: the message of the exception \<open>JSON.parse\<close> throws.\<close>

definition filter_error :: "(string \<Rightarrow> string) \<Rightarrow> string \<Rightarrow> exn" where
  "filter_error json_error f = ServiceErr (service_error_new (Some (code_str VALIDATION_ERROR)) (Some 400)
     (''Invalid filter format: '' @ json_error f @ ''. Provided value: '' @ f)
     (Some (JObj [(''filter'', JStr f)])) None)"

definition page_limit :: "pagination_dto \<Rightarrow> exn + int \<times> int" where
  "page_limit dto = (case (pg_start dto, pg_end dto) of
     (Some s, Some e) \<Rightarrow>
        if e \<le> s then Inl (start_error s e)
        else Inr (s div (e - s) + 1, e - s)
   | _ \<Rightarrow> Inr (or_int (pg_page dto) 1, or_int (pg_perPage dto) 10))"

definition parse_filter :: "(string \<Rightarrow> string) \<Rightarrow> string option \<Rightarrow> exn + json" where
  "parse_filter json_error f =
     (if \<not> truthy f then Inr (JObj [])
      else (case json_parse (nullish f []) of
          None \<Rightarrow> Inl (filter_error json_error (nullish f []))
        | Some j \<Rightarrow> (case j of JObj _ \<Rightarrow> Inr j | JArr _ \<Rightarrow> Inr j | _ \<Rightarrow> Inr (JObj []))))"

definition parsePagination :: "(string \<Rightarrow> string) \<Rightarrow> pagination_dto \<Rightarrow> exn + pagination_options" where
  "parsePagination json_error dto = (case page_limit dto of
     Inl e \<Rightarrow> Inl e
   | Inr (page, limit) \<Rightarrow> (case parse_filter json_error (pg_filter dto) of
        Inl e \<Rightarrow> Inl e
      | Inr f \<Rightarrow> Inr \<lparr>po_page = page, po_limit = limit, po_skip = (page - 1) * limit,
           po_sort = (if truthy (pg_sort dto)
             then [(nullish (pg_sort dto) [], if pg_order dto = Some ''DESC'' then ''DESC'' else ''ASC'')] else []),
           po_filter = f\<rparr>))"

text \<open>What validation leaves.\<close>

definition pagination_valid :: "pagination_dto \<Rightarrow> bool" where
  "pagination_valid dto \<longleftrightarrow> (\<forall>n. pg_page dto = Some n \<longrightarrow> 1 \<le> n) \<and> (\<forall>n. pg_perPage dto = Some n \<longrightarrow> 1 \<le> n)
     \<and> (\<forall>n. pg_start dto = Some n \<longrightarrow> 0 \<le> n) \<and> (\<forall>n. pg_end dto = Some n \<longrightarrow> 0 \<le> n)"

text \<open>
  The options are usable whatever the validated query: page and limit are at least 1 and
  nothing negative is skipped. A window from \<open>_start\<close> to \<open>_end\<close> is read with the right number of rows,
  but from a multiple of that number: it begins at \<open>_start\<close> exactly when the size divides it, and
  otherwise begins before it and misses rows at the end.
\<close>
theorem pagination_window:
  assumes "pagination_valid dto" and "parsePagination je dto = Inr po"
  shows "1 \<le> po_page po \<and> 1 \<le> po_limit po \<and> 0 \<le> po_skip po
    \<and> (\<forall>s e. pg_start dto = Some s \<and> pg_end dto = Some e \<longrightarrow>
        po_limit po = e - s \<and> po_skip po \<le> s \<and> s < po_skip po + po_limit po
      \<and> (po_skip po = s \<longleftrightarrow> po_limit po dvd s))"
proof -
  obtain page limit f where pl: "page_limit dto = Inr (page, limit)"
    and po: "po_page po = page" "po_limit po = limit" "po_skip po = (page - 1) * limit"
    using assms(2) by (auto simp: parsePagination_def split: sum.splits prod.splits)
  show ?thesis
  proof (cases "pg_start dto \<noteq> None \<and> pg_end dto \<noteq> None")
    case True
    then obtain s e where se: "pg_start dto = Some s" "pg_end dto = Some e" by auto
    with pl have lt: "s < e" and p: "page = s div (e - s) + 1" "limit = e - s"
      by (auto simp: page_limit_def split: if_splits)
    have s0: "0 \<le> s" using assms(1) se unfolding pagination_valid_def by blast
    have d: "s div (e - s) * (e - s) + s mod (e - s) = s" by (rule div_mult_mod_eq)
    have m: "0 \<le> s mod (e - s)" "s mod (e - s) < e - s" using lt by simp_all
    have q: "0 \<le> s div (e - s)" using s0 lt by (simp add: pos_imp_zdiv_nonneg_iff)
    have "(s div (e - s) * (e - s) = s) = ((e - s) dvd s)" by (metis d add.right_neutral dvd_div_mult_self dvd_triv_right)
    then show ?thesis using lt m q d by (simp add: po p se)
  next
    case False
    then have "page = or_int (pg_page dto) 1" "limit = or_int (pg_perPage dto) 10"
      using pl by (auto simp: page_limit_def split: option.splits)
    moreover have "1 \<le> or_int (pg_page dto) 1" "1 \<le> or_int (pg_perPage dto) 10"
      using assms(1) by (cases "pg_page dto"; cases "pg_perPage dto"; auto simp: or_int_def pagination_valid_def)+
    ultimately show ?thesis using False by (auto simp: po)
  qed
qed

lemma pagination_window_witness:
  "\<exists>po. parsePagination id \<lparr>pg_page = None, pg_perPage = None, pg_start = Some 5, pg_end = Some 15, pg_sort = None,
      pg_order = None, pg_filter = None\<rparr> = Inr po \<and> po_skip po \<noteq> 5"
proof -
  let ?d = "\<lparr>pg_page = None, pg_perPage = None, pg_start = Some 5, pg_end = Some 15, pg_sort = None, pg_order = None, pg_filter = None\<rparr>"
  obtain po where po: "parsePagination id ?d = Inr po"
    by (simp add: parsePagination_def page_limit_def parse_filter_def)
  have "po_limit po = 10 \<and> (po_skip po = 5 \<longleftrightarrow> po_limit po dvd 5)"
    using pagination_window [OF _ po] by (simp add: pagination_valid_def)
  then show ?thesis using po by auto
qed

end
