(* ===== verification/Redis.thy ===== *)
theory Redis
  imports Json
begin

text \<open>
  The keyspace the services share on one Redis server, with the commands the sources send, as
  their documentation gives them: a key holds a counter or a hash, with an optional expiry. A
  key is gone once its expiry is past. \<open>INCR\<close> on a missing key stores 1 without an expiry and
  otherwise keeps the expiry; \<open>PEXPIRE\<close> with a time that is not positive deletes the key;
  \<open>PTTL\<close> is -2 for a missing key and -1 for one without expiry. A command on a key of the
  other type fails (\<open>Inl\<close>).
\<close>

datatype rval = RCount int | RHash "string \<rightharpoonup> string"

type_synonym redis = "string \<rightharpoonup> (rval \<times> int option)"

definition rlive :: "int \<Rightarrow> string \<Rightarrow> redis \<Rightarrow> (rval \<times> int option) option" where
  "rlive t k r = (case r k of None \<Rightarrow> None
     | Some (v, x) \<Rightarrow> (case x of None \<Rightarrow> Some (v, x) | Some e \<Rightarrow> if e < t then None else Some (v, x)))"

definition WRONGTYPE :: string where
  "WRONGTYPE = ''WRONGTYPE Operation against a key holding the wrong kind of value''"

definition redis_get :: "int \<Rightarrow> string \<Rightarrow> redis \<Rightarrow> string + int option" where
  "redis_get t k r = (case rlive t k r of None \<Rightarrow> Inr None
     | Some (RCount c, _) \<Rightarrow> Inr (Some c) | Some (RHash _, _) \<Rightarrow> Inl WRONGTYPE)"

definition redis_incr :: "int \<Rightarrow> string \<Rightarrow> redis \<Rightarrow> string + int \<times> redis" where
  "redis_incr t k r = (case rlive t k r of None \<Rightarrow> Inr (1, r(k \<mapsto> (RCount 1, None)))
     | Some (RCount c, x) \<Rightarrow> Inr (c + 1, r(k \<mapsto> (RCount (c + 1), x)))
     | Some (RHash _, _) \<Rightarrow> Inl WRONGTYPE)"

definition redis_pexpire :: "int \<Rightarrow> string \<Rightarrow> int \<Rightarrow> redis \<Rightarrow> redis" where
  "redis_pexpire t k ms r = (case rlive t k r of None \<Rightarrow> r
     | Some (v, _) \<Rightarrow> if ms \<le> 0 then r(k := None) else r(k \<mapsto> (v, Some (t + ms))))"

definition redis_pttl :: "int \<Rightarrow> string \<Rightarrow> redis \<Rightarrow> int" where
  "redis_pttl t k r = (case rlive t k r of None \<Rightarrow> - 2
     | Some (_, None) \<Rightarrow> - 1 | Some (_, Some e) \<Rightarrow> e - t)"

definition redis_del :: "string \<Rightarrow> redis \<Rightarrow> redis" where
  "redis_del k r = r(k := None)"

definition redis_exists :: "int \<Rightarrow> string \<Rightarrow> redis \<Rightarrow> bool" where
  "redis_exists t k r \<longleftrightarrow> rlive t k r \<noteq> None"

definition redis_hset :: "int \<Rightarrow> string \<Rightarrow> (string \<times> string) list \<Rightarrow> redis \<Rightarrow> string + redis" where
  "redis_hset t k fs r = (case rlive t k r of
       None \<Rightarrow> Inr (r(k \<mapsto> (RHash (map_of (rev fs)), None)))
     | Some (RHash h, x) \<Rightarrow> Inr (r(k \<mapsto> (RHash (h ++ map_of (rev fs)), x)))
     | Some (RCount _, _) \<Rightarrow> Inl WRONGTYPE)"

definition redis_hgetall :: "int \<Rightarrow> string \<Rightarrow> redis \<Rightarrow> string + (string \<rightharpoonup> string)" where
  "redis_hgetall t k r = (case rlive t k r of None \<Rightarrow> Inr Map.empty
     | Some (RHash h, _) \<Rightarrow> Inr h | Some (RCount _, _) \<Rightarrow> Inl WRONGTYPE)"

definition redis_flushall :: redis where
  "redis_flushall = Map.empty"

lemma rlive_cong: "r k = r' k \<Longrightarrow> rlive t k r = rlive t k r'"
  by (simp add: rlive_def)

lemma rlive_upd [simp]:
  "rlive t k (r(k \<mapsto> (v, None))) = Some (v, None)"
  "rlive t k (r(k \<mapsto> (v, Some e))) = (if e < t then None else Some (v, Some e))"
  "rlive t k (r(k := None)) = None"
  "k' \<noteq> k \<Longrightarrow> rlive t k (r(k' := u)) = rlive t k r"
  by (simp_all add: rlive_def)

lemma rlive_None [simp]: "r k = None \<Longrightarrow> rlive t k r = None"
  by (simp add: rlive_def)

text \<open>A command on one key leaves the others alone.\<close>

lemma redis_frame:
  "redis_incr t k' r = Inr (c, r') \<Longrightarrow> k \<noteq> k' \<Longrightarrow> r' k = r k"
  "k \<noteq> k' \<Longrightarrow> redis_pexpire t k' ms r k = r k"
  "k \<noteq> k' \<Longrightarrow> redis_del k' r k = r k"
  "redis_hset t k' fs r = Inr r' \<Longrightarrow> k \<noteq> k' \<Longrightarrow> r' k = r k"
  by (auto simp: redis_incr_def redis_pexpire_def redis_del_def redis_hset_def
      split: option.splits prod.splits rval.splits)

end
