(* ===== verification/Permission.thy ===== *)
theory Permission
  imports Redis Errors
begin

text \<open>
  \<open>packages/common/src/permission\<close>: the permission cache on Redis (\<open>cache_get\<close>, \<open>cache_set\<close>,
  \<open>cache_invalidate\<close>, \<open>updatePermVersion\<close>), the provider that reads through it to the auth
  service (\<open>getPermissions\<close>), and the two guards (\<open>canActivate_perm\<close>, \<open>canActivate_token_type\<close>).

  What the provider needs of the cache is the locale \<open>versioned_cache\<close>; the Redis cache is its
  instance. The reply of the auth service is a parameter. \<open>t\<close> is the server's clock.
\<close>

section \<open>The cache\<close>

type_synonym 'a cached = "(redis, exn, 'a) prog"

definition cacheKey :: "string \<Rightarrow> string" where
  "cacheKey userId = ''permissions:user:'' @ userId @ '':''"

definition redis_result :: "string + 'a \<Rightarrow> exn + 'a" where
  "redis_result x = (case x of Inl m \<Rightarrow> Inl (PlainErr m) | Inr y \<Rightarrow> Inr y)"

definition cache_set :: "int \<Rightarrow> string \<Rightarrow> int \<Rightarrow> string list \<Rightarrow> unit cached" where
  "cache_set t userId permVersion permissions = (\<lambda>r.
     case redis_hset t (cacheKey userId)
        [(''permVersion'', show_int permVersion),
         (''permissions'', stringify (JArr (map JStr permissions)))] r of
       Inl m \<Rightarrow> (Inl (PlainErr m), r) | Inr r' \<Rightarrow> (Inr (), r'))"

text \<open>Only \<open>cache_set\<close> writes the list, so what is read back is an array of strings.\<close>

definition json_strings :: "json \<Rightarrow> string list" where
  "json_strings j = (case j of JArr xs \<Rightarrow> map to_str xs | _ \<Rightarrow> [])"

definition cached_permissions :: "(string \<rightharpoonup> string) \<Rightarrow> int \<Rightarrow> string list" where
  "cached_permissions cached permVersion =
     (if cached = Map.empty \<or> cached ''permVersion'' \<noteq> Some (show_int permVersion)
         \<or> \<not> truthy (cached ''permissions'') then []
      else (case json_parse (nullish (cached ''permissions'') []) of
          None \<Rightarrow> [] | Some data \<Rightarrow> json_strings data))"

definition cache_get :: "int \<Rightarrow> string \<Rightarrow> int \<Rightarrow> string list cached" where
  "cache_get t userId permVersion =
     bind (\<lambda>r. (redis_result (redis_hgetall t (cacheKey userId) r), r))
       (\<lambda>cached. ret (cached_permissions cached permVersion))"

definition cache_invalidate :: "string \<Rightarrow> unit cached" where
  "cache_invalidate userId = modify (redis_del (cacheKey userId))"

definition updatePermVersion :: "int \<Rightarrow> string \<Rightarrow> int \<Rightarrow> unit cached" where
  "updatePermVersion t userId permVersion =
     bind (gets (redis_exists t (cacheKey userId)))
       (\<lambda>ex. whenp ex (cache_set t userId permVersion []))"

definition cache_clear :: "unit cached" where
  "cache_clear = modify (\<lambda>_. redis_flushall)"

section \<open>The provider\<close>

text \<open>What the call of the auth service gave: a response, or the way it failed.\<close>

datatype auth_reply =
    Reply int string "json option"
  | ConnRefused string
  | ErrResponse int
  | NoResponse string
  | OtherFailure string

definition SERVICE_UNAVAILABLE :: int where "SERVICE_UNAVAILABLE = 503"

definition fetch_permissions :: "auth_reply \<Rightarrow> exn + string list" where
  "fetch_permissions reply = (case reply of
     Reply st text data \<Rightarrow>
       (if st \<noteq> 200 then
          Inl (HttpException_str (''Auth Service error: '' @ show_int st @ '' '' @ text) SERVICE_UNAVAILABLE)
        else (case data of
            Some (JArr xs) \<Rightarrow> Inr (json_strings (JArr xs))
          | _ \<Rightarrow> Inl (HttpException_str ''Invalid response format from Auth Service'' SERVICE_UNAVAILABLE)))
   | ConnRefused m \<Rightarrow> Inl (HttpException_str ''Auth Service is unavailable'' SERVICE_UNAVAILABLE)
   | ErrResponse st \<Rightarrow>
       Inl (HttpException_str (''Auth Service returned error: '' @ show_int st) SERVICE_UNAVAILABLE)
   | NoResponse m \<Rightarrow> Inl (HttpException_str ''Network error when fetching permissions'' SERVICE_UNAVAILABLE)
   | OtherFailure m \<Rightarrow> Inl (HttpException_str ''Failed to fetch permissions'' 500))"

definition provider_error :: "exn \<Rightarrow> exn" where
  "provider_error e =
     (if is_http_exception e then e else HttpException_str ''Failed to fetch permissions'' 500)"

definition getPermissions ::
  "int \<Rightarrow> (string \<Rightarrow> auth_reply) \<Rightarrow> string \<Rightarrow> int \<Rightarrow> string list cached" where
  "getPermissions t auth userId permVersion =
     bind (cache_get t userId permVersion) (\<lambda>cached.
       if cached \<noteq> [] then ret cached
       else catchp
         (bind (lift (fetch_permissions (auth userId))) (\<lambda>permissions.
            andthen (cache_set t userId permVersion permissions) (ret permissions)))
         (\<lambda>e. throw (provider_error e)))"

definition hasPermission :: "string list \<Rightarrow> string list \<Rightarrow> bool" where
  "hasPermission userPermissions required = list_ex (\<lambda>p. p \<in> set userPermissions) required"

definition invalidateUserCache :: "string \<Rightarrow> unit cached" where
  "invalidateUserCache userId = cache_invalidate userId"

section \<open>The guards\<close>

text \<open>
  \<open>request.user\<close> as the authentication guards leave it: \<open>None\<close> is an absent property.
  \<open>rdata\<close> are the \<open>userId\<close> and \<open>permVersion\<close> of \<open>request.user.data\<close>. Tokens carry
  \<open>permVersion\<close> as a number.
\<close>

record req_user =
  usr_type :: "string option"
  usr_id :: "string option"
  usr_userId :: "string option"
  usr_permVersion :: "int option"
  usr_caller :: "string option"
  usr_data_userId :: "string option"
  usr_data_permVersion :: "int option"

definition no_user :: req_user where
  "no_user = \<lparr>usr_type = None, usr_id = None, usr_userId = None, usr_permVersion = None,
     usr_caller = None, usr_data_userId = None, usr_data_permVersion = None\<rparr>"

definition guard_userId :: "req_user \<Rightarrow> string option" where
  "guard_userId u = (case usr_userId u of Some x \<Rightarrow> Some x | None \<Rightarrow> usr_data_userId u)"

definition guard_permVersion :: "req_user \<Rightarrow> int option" where
  "guard_permVersion u = (if nullish (usr_permVersion u) 0 \<noteq> 0 then usr_permVersion u
     else usr_data_permVersion u)"

definition insufficient :: "string list \<Rightarrow> exn" where
  "insufficient required =
     ForbiddenException (''Insufficient permissions. Required: ['' @ join '', '' required @ '']'')"

text \<open>
  The guard lets the request pass (\<open>Inr\<close>) or throws. The value is what it attaches as
  \<open>request.userPermissions\<close>, if anything.
\<close>

definition canActivate_perm ::
  "int \<Rightarrow> (string \<Rightarrow> auth_reply) \<Rightarrow> bool \<Rightarrow> string list option \<Rightarrow> req_user \<Rightarrow> string list option cached" where
  "canActivate_perm t auth isPublic required user =
     (if isPublic then ret None
      else (case required of None \<Rightarrow> ret None
        | Some req \<Rightarrow>
           if req = [] then ret None
           else if usr_type user = Some ''internal'' then ret None
           else (case (guard_userId user, guard_permVersion user) of
               (Some userId, Some permVersion) \<Rightarrow>
                 if userId = [] then throw (ForbiddenException ''Missing user context for permission check'')
                 else bind (getPermissions t auth userId permVersion) (\<lambda>perms.
                   if hasPermission perms req then ret (Some perms) else throw (insufficient req))
             | _ \<Rightarrow> throw (ForbiddenException ''Missing user context for permission check''))))"

definition canActivate_token_type :: "bool \<Rightarrow> string option \<Rightarrow> string option \<Rightarrow> exn + bool" where
  "canActivate_token_type isPublic requiredType actualType =
     (if isPublic then Inr True
      else (case requiredType of None \<Rightarrow> Inr True
        | Some rt \<Rightarrow>
           if \<not> truthy actualType \<or> actualType \<noteq> Some rt
           then Inl (ForbiddenException ''Invalid token type for this endpoint'')
           else Inr True))"

section \<open>What the provider needs of a cache\<close>

locale versioned_cache =
  fixes inv :: "'s \<Rightarrow> bool"
    and cget :: "string \<Rightarrow> int \<Rightarrow> ('s, exn, string list) prog"
    and cset :: "string \<Rightarrow> int \<Rightarrow> string list \<Rightarrow> ('s, exn, unit) prog"
    and cbump :: "string \<Rightarrow> int \<Rightarrow> ('s, exn, unit) prog"
  assumes get_total: "inv s \<Longrightarrow> \<exists>ps. cget u v s = (Inr ps, s)"
    and set_total: "inv s \<Longrightarrow> \<exists>s'. cset u v ps s = (Inr (), s') \<and> inv s'"
    and bump_total: "inv s \<Longrightarrow> \<exists>s'. cbump u v s = (Inr (), s') \<and> inv s'"
    and get_set: "inv s \<Longrightarrow> cset u v ps s = (x, s') \<Longrightarrow>
      fst (cget u v' s') = Inr (if v' = v then ps else [])"
    and get_set_other: "inv s \<Longrightarrow> cset u v ps s = (x, s') \<Longrightarrow> u' \<noteq> u \<Longrightarrow>
      fst (cget u' v' s') = fst (cget u' v' s)"
    and get_bump: "inv s \<Longrightarrow> cbump u v s = (x, s') \<Longrightarrow> fst (cget u v' s') = Inr []"
begin

text \<open>Reading through the cache, with the outcome of the fetch given.\<close>

definition read_through :: "exn + string list \<Rightarrow> string \<Rightarrow> int \<Rightarrow> ('s, exn, string list) prog" where
  "read_through fetched u v =
     bind (cget u v) (\<lambda>cached. if cached \<noteq> [] then ret cached
       else catchp (bind (lift fetched) (\<lambda>ps. andthen (cset u v ps) (ret ps)))
              (\<lambda>e. throw (provider_error e)))"

lemma hit: "inv s \<Longrightarrow> fst (cget u v s) = Inr ps \<Longrightarrow> ps \<noteq> [] \<Longrightarrow> read_through f u v s = (Inr ps, s)"
  using get_total [of s u v] by (auto simp: read_through_def bind_run)

lemma miss:
  assumes "inv s" and "fst (cget u v s) = Inr []"
  shows "\<exists>s'. inv s' \<and> read_through (Inr ps) u v s = (Inr ps, s') \<and> cset u v ps s = (Inr (), s')"
  using get_total [OF assms(1), of u v] set_total [OF assms(1), of u v ps] assms(2)
  by (auto simp: read_through_def bind_run andthen_run catchp_run)

lemma miss_error:
  "inv s \<Longrightarrow> fst (cget u v s) = Inr [] \<Longrightarrow> read_through (Inl e) u v s = (Inl (provider_error e), s)"
  using get_total [of s u v] by (auto simp: read_through_def bind_run catchp_run)

text \<open>After a bump nothing of the user's entry is served any more: the next read is a fetch.\<close>

lemma bump_forces_fetch:
  assumes "inv s" and "cbump u w s = (x, s')"
  shows "fst (read_through f u v s') = (case f of Inl e \<Rightarrow> Inl (provider_error e) | Inr ps \<Rightarrow> Inr ps)"
proof -
  have s': "inv s'" using bump_total [OF assms(1), of u w] assms(2) by auto
  have g: "fst (cget u v s') = Inr []" by (rule get_bump [OF assms])
  show ?thesis
  proof (cases f)
    case (Inl e)
    with miss_error [OF s' g] show ?thesis by simp
  next
    case (Inr ps)
    with miss [OF s' g, of ps] show ?thesis by auto
  qed
qed

end

section \<open>The Redis cache keeps the contract\<close>

text \<open>Every entry of the cache is a hash without expiry.\<close>

definition perm_ok :: "redis \<Rightarrow> bool" where
  "perm_ok r \<longleftrightarrow> (\<forall>u. case r (cacheKey u) of None \<Rightarrow> True | Some (RHash h, None) \<Rightarrow> True | _ \<Rightarrow> False)"

lemma cacheKey_inject [simp]: "cacheKey u = cacheKey u' \<longleftrightarrow> u = u'"
  by (simp add: cacheKey_def)

lemma show_int_inject [simp]: "show_int m = show_int n \<longleftrightarrow> m = n"
  using stringify_inject [of "JNum m" "JNum n"] by simp

lemma json_strings_JStr [simp]: "json_strings (JArr (map JStr ps)) = ps"
  by (simp add: json_strings_def comp_def)

lemma perm_ok_slot:
  assumes "perm_ok r"
  obtains (absent) "r (cacheKey u) = None" | (hash) h where "r (cacheKey u) = Some (RHash h, None)"
proof -
  from assms have "case r (cacheKey u) of None \<Rightarrow> True | Some (RHash h, None) \<Rightarrow> True | _ \<Rightarrow> False"
    by (simp add: perm_ok_def)
  then show thesis using absent hash by (auto split: option.splits prod.splits rval.splits)
qed

lemma perm_ok_upd: "perm_ok r \<Longrightarrow> perm_ok (r(cacheKey u \<mapsto> (RHash h, None)))"
  by (auto simp: perm_ok_def)

lemma stringify_nonempty [simp]: "stringify j \<noteq> []"
  using stringify_length [of j] by auto

lemma cache_set_slot:
  assumes "perm_ok r"
  obtains h where "cache_set t u v ps r = (Inr (), r(cacheKey u \<mapsto> (RHash h, None)))"
    "\<And>v'. cached_permissions h v' = (if v' = v then ps else [])"
proof -
  let ?f = "[''permissions'' \<mapsto> stringify (JArr (map JStr ps)), ''permVersion'' \<mapsto> show_int v]"
  have c: "cached_permissions (h ++ ?f) v' = (if v' = v then ps else [])" for h v'
    using json_roundtrip [of "JArr (map JStr ps)"]
    by (auto simp: cached_permissions_def simp del: stringify.simps)
  show thesis
  proof (rule perm_ok_slot [OF assms, of u])
    assume "r (cacheKey u) = None"
    then show thesis
      using that [of ?f] c [of Map.empty]
      by (simp add: cache_set_def redis_hset_def fun_upd_twist del: stringify.simps)
  next
    fix h
    assume "r (cacheKey u) = Some (RHash h, None)"
    then show thesis
      using that [of "h ++ ?f"] c [of h]
      by (simp add: cache_set_def redis_hset_def rlive_def fun_upd_twist del: stringify.simps)
  qed
qed

lemma cache_get_slot:
  assumes "perm_ok r"
  shows "cache_get t u v r = (Inr (case r (cacheKey u) of Some (RHash h, _) \<Rightarrow> cached_permissions h v | _ \<Rightarrow> []), r)"
  by (rule perm_ok_slot [OF assms, of u])
    (simp_all add: cache_get_def bind_run redis_hgetall_def redis_result_def rlive_def cached_permissions_def)

lemma updatePermVersion_cases:
  assumes "perm_ok r"
  shows "updatePermVersion t u v r =
    (if r (cacheKey u) = None then (Inr (), r) else cache_set t u v [] r)"
  by (rule perm_ok_slot [OF assms, of u])
    (simp_all add: updatePermVersion_def bind_run redis_exists_def rlive_def)

lemma cache_set_get:
  assumes "perm_ok s"
  obtains s' where "cache_set t u v ps s = (Inr (), s')" "perm_ok s'" "s' (cacheKey u) \<noteq> None"
    "\<And>v'. fst (cache_get t u v' s') = Inr (if v' = v then ps else [])"
    "\<And>u' v'. u' \<noteq> u \<Longrightarrow> fst (cache_get t u' v' s') = fst (cache_get t u' v' s)"
proof (rule cache_set_slot [OF assms, of t u v ps])
  fix h
  let ?s = "s(cacheKey u \<mapsto> (RHash h, None))"
  assume run: "cache_set t u v ps s = (Inr (), ?s)"
    and h: "\<And>v'. cached_permissions h v' = (if v' = v then ps else [])"
  have ok: "perm_ok ?s" by (rule perm_ok_upd [OF assms])
  show thesis
  proof (rule that [OF run ok])
    show "?s (cacheKey u) \<noteq> None" by simp
    show "fst (cache_get t u v' ?s) = Inr (if v' = v then ps else [])" for v'
      by (simp add: cache_get_slot [OF ok] h)
    show "u' \<noteq> u \<Longrightarrow> fst (cache_get t u' v' ?s) = fst (cache_get t u' v' s)" for u' v'
      by (simp add: cache_get_slot [OF ok] cache_get_slot [OF assms])
  qed
qed

interpretation pcache: versioned_cache perm_ok "cache_get t" "cache_set t" "updatePermVersion t" for t
proof
  fix s u v and ps :: "string list" and x s' v' u'
  show "perm_ok s \<Longrightarrow> \<exists>ps. cache_get t u v s = (Inr ps, s)"
    by (simp add: cache_get_slot)
  show set: "perm_ok s \<Longrightarrow> \<exists>s'. cache_set t u v ps s = (Inr (), s') \<and> perm_ok s'" for ps
    by (erule cache_set_get [of s t u v ps]) blast
  show "perm_ok s \<Longrightarrow> \<exists>s'. updatePermVersion t u v s = (Inr (), s') \<and> perm_ok s'"
    using set [of "[]"] by (auto simp: updatePermVersion_cases)
  show get_set: "perm_ok s \<Longrightarrow> cache_set t u v ps s = (x, s') \<Longrightarrow>
      fst (cache_get t u v' s') = Inr (if v' = v then ps else [])" for ps
    by (erule cache_set_get [of s t u v ps]) simp
  show "perm_ok s \<Longrightarrow> cache_set t u v ps s = (x, s') \<Longrightarrow> u' \<noteq> u \<Longrightarrow>
      fst (cache_get t u' v' s') = fst (cache_get t u' v' s)"
    by (erule cache_set_get [of s t u v ps]) simp
  show "perm_ok s \<Longrightarrow> updatePermVersion t u v s = (x, s') \<Longrightarrow> fst (cache_get t u v' s') = Inr []"
    using get_set [of "[]"] by (auto simp: updatePermVersion_cases cache_get_slot split: if_splits)
qed


section \<open>The provider and the guard on the Redis cache\<close>

lemma getPermissions_read_through:
  "getPermissions t auth u v = pcache.read_through t (fetch_permissions (auth u)) u v"
  by (simp add: getPermissions_def pcache.read_through_def)

lemma fetch_permissions_error:
  "fetch_permissions reply = Inl e \<Longrightarrow> \<exists>m st. st \<in> {500, 503} \<and> e = HttpException_str m st"
  by (auto simp: fetch_permissions_def SERVICE_UNAVAILABLE_def split: auth_reply.splits if_splits
      option.splits json.splits)

lemma getPermissions_cases:
  assumes "perm_ok r"
  obtains (hit) ps where "ps \<noteq> []" "fst (cache_get t u v r) = Inr ps"
      "getPermissions t auth u v r = (Inr ps, r)"
  | (fetched) ps r' where "fst (cache_get t u v r) = Inr []" "fetch_permissions (auth u) = Inr ps"
      "getPermissions t auth u v r = (Inr ps, r')" "cache_set t u v ps r = (Inr (), r')" "perm_ok r'"
  | (failed) e where "fst (cache_get t u v r) = Inr []" "fetch_permissions (auth u) = Inl e"
      "getPermissions t auth u v r = (Inl (provider_error e), r)"
proof -
  obtain ps where g: "fst (cache_get t u v r) = Inr ps"
    using pcache.get_total [of r t u v] assms by auto
  consider "ps \<noteq> []" | "ps = []" by blast
  then show thesis
  proof cases
    case 1
    then show thesis
      using hit [OF 1 g] pcache.hit [OF assms g 1] by (simp add: getPermissions_read_through)
  next
    case 2
    then have g: "fst (cache_get t u v r) = Inr []" using g by simp
    show thesis
    proof (cases "fetch_permissions (auth u)")
      case (Inl e)
      then show thesis
        using failed [OF g Inl] pcache.miss_error [OF assms g, of e]
        by (simp add: getPermissions_read_through)
    next
      case (Inr qs)
      obtain r' where "perm_ok r'" "pcache.read_through t (Inr qs) u v r = (Inr qs, r')"
          "cache_set t u v qs r = (Inr (), r')"
        using pcache.miss [OF assms g, of qs] by blast
      then show thesis
        using fetched [OF g Inr] Inr by (simp add: getPermissions_read_through)
    qed
  qed
qed

text \<open>The decision of the guard once the permissions are known.\<close>

definition decision :: "exn + string list \<Rightarrow> string list \<Rightarrow> exn + string list option" where
  "decision fetched req = (case fetched of
     Inl e \<Rightarrow> Inl (provider_error e)
   | Inr ps \<Rightarrow> if \<exists>p\<in>set req. p \<in> set ps then Inr (Some ps) else Inl (insufficient req))"

lemma hasPermission_iff: "hasPermission ps req \<longleftrightarrow> (\<exists>p\<in>set req. p \<in> set ps)"
  by (simp add: hasPermission_def list_ex_iff)

text \<open>A request whose permissions are looked up, and under which identity.\<close>

definition looked_up :: "req_user \<Rightarrow> string list \<Rightarrow> string \<Rightarrow> int \<Rightarrow> bool" where
  "looked_up user req u v \<longleftrightarrow> req \<noteq> [] \<and> usr_type user \<noteq> Some ''internal'' \<and> u \<noteq> []
     \<and> guard_userId user = Some u \<and> guard_permVersion user = Some v"

lemma canActivate_perm_looked_up:
  "looked_up user req u v \<Longrightarrow> canActivate_perm t auth False (Some req) user =
     bind (getPermissions t auth u v) (\<lambda>perms.
       if hasPermission perms req then ret (Some perms) else throw (insufficient req))"
  by (simp add: canActivate_perm_def looked_up_def)

text \<open>A user token as the strategy of the gateway leaves it on the request.\<close>

definition sample_user :: "int \<Rightarrow> req_user" where
  "sample_user v = no_user\<lparr>usr_userId := Some ''u1'', usr_permVersion := Some v\<rparr>"

definition sample_auth :: "string \<Rightarrow> auth_reply" where
  "sample_auth u = Reply 200 ''OK'' (Some (JArr [JStr ''NOTIFICATION_READ'']))"

lemma perm_ok_empty [simp]: "perm_ok Map.empty"
  by (simp add: perm_ok_def)

lemma looked_up_sample [simp]: "v \<noteq> 0 \<Longrightarrow> looked_up (sample_user v) [''NOTIFICATION_READ''] ''u1'' v"
  by (simp add: looked_up_def sample_user_def no_user_def guard_userId_def guard_permVersion_def)

lemma bump_decision:
  assumes "perm_ok r" and "updatePermVersion t u w r = (x, r')" and "looked_up user req u v"
  shows "fst (canActivate_perm t' auth False (Some req) user r') =
    decision (fetch_permissions (auth u)) req"
proof -
  have ok': "perm_ok r'"
    using pcache.bump_total [OF assms(1), of t u w] assms(2) by auto
  have empty: "fst (cache_get t u v r') = Inr []" for v
    using pcache.get_bump [OF assms(1,2)] .
  have "fst (cache_get t' u v r') = Inr []"
    using empty [of v] ok' by (simp add: cache_get_slot)
  then show ?thesis
    by (cases rule: getPermissions_cases [OF ok', of t' u v auth])
      (auto simp: canActivate_perm_looked_up [OF assms(3)] bind_run decision_def hasPermission_iff)
qed

text \<open>
  C1. Revocation takes effect at once. After \<open>updatePermVersion\<close> for a user, the guard decides
  the user's next request from the permissions the auth service sends now, whatever the cache
  held and whatever version the token carries, the old one included: nothing granted before the
  change is honoured.
\<close>
theorem perm_revocation:
  assumes "perm_ok r" and "updatePermVersion t u w r = (x, r')" and "looked_up user req u v"
  shows "fst (canActivate_perm t' auth False (Some req) user r') =
    decision (fetch_permissions (auth u)) req"
  by (rule bump_decision [OF assms])

text \<open>
  C17. The guard is safe: on a route that is not public and requires permissions, an admitted
  request of a user token has one of the required permissions among those it attaches, and
  these are the list cached for exactly the version its token carries or the list the auth
  service has just sent.
\<close>
theorem perm_guard_safe:
  assumes "perm_ok r" and "canActivate_perm t auth False (Some req) user r = (Inr y, r')"
    and "req \<noteq> []" and "usr_type user \<noteq> Some ''internal''"
  shows "\<exists>u v ps. guard_userId user = Some u \<and> guard_permVersion user = Some v \<and> y = Some ps
    \<and> (\<exists>p\<in>set req. p \<in> set ps)
    \<and> (fst (cache_get t u v r) = Inr ps \<or> fetch_permissions (auth u) = Inr ps)"
proof -
  obtain u v where l: "looked_up user req u v"
    using assms(2-4) by (auto simp: canActivate_perm_def looked_up_def split: option.splits if_splits)
  show ?thesis
    by (cases rule: getPermissions_cases [OF assms(1), of t u v auth])
      (use l assms(2) in \<open>auto simp: canActivate_perm_looked_up [OF l] bind_run hasPermission_iff
        looked_up_def split: if_splits\<close>)
qed

text \<open>
  The cache is trusted while the version stands: once a non-empty list is cached for a
  version, every token of that version is decided from it, whatever the auth service would say
  now. A change of permissions that does not bump the version is therefore not seen.
\<close>
theorem perm_cache_stale:
  assumes "perm_ok r" and "cache_set t u v ps r = (x, r')" and "ps \<noteq> []" and "looked_up user req u v"
  shows "canActivate_perm t' auth False (Some req) user r' = (decision (Inr ps) req, r')"
proof -
  have ok': "perm_ok r'" using pcache.set_total [OF assms(1), of t u v ps] assms(2) by auto
  have "fst (cache_get t u v r') = Inr ps" using pcache.get_set [OF assms(1,2), of v] by simp
  then have "fst (cache_get t' u v r') = Inr ps" using ok' by (simp add: cache_get_slot)
  with pcache.hit [OF ok' _ assms(3)] show ?thesis
    by (simp add: canActivate_perm_looked_up [OF assms(4)] getPermissions_read_through bind_run
        decision_def hasPermission_iff)
qed

text \<open>
  A provider that cannot learn the permissions denies: whatever the failure of the auth
  service, the caller gets an \<open>HttpException\<close> of status 500 or 503 and the cache is as it was,
  so the failure is not remembered.
\<close>
theorem perm_provider_fails_closed:
  assumes "perm_ok r" and "fst (getPermissions t auth u v r) = Inl e"
  shows "(\<exists>m st. st \<in> {500, 503} \<and> e = HttpException_str m st) \<and> snd (getPermissions t auth u v r) = r"
  by (cases rule: getPermissions_cases [OF assms(1), of t u v auth])
    (use assms(2) fetch_permissions_error [of "auth u"]
      in \<open>auto simp: provider_error_def is_http_exception_def HttpException_str_def\<close>)

lemma perm_revocation_witness:
  "fst (canActivate_perm 7 sample_auth False (Some [''NOTIFICATION_READ'']) (sample_user 1)
      (snd (updatePermVersion 5 ''u1'' 2 (snd (cache_set 3 ''u1'' 1 [''ROLE_READ''] Map.empty)))))
    = Inr (Some [''NOTIFICATION_READ''])"
proof -
  obtain r where r: "cache_set 3 ''u1'' 1 [''ROLE_READ''] Map.empty = (Inr (), r)" "perm_ok r"
    using pcache.set_total [of Map.empty] by fastforce
  show ?thesis
    using perm_revocation [of r 5 "''u1''" 2 "fst (updatePermVersion 5 ''u1'' 2 r)"
        "snd (updatePermVersion 5 ''u1'' 2 r)" "sample_user 1" "[''NOTIFICATION_READ'']" 1 7 sample_auth] r
    by (simp add: sample_auth_def fetch_permissions_def json_strings_def decision_def)
qed

lemma perm_guard_safe_witness:
  "\<exists>u v ps. guard_userId (sample_user 1) = Some u \<and> guard_permVersion (sample_user 1) = Some v
    \<and> Some [''NOTIFICATION_READ''] = Some ps \<and> (\<exists>p\<in>set [''NOTIFICATION_READ'']. p \<in> set ps)
    \<and> (fst (cache_get 7 u v Map.empty) = Inr ps \<or> fetch_permissions (sample_auth u) = Inr ps)"
proof -
  have "fst (canActivate_perm 7 sample_auth False (Some [''NOTIFICATION_READ'']) (sample_user 1) Map.empty)
      = Inr (Some [''NOTIFICATION_READ''])"
    unfolding canActivate_perm_looked_up [OF looked_up_sample [OF one_neq_zero]]
    by (cases rule: getPermissions_cases [OF perm_ok_empty, of 7 "''u1''" 1 sample_auth])
      (auto simp: bind_run hasPermission_iff cache_get_slot sample_auth_def fetch_permissions_def json_strings_def)
  then show ?thesis
    by (intro perm_guard_safe [of Map.empty 7 sample_auth "[''NOTIFICATION_READ'']" "sample_user 1" _
        "snd (canActivate_perm 7 sample_auth False (Some [''NOTIFICATION_READ'']) (sample_user 1) Map.empty)"])
      (simp_all add: prod_eq_iff, simp add: sample_user_def no_user_def)
qed

lemma perm_cache_stale_witness:
  "fst (canActivate_perm 7 (\<lambda>_. Reply 200 ''OK'' (Some (JArr []))) False (Some [''NOTIFICATION_READ''])
      (sample_user 1) (snd (cache_set 3 ''u1'' 1 [''NOTIFICATION_READ''] Map.empty)))
    = Inr (Some [''NOTIFICATION_READ''])"
  using perm_cache_stale [of Map.empty 3 "''u1''" 1 "[''NOTIFICATION_READ'']"
      "fst (cache_set 3 ''u1'' 1 [''NOTIFICATION_READ''] Map.empty)"
      "snd (cache_set 3 ''u1'' 1 [''NOTIFICATION_READ''] Map.empty)" "sample_user 1"
      "[''NOTIFICATION_READ'']" 7 "\<lambda>_. Reply 200 ''OK'' (Some (JArr []))"]
  by (simp add: decision_def)

lemma perm_provider_fails_closed_witness:
  "fst (getPermissions 7 (\<lambda>_. ErrResponse 404) ''u1'' 1 Map.empty) =
      Inl (HttpException_str ''Auth Service returned error: 404'' 503)
    \<and> snd (getPermissions 7 (\<lambda>_. ErrResponse 404) ''u1'' 1 Map.empty) = Map.empty"
proof -
  have n404: "show_int 404 = ''404''" by code_simp
  have f: "fst (getPermissions 7 (\<lambda>_. ErrResponse 404) ''u1'' 1 Map.empty) =
      Inl (HttpException_str ''Auth Service returned error: 404'' 503)"
    by (cases rule: getPermissions_cases [OF perm_ok_empty, of 7 "''u1''" 1 "\<lambda>_. ErrResponse 404"])
      (auto simp: cache_get_slot fetch_permissions_def provider_error_def is_http_exception_def
        HttpException_str_def SERVICE_UNAVAILABLE_def n404)
  from perm_provider_fails_closed [OF perm_ok_empty this] f show ?thesis by simp
qed

end
