(* ===== verification/Jwt.thy ===== *)
theory Jwt
  imports Permission Contracts
begin

text \<open>
  Authentication by bearer token: the two-secret strategy of the auth and notification services
  (\<open>apps/*/src/modules/jwt/strategy/jwt.strategy.ts\<close>), the strategy of the gateway
  (\<open>user-jwt.strategy.ts\<close>), and the guards that put its result on the request. What
  \<open>jsonwebtoken\<close> and \<open>passport-jwt\<close> do is a record of parameters: \<open>jl_bearer\<close> takes the token from
  the \<open>Authorization\<close> header, \<open>jl_decode\<close> reads the payload without checking it, \<open>jl_verify\<close>
  checks signature and expiry (and issuer and audience where given).
\<close>

section \<open>The library\<close>

record verify_opts =
  vo_secret :: string
  vo_issuer :: "string option"
  vo_audience :: "string option"

record jwt_lib =
  jl_bearer :: "string option \<Rightarrow> string option"
  jl_decode :: "string \<Rightarrow> json option"
  jl_verify :: "verify_opts \<Rightarrow> int \<Rightarrow> string \<Rightarrow> json option"

text \<open>Documented of \<open>jsonwebtoken\<close>: a token that verifies decodes to the same payload, an object.\<close>

definition jwt_lib_ok :: "jwt_lib \<Rightarrow> bool" where
  "jwt_lib_ok L \<longleftrightarrow> (\<forall>v t tok p. jl_verify L v t tok = Some p \<longrightarrow> jl_decode L tok = Some p)"

section \<open>The two-secret strategy\<close>

record combined_config =
  cc_internalSecret :: string
  cc_userSecret :: string
  cc_internalAudience :: string
  cc_userAudience :: string

text \<open>The constructor; the user issuer is read and never used.\<close>

definition combined_new :: "string option \<Rightarrow> string option \<Rightarrow> string option \<Rightarrow> string option \<Rightarrow> exn + combined_config" where
  "combined_new internalSecret userSecret internalAudience userAudience =
     (if \<not> truthy internalSecret then Inl (PlainErr ''INTERNAL_JWT_SECRET is required'')
      else if \<not> truthy userSecret then Inl (PlainErr ''JWT_SECRET is required'')
      else Inr \<lparr>cc_internalSecret = nullish internalSecret [], cc_userSecret = nullish userSecret [],
             cc_internalAudience = or_str internalAudience ''internal'', cc_userAudience = or_str userAudience ''api''\<rparr>)"

definition aud_text :: "json option \<Rightarrow> string" where
  "aud_text a = (case a of None \<Rightarrow> ''undefined'' | Some j \<Rightarrow> to_str j)"

definition secretOrKeyProvider :: "combined_config \<Rightarrow> jwt_lib \<Rightarrow> string \<Rightarrow> exn + string" where
  "secretOrKeyProvider C L rawJwtToken = (case jl_decode L rawJwtToken of
     None \<Rightarrow> Inl (UnauthorizedException ''Invalid token format'')
   | Some decoded \<Rightarrow>
      (let audience = jget ''aud'' decoded
       in if audience = Some (JStr (cc_internalAudience C)) then Inr (cc_internalSecret C)
          else if audience = Some (JStr (cc_userAudience C)) then Inr (cc_userSecret C)
          else Inl (UnauthorizedException (''Unknown token audience: '' @ aud_text audience))))"

text \<open>Claims as the guards read them: \<open>sub\<close> and \<open>userId\<close> are strings, \<open>permVersion\<close> a number.\<close>

definition jstr :: "json option \<Rightarrow> string option" where
  "jstr j = (case j of Some (JStr s) \<Rightarrow> Some s | _ \<Rightarrow> None)"

definition jnum :: "json option \<Rightarrow> int option" where
  "jnum j = (case j of Some (JNum n) \<Rightarrow> Some n | _ \<Rightarrow> None)"

definition internal_user :: "json \<Rightarrow> req_user" where
  "internal_user payload = no_user\<lparr>usr_type := Some ''internal'', usr_caller := jstr (jget ''sub'' payload),
     usr_data_userId := jstr (Option.bind (jget ''data'' payload) (jget ''userId'')),
     usr_data_permVersion := jnum (Option.bind (jget ''data'' payload) (jget ''permVersion''))\<rparr>"

text \<open>\<open>validate\<close> in the auth service: the claims of a user go under \<open>data\<close>.\<close>

definition auth_validate :: "combined_config \<Rightarrow> json \<Rightarrow> exn + req_user" where
  "auth_validate C payload =
     (if jget ''aud'' payload = Some (JStr (cc_internalAudience C)) then Inr (internal_user payload)
      else if jget ''aud'' payload = Some (JStr (cc_userAudience C)) then
        Inr (no_user\<lparr>usr_type := Some ''api'', usr_caller := Some ''User'',
          usr_data_userId := jstr (jget ''sub'' payload), usr_data_permVersion := jnum (jget ''permVersion'' payload)\<rparr>)
      else Inl (UnauthorizedException ''Invalid token type''))"

text \<open>\<open>validate\<close> in the notification service: at the top level.\<close>

definition noti_validate :: "combined_config \<Rightarrow> json \<Rightarrow> exn + req_user" where
  "noti_validate C payload =
     (if jget ''aud'' payload = Some (JStr (cc_internalAudience C)) then Inr (internal_user payload)
      else if jget ''aud'' payload = Some (JStr (cc_userAudience C)) then
        Inr (no_user\<lparr>usr_type := Some ''user'', usr_userId := jstr (jget ''sub'' payload),
          usr_permVersion := jnum (jget ''permVersion'' payload)\<rparr>)
      else Inl (UnauthorizedException ''Invalid token type''))"

section \<open>The guards\<close>

definition unauthorized :: exn where "unauthorized = UnauthorizedException ''Unauthorized''"

text \<open>
  Passport: any failure to obtain a verified payload is the default \<open>UnauthorizedException\<close>; an
  exception of \<open>validate\<close> is thrown as it is.
\<close>

definition passport_combined ::
  "combined_config \<Rightarrow> jwt_lib \<Rightarrow> (json \<Rightarrow> exn + req_user) \<Rightarrow> int \<Rightarrow> string option \<Rightarrow> exn + req_user" where
  "passport_combined C L validate t authorization = (case jl_bearer L authorization of
     None \<Rightarrow> Inl unauthorized
   | Some tok \<Rightarrow> (case secretOrKeyProvider C L tok of
        Inl _ \<Rightarrow> Inl unauthorized
      | Inr secret \<Rightarrow> (case jl_verify L \<lparr>vo_secret = secret, vo_issuer = None, vo_audience = None\<rparr> t tok of
          None \<Rightarrow> Inl unauthorized
        | Some payload \<Rightarrow> validate payload)))"

text \<open>
  \<open>request.user\<close> and \<open>request.info\<close> after the guard; a public route leaves both absent. The
  notification service copies caller and data only, and only for an internal token.
\<close>

type_synonym authenticated = "req_user option \<times> req_user option"

definition auth_canActivate :: "combined_config \<Rightarrow> jwt_lib \<Rightarrow> int \<Rightarrow> bool \<Rightarrow> string option \<Rightarrow> exn + authenticated" where
  "auth_canActivate C L t isPublic authorization =
     (if isPublic then Inr (None, None)
      else (case passport_combined C L (auth_validate C) t authorization of
          Inl e \<Rightarrow> Inl e | Inr user \<Rightarrow> Inr (Some user, Some user)))"

definition noti_canActivate :: "combined_config \<Rightarrow> jwt_lib \<Rightarrow> int \<Rightarrow> bool \<Rightarrow> string option \<Rightarrow> exn + authenticated" where
  "noti_canActivate C L t isPublic authorization =
     (if isPublic then Inr (None, None)
      else (case passport_combined C L (noti_validate C) t authorization of
          Inl e \<Rightarrow> Inl e
        | Inr user \<Rightarrow>
            Inr (Some user, if usr_type user = Some ''internal'' then Some (user\<lparr>usr_type := None\<rparr>) else None)))"

text \<open>
  The strategy for internal tokens alone; its guard moves the result to \<open>request.info\<close>, and the
  one of the notification service keeps \<open>request.user\<close>.
\<close>

definition internal_strategy :: "string option \<Rightarrow> string option \<Rightarrow> exn + verify_opts" where
  "internal_strategy secret audience =
     (if \<not> truthy secret then Inl (PlainErr ''INTERNAL_JWT_SECRET is required'')
      else Inr \<lparr>vo_secret = nullish secret [], vo_issuer = None, vo_audience = Some (or_str audience ''internal'')\<rparr>)"

definition passport_jwt :: "verify_opts \<Rightarrow> jwt_lib \<Rightarrow> (json \<Rightarrow> req_user) \<Rightarrow> int \<Rightarrow> string option \<Rightarrow> exn + req_user" where
  "passport_jwt V L validate t authorization =
     (case Option.bind (jl_bearer L authorization) (jl_verify L V t) of
        None \<Rightarrow> Inl unauthorized | Some payload \<Rightarrow> Inr (validate payload))"

definition internal_canActivate :: "verify_opts \<Rightarrow> jwt_lib \<Rightarrow> int \<Rightarrow> bool \<Rightarrow> string option \<Rightarrow> exn + authenticated" where
  "internal_canActivate V L t isPublic authorization =
     (if isPublic then Inr (None, None)
      else (case passport_jwt V L internal_user t authorization of
          Inl e \<Rightarrow> Inl e | Inr user \<Rightarrow> Inr (None, Some user)))"

definition internal_canActivate_noti :: "verify_opts \<Rightarrow> jwt_lib \<Rightarrow> int \<Rightarrow> bool \<Rightarrow> string option \<Rightarrow> exn + authenticated" where
  "internal_canActivate_noti V L t isPublic authorization =
     (if isPublic then Inr (None, None)
      else (case passport_jwt V L internal_user t authorization of
          Inl e \<Rightarrow> Inl e | Inr user \<Rightarrow> Inr (Some user, Some user)))"

text \<open>
  The guard for user tokens alone asks passport for a strategy by its name; a name nobody registered
  is an error that passport throws.
\<close>

definition user_canActivate :: "(string \<Rightarrow> (string option \<Rightarrow> exn + req_user) option) \<Rightarrow> bool \<Rightarrow> string option \<Rightarrow> exn + authenticated" where
  "user_canActivate strategies isPublic authorization =
     (if isPublic then Inr (None, None)
      else (case strategies ''user-jwt'' of
          None \<Rightarrow> Inl (PlainErr ''Unknown authentication strategy \"user-jwt\"'')
        | Some passport \<Rightarrow> (case passport authorization of Inl e \<Rightarrow> Inl e | Inr user \<Rightarrow> Inr (Some user, None))))"

text \<open>The strategies the JWT modules of the auth and the notification service register: the guard above can only fail there.\<close>

definition service_strategies ::
  "combined_config \<Rightarrow> verify_opts \<Rightarrow> jwt_lib \<Rightarrow> (json \<Rightarrow> exn + req_user) \<Rightarrow> int \<Rightarrow> string \<Rightarrow> (string option \<Rightarrow> exn + req_user) option" where
  "service_strategies C V L validate t = [''combined-jwt'' \<mapsto> passport_combined C L validate t,
     ''internal-jwt'' \<mapsto> passport_jwt V L internal_user t]"

lemma user_guard_unusable: "user_canActivate (service_strategies C V L validate t) False authorization =
    Inl (PlainErr ''Unknown authentication strategy \"user-jwt\"'')"
  by (simp add: user_canActivate_def service_strategies_def)

text \<open>The gateway accepts user tokens only, and leaves the type absent.\<close>

definition user_strategy :: "string option \<Rightarrow> string option \<Rightarrow> string option \<Rightarrow> verify_opts" where
  "user_strategy secret issuer audience = \<lparr>vo_secret = or_str secret ''change-me'',
     vo_issuer = Some (or_str issuer ''auth-service''), vo_audience = Some (or_str audience ''api'')\<rparr>"

definition gateway_validate :: "json \<Rightarrow> req_user" where
  "gateway_validate payload = no_user\<lparr>usr_userId := jstr (jget ''sub'' payload),
     usr_permVersion := jnum (jget ''permVersion'' payload)\<rparr>"

definition gateway_canActivate :: "verify_opts \<Rightarrow> jwt_lib \<Rightarrow> int \<Rightarrow> bool \<Rightarrow> string option \<Rightarrow> exn + authenticated" where
  "gateway_canActivate V L t isPublic authorization =
     (if isPublic then Inr (None, None)
      else (case passport_jwt V L gateway_validate t authorization of
          Inl e \<Rightarrow> Inl e | Inr user \<Rightarrow> Inr (Some user, None)))"

section \<open>What an accepted token is\<close>

definition verified :: "jwt_lib \<Rightarrow> string \<Rightarrow> int \<Rightarrow> string option \<Rightarrow> json \<Rightarrow> bool" where
  "verified L secret t authorization payload \<longleftrightarrow> (\<exists>tok. jl_bearer L authorization = Some tok
     \<and> jl_verify L \<lparr>vo_secret = secret, vo_issuer = None, vo_audience = None\<rparr> t tok = Some payload)"

lemma passport_combined_Inr:
  assumes "jwt_lib_ok L" and "passport_combined C L validate t a = Inr user"
  obtains payload where "validate payload = Inr user"
    "jget ''aud'' payload = Some (JStr (cc_internalAudience C)) \<and> verified L (cc_internalSecret C) t a payload
     \<or> jget ''aud'' payload \<noteq> Some (JStr (cc_internalAudience C))
       \<and> jget ''aud'' payload = Some (JStr (cc_userAudience C)) \<and> verified L (cc_userSecret C) t a payload"
proof -
  from assms(2) obtain tok secret payload where tok: "jl_bearer L a = Some tok"
    and s: "secretOrKeyProvider C L tok = Inr secret"
    and v: "jl_verify L \<lparr>vo_secret = secret, vo_issuer = None, vo_audience = None\<rparr> t tok = Some payload"
    and val: "validate payload = Inr user"
    by (auto simp: passport_combined_def split: option.splits sum.splits)
  have d: "jl_decode L tok = Some payload" using assms(1) v unfolding jwt_lib_ok_def by blast
  show ?thesis
    by (rule that [OF val]) (use s v tok d in \<open>auto simp: secretOrKeyProvider_def verified_def Let_def split: if_splits\<close>)
qed

lemma passport_combined_user:
  assumes "jwt_lib_ok L" and "verified L (cc_userSecret C) t a payload"
    and "jget ''aud'' payload = Some (JStr (cc_userAudience C))" and "cc_userAudience C \<noteq> cc_internalAudience C"
  shows "passport_combined C L validate t a = validate payload"
  using assms by (auto simp: passport_combined_def verified_def secretOrKeyProvider_def jwt_lib_ok_def Let_def)

text \<open>
  C14. No token of a user is ever taken for an internal one: a request that the guards of the auth
  or the notification service see as \<open>internal\<close> (and so exempt from permissions) carries a token
  that verifies with the internal secret, and one seen as a user's carries a token that
  verifies with the secret of user tokens, whose subject and version it is.
\<close>
theorem token_kind_sound:
  assumes "jwt_lib_ok L" and "validate = auth_validate C \<or> validate = noti_validate C"
    and "passport_combined C L validate t authorization = Inr user"
  shows "\<exists>payload. (usr_type user = Some ''internal'' \<longrightarrow> verified L (cc_internalSecret C) t authorization payload)
    \<and> (usr_type user \<noteq> Some ''internal'' \<longrightarrow> verified L (cc_userSecret C) t authorization payload
        \<and> guard_userId user = jstr (jget ''sub'' payload)
        \<and> nullish (guard_permVersion user) 0 = nullish (jnum (jget ''permVersion'' payload)) 0)"
proof (rule passport_combined_Inr [OF assms(1,3)])
  fix payload
  assume "validate payload = Inr user"
    and "jget ''aud'' payload = Some (JStr (cc_internalAudience C)) \<and> verified L (cc_internalSecret C) t authorization payload
     \<or> jget ''aud'' payload \<noteq> Some (JStr (cc_internalAudience C))
       \<and> jget ''aud'' payload = Some (JStr (cc_userAudience C)) \<and> verified L (cc_userSecret C) t authorization payload"
  then show ?thesis
    using assms(2) by (intro exI [of _ payload])
      (auto simp: auth_validate_def noti_validate_def internal_user_def no_user_def guard_userId_def guard_permVersion_def
        split: if_splits option.splits)
qed

section \<open>An example\<close>

definition user_payload :: "string \<Rightarrow> int \<Rightarrow> json" where
  "user_payload uid v = JObj [(''aud'', JStr ''api''), (''sub'', JStr uid), (''permVersion'', JNum v)]"

definition internal_payload :: json where
  "internal_payload = JObj [(''aud'', JStr ''internal''), (''sub'', JStr ''gateway''), (''data'', JObj [])]"

text \<open>Two tokens: a user's, signed with one secret, and an internal one, signed with the other.\<close>

definition sample_lib :: jwt_lib where
  "sample_lib = \<lparr>jl_bearer = id,
     jl_decode = (\<lambda>tok. if tok = ''u'' then Some (user_payload ''u1'' 1) else if tok = ''i'' then Some internal_payload else None),
     jl_verify = (\<lambda>v t tok. if tok = ''u'' \<and> vo_secret v = ''us'' then Some (user_payload ''u1'' 1)
        else if tok = ''i'' \<and> vo_secret v = ''is'' then Some internal_payload else None)\<rparr>"

definition sample_cc :: combined_config where
  "sample_cc = \<lparr>cc_internalSecret = ''is'', cc_userSecret = ''us'', cc_internalAudience = ''internal'', cc_userAudience = ''api''\<rparr>"

lemma sample_lib_ok [simp]: "jwt_lib_ok sample_lib"
  by (auto simp: jwt_lib_ok_def sample_lib_def split: if_splits)

lemma token_kind_sound_witness:
  "\<exists>payload. verified sample_lib ''us'' 0 (Some ''u'') payload \<and> jstr (jget ''sub'' payload) = Some ''u1''"
proof -
  have run: "passport_combined sample_cc sample_lib (auth_validate sample_cc) 0 (Some ''u'') =
      Inr (no_user\<lparr>usr_type := Some ''api'', usr_caller := Some ''User'', usr_data_userId := Some ''u1'',
        usr_data_permVersion := Some 1\<rparr>)"
    by code_simp
  show ?thesis
    using token_kind_sound [OF sample_lib_ok disjI1 [OF refl] run]
    by (auto simp: no_user_def guard_userId_def sample_cc_def)
qed

end
