(* ===== verification/Crypto.thy ===== *)
theory Crypto
  imports Errors "HOL-Library.Word"
begin

unbundle bit_operations_syntax

text \<open>
  \<open>packages/common/src/security/crypto.util.ts\<close>: the layout of an encrypted text (salt, IV,
  authentication tag and ciphertext, in base64) with what it uses of Node's buffers: base64, and UTF-8 of
  the model's 8-bit characters. \<open>scrypt\<close> and AES-256-GCM are parameters.
\<close>

type_synonym bytes = "8 word list"

section \<open>UTF-8\<close>

text \<open>The characters of the model are the code points below 256: one byte, or two.\<close>

definition utf8_char :: "char \<Rightarrow> bytes" where
  "utf8_char c = (let n = (of_char c :: 8 word)
     in if n < 128 then [n] else [0xC0 OR drop_bit 6 n, 0x80 OR (n AND 0x3F)])"

definition utf8_encode :: "string \<Rightarrow> bytes" where
  "utf8_encode s = concat (map utf8_char s)"

fun utf8_parse :: "bytes \<Rightarrow> string option" where
  "utf8_parse [] = Some []"
| "utf8_parse (b # bs) =
     (if b < 128 then map_option (\<lambda>s. char_of (unat b) # s) (utf8_parse bs)
      else (case bs of
          [] \<Rightarrow> None
        | c # cs \<Rightarrow> if (b = 0xC2 \<or> b = 0xC3) \<and> c AND 0xC0 = 0x80
            then map_option (\<lambda>s. char_of (unat (push_bit 6 b OR (c AND 0x3F))) # s) (utf8_parse cs) else None))"

text \<open>\<open>other\<close> is the text of bytes that are not the UTF-8 of such characters.\<close>

definition utf8_decode :: "(bytes \<Rightarrow> string) \<Rightarrow> bytes \<Rightarrow> string" where
  "utf8_decode other bs = (case utf8_parse bs of Some s \<Rightarrow> s | None \<Rightarrow> other bs)"

section \<open>Base64\<close>

definition b64_char :: "8 word \<Rightarrow> char" where
  "b64_char x = (let n = unat x in
     if n < 26 then char_of (65 + n) else if n < 52 then char_of (71 + n)
     else if n < 62 then char_of (n - 4) else if n = 62 then CHR ''+'' else CHR ''/'')"

text \<open>The decoder also takes the URL-safe alphabet, and skips every other character.\<close>

definition b64_val :: "char \<Rightarrow> 8 word option" where
  "b64_val c = (let n = (of_char c :: nat) in
     if 65 \<le> n \<and> n \<le> 90 then Some (of_nat (n - 65)) else if 97 \<le> n \<and> n \<le> 122 then Some (of_nat (n - 71))
     else if 48 \<le> n \<and> n \<le> 57 then Some (of_nat (n + 4))
     else if c = CHR ''+'' \<or> c = CHR ''-'' then Some 62 else if c = CHR ''/'' \<or> c = CHR ''_'' then Some 63 else None)"

fun sextets :: "bytes \<Rightarrow> 8 word list" where
  "sextets (a # b # c # r) =
     drop_bit 2 a # (push_bit 4 (a AND 3) OR drop_bit 4 b) # (push_bit 2 (b AND 15) OR drop_bit 6 c) # (c AND 63) # sextets r"
| "sextets [a, b] = [drop_bit 2 a, push_bit 4 (a AND 3) OR drop_bit 4 b, push_bit 2 (b AND 15)]"
| "sextets [a] = [drop_bit 2 a, push_bit 4 (a AND 3)]"
| "sextets [] = []"

fun octets :: "8 word list \<Rightarrow> bytes" where
  "octets (w # x # y # z # r) = (push_bit 2 w OR drop_bit 4 x) # (push_bit 4 x OR drop_bit 2 y) # (push_bit 6 y OR z) # octets r"
| "octets [w, x, y] = [push_bit 2 w OR drop_bit 4 x, push_bit 4 x OR drop_bit 2 y]"
| "octets [w, x] = [push_bit 2 w OR drop_bit 4 x]"
| "octets _ = []"

definition toBase64 :: "bytes \<Rightarrow> string" where
  "toBase64 bs = map b64_char (sextets bs) @ replicate ((3 - length bs mod 3) mod 3) (CHR ''='')"

definition fromBase64 :: "string \<Rightarrow> bytes" where
  "fromBase64 s = octets (List.map_filter b64_val s)"

section \<open>The cipher\<close>

record cipher_lib =
  cy_scrypt :: "string \<Rightarrow> bytes \<Rightarrow> bytes"
  cy_seal :: "bytes \<Rightarrow> bytes \<Rightarrow> bytes \<Rightarrow> bytes \<times> bytes"
  cy_open :: "bytes \<Rightarrow> bytes \<Rightarrow> bytes \<Rightarrow> bytes \<Rightarrow> bytes option"
  cy_otherText :: "bytes \<Rightarrow> string"

text \<open>
  What Node documents of the cipher: the tag has 16 bytes, what was sealed opens with the same key,
  IV and tag, and nothing opens with a tag that is not its own.
\<close>

definition cipher_ok :: "cipher_lib \<Rightarrow> bool" where
  "cipher_ok L \<longleftrightarrow> (\<forall>k iv p. length (snd (cy_seal L k iv p)) = 16
       \<and> cy_open L k iv (snd (cy_seal L k iv p)) (fst (cy_seal L k iv p)) = Some p)
     \<and> (\<forall>k iv tag enc p. cy_open L k iv tag enc = Some p \<longrightarrow> (enc, tag) = cy_seal L k iv p)"

text \<open>The random salt and IV are arguments.\<close>

definition encrypt_with :: "cipher_lib \<Rightarrow> bytes \<Rightarrow> bytes \<Rightarrow> string \<Rightarrow> string \<Rightarrow> string" where
  "encrypt_with L salt iv plainText password =
     (let key = cy_scrypt L password salt;
          (enc, authTag) = cy_seal L key iv (utf8_encode plainText)
      in toBase64 (salt @ iv @ authTag @ enc))"

definition decrypt_text :: "cipher_lib \<Rightarrow> string \<Rightarrow> string \<Rightarrow> exn + string" where
  "decrypt_text L cipherText password =
     (let buf = fromBase64 cipherText
      in if length buf < 48 then Inl (PlainErr ''Invalid cipher text: too short (expected salt+iv+authTag+enc)'')
         else (let salt = take 16 buf; iv = take 16 (drop 16 buf); authTag = take 16 (drop 32 buf); enc = drop 48 buf;
                   key = cy_scrypt L password salt
               in (case cy_open L key iv authTag enc of
                     None \<Rightarrow> Inl (PlainErr ''Unsupported state or unable to authenticate data'')
                   | Some p \<Rightarrow> Inr (utf8_decode (cy_otherText L) p))))"

section \<open>The key\<close>

definition missing_encryptKey :: exn where
  "missing_encryptKey = service_exn INTERNAL 500 (''[getEncryptKey] Missing ENCRYPT_KEY: not set or empty. ''
     @ ''Check (1) .env file exists and is loaded (root .env or app .env, ConfigModule envFilePath) ''
     @ ''and (2) ENCRYPT_KEY=<your-secret> is defined in that file.'')"

text \<open>The argument is the variable of the environment.\<close>

definition env_encryptKey :: "string option \<Rightarrow> exn + string" where
  "env_encryptKey ENCRYPT_KEY = (let key = map_option trim ENCRYPT_KEY
     in if \<not> truthy key then Inl missing_encryptKey else Inr (nullish key []))"

lemma env_encryptKey_run: "env_encryptKey v =
    (if truthy (map_option trim v) then Inr (trim (nullish v [])) else Inl missing_encryptKey)"
  by (cases v) (simp_all add: env_encryptKey_def)

section \<open>Round trips\<close>

lemma byte_eqI:
  fixes a b :: "8 word"
  assumes "bit a 0 = bit b 0" "bit a 1 = bit b 1" "bit a 2 = bit b 2" "bit a 3 = bit b 3"
    "bit a 4 = bit b 4" "bit a 5 = bit b 5" "bit a 6 = bit b 6" "bit a 7 = bit b 7"
  shows "a = b"
proof (rule bit_word_eqI)
  fix n assume "n < LENGTH(8)"
  then have "n \<in> {0, 1, 2, 3, 4, 5, 6, 7}" by auto
  with assms show "bit a n = bit b n" by auto
qed

lemma byte_no_bit [simp]:
  fixes n :: "8 word"
  shows "\<not> bit n 8" "\<not> bit n 9" "\<not> bit n 10" "\<not> bit n 11" "\<not> bit n 12" "\<not> bit n 13"
  using bit_imp_le_length [of n] by fastforce+

lemma byte_bits:
  fixes n :: "8 word"
  shows "n < 128 \<longleftrightarrow> \<not> bit n 7" and "n < 64 \<longleftrightarrow> \<not> bit n 6 \<and> \<not> bit n 7"
proof -
  have n: "unat n < 256" using unsigned_less [of n, where ?'a = nat] by simp
  have b: "bit n k = bit (unat n) k" if "k < 8" for k using that by (simp add: bit_unsigned_iff)
  have 7: "bit n 7 \<longleftrightarrow> odd (unat n div 128)" by (rule trans [OF b]) (simp, simp add: bit_iff_odd)
  have 6: "bit n 6 \<longleftrightarrow> odd (unat n div 64)" by (rule trans [OF b]) (simp, simp add: bit_iff_odd)
  have small: "x < 2 \<Longrightarrow> (x = 0) = even x" "y < 4 \<Longrightarrow> (y = 0) = (even y \<and> even (y div 2))" for x y :: nat
    by presburger+
  have d: "unat n div 128 < 2" "unat n div 64 < 4" using n by (simp_all add: less_mult_imp_div_less)
  have "unat n < 128 \<longleftrightarrow> even (unat n div 128)"
    using small(1) [OF d(1)] by (simp add: div_eq_0_iff)
  moreover have "unat n < 64 \<longleftrightarrow> even (unat n div 64) \<and> even (unat n div 128)"
    using small(2) [OF d(2)] by (simp add: div_eq_0_iff flip: div_mult2_eq)
  ultimately show "n < 128 \<longleftrightarrow> \<not> bit n 7" "n < 64 \<longleftrightarrow> \<not> bit n 6 \<and> \<not> bit n 7"
    unfolding 6 7 word_less_nat_alt by simp_all
qed

lemma octets_sextets: "octets (sextets bs) = bs"
proof (induction bs rule: sextets.induct)
  case (1 a b c r)
  have "push_bit 2 (drop_bit 2 a) OR drop_bit 4 (push_bit 4 (a AND 3) OR drop_bit 4 b) = a"
    by (rule byte_eqI) (simp_all add: bit_simps)
  moreover have "push_bit 4 (push_bit 4 (a AND 3) OR drop_bit 4 b) OR drop_bit 2 (push_bit 2 (b AND 15) OR drop_bit 6 c) = b"
    by (rule byte_eqI) (simp_all add: bit_simps)
  moreover have "push_bit 6 (push_bit 2 (b AND 15) OR drop_bit 6 c) OR (c AND 63) = c"
    by (rule byte_eqI) (simp_all add: bit_simps)
  ultimately show ?case using 1 by simp
next
  case (2 a b)
  have "push_bit 2 (drop_bit 2 a) OR drop_bit 4 (push_bit 4 (a AND 3) OR drop_bit 4 b) = a"
    by (rule byte_eqI) (simp_all add: bit_simps)
  moreover have "push_bit 4 (push_bit 4 (a AND 3) OR drop_bit 4 b) OR drop_bit 2 (push_bit 2 (b AND 15)) = b"
    by (rule byte_eqI) (simp_all add: bit_simps)
  ultimately show ?case by simp
next
  case (3 a)
  have "push_bit 2 (drop_bit 2 a) OR drop_bit 4 (push_bit 4 (a AND 3)) = a"
    by (rule byte_eqI) (simp_all add: bit_simps)
  then show ?case by simp
qed simp

lemma b64_val_char: "x < 64 \<Longrightarrow> b64_val (b64_char x) = Some x"
proof -
  assume "x < 64"
  then have n: "unat x < 64" by (simp add: word_less_nat_alt)
  then consider "unat x < 26" | "26 \<le> unat x" "unat x < 52" | "52 \<le> unat x" "unat x < 62" | "unat x = 62" | "unat x = 63"
    by linarith
  then show ?thesis
  proof cases
    case 3
    then have "48 \<le> unat x - 4" "unat x - 4 \<le> 57" by simp_all
    with 3 show ?thesis by (simp add: b64_char_def b64_val_def Let_def)
  next
    case 4
    then have "x = 62" by (simp add: word_unat_eq_iff)
    then show ?thesis by (simp add: b64_char_def b64_val_def)
  next
    case 5
    then have "x = 63" by (simp add: word_unat_eq_iff)
    then show ?thesis by (simp add: b64_char_def b64_val_def)
  qed (simp_all add: b64_char_def b64_val_def Let_def)
qed

lemma sextet_bound: "x \<in> set (sextets bs) \<Longrightarrow> x < 64"
  by (induction bs rule: sextets.induct) (auto simp: byte_bits bit_simps)

lemma utf8_two_bytes:
  fixes n :: "8 word"
  assumes "\<not> n < 128"
  shows "0xC0 OR drop_bit 6 n = 0xC2 \<or> 0xC0 OR drop_bit 6 n = 0xC3"
    and "(0x80 OR (n AND 0x3F)) AND 0xC0 = 0x80"
    and "push_bit 6 (0xC0 OR drop_bit 6 n) OR ((0x80 OR (n AND 0x3F)) AND 0x3F) = n"
    and "\<not> 0xC0 OR drop_bit 6 n < 128"
proof -
  have 7: "bit n 7" using assms by (simp add: byte_bits)
  show "0xC0 OR drop_bit 6 n = 0xC2 \<or> 0xC0 OR drop_bit 6 n = 0xC3"
  proof (cases "bit n 6")
    case True
    then have "0xC0 OR drop_bit 6 n = 0xC3" using 7 by (intro byte_eqI) (simp_all add: bit_simps)
    then show ?thesis ..
  next
    case False
    then have "0xC0 OR drop_bit 6 n = 0xC2" using 7 by (intro byte_eqI) (simp_all add: bit_simps)
    then show ?thesis ..
  qed
  show "(0x80 OR (n AND 0x3F)) AND 0xC0 = 0x80" by (rule byte_eqI) (simp_all add: bit_simps)
  show "push_bit 6 (0xC0 OR drop_bit 6 n) OR ((0x80 OR (n AND 0x3F)) AND 0x3F) = n"
    using 7 by (intro byte_eqI) (simp_all add: bit_simps)
  show "\<not> 0xC0 OR drop_bit 6 n < 128" by (simp add: byte_bits bit_simps)
qed

lemma char_of_byte [simp]: "char_of (unat (of_char c :: 8 word)) = c"
proof -
  have "(of_char c :: nat) = of_char c mod 256" by simp
  then have lt: "(of_char c :: nat) < 2 ^ 8" by simp
  have w: "(of_char c :: 8 word) = of_nat (of_char c)" by (simp only: of_nat_of_char)
  have "unat (of_nat (of_char c) :: 8 word) = of_char c"
    using lt by (simp add: unsigned_of_nat take_bit_nat_eq_self del: of_char_mod_256)
  then show ?thesis unfolding w [symmetric] by simp
qed

lemma utf8_parse_encode: "utf8_parse (utf8_encode s) = Some s"
proof (induction s)
  case (Cons c s)
  show ?case
    using Cons utf8_two_bytes [of "of_char c"]
    by (cases "(of_char c :: 8 word) < 128") (auto simp: utf8_encode_def utf8_char_def Let_def)
qed (simp add: utf8_encode_def)

lemma b64_filter:
  assumes "\<forall>x\<in>set xs. x < 64"
  shows "List.map_filter b64_val (map b64_char xs @ replicate n (CHR ''='')) = xs"
proof -
  have "List.map_filter b64_val (replicate n (CHR ''='')) = []"
    by (induction n) (simp_all add: map_filter_simps b64_val_def)
  then show ?thesis using assms by (induction xs) (simp_all add: map_filter_simps b64_val_char)
qed

lemma fromBase64_toBase64: "fromBase64 (toBase64 bs) = bs"
  by (simp add: fromBase64_def toBase64_def b64_filter sextet_bound octets_sextets)

lemma length_octets_sextets: "length (fromBase64 (toBase64 bs)) = length bs"
  by (simp add: fromBase64_toBase64)

text \<open>What was encrypted decrypts, with the same password.\<close>

lemma decrypt_opens:
  assumes "cipher_ok L" and "length salt = 16" and "length iv = 16"
  shows "decrypt_text L (encrypt_with L salt iv p pw) pw = Inr p"
proof -
  let ?sealed = "cy_seal L (cy_scrypt L pw salt) iv (utf8_encode p)"
  have "length (snd ?sealed) = 16" "cy_open L (cy_scrypt L pw salt) iv (snd ?sealed) (fst ?sealed) = Some (utf8_encode p)"
    using assms(1) by (simp_all add: cipher_ok_def)
  moreover have "encrypt_with L salt iv p pw = toBase64 (salt @ iv @ snd ?sealed @ fst ?sealed)"
    by (simp add: encrypt_with_def Let_def split: prod.split)
  ultimately show ?thesis
    using assms(2,3) by (simp add: decrypt_text_def fromBase64_toBase64 Let_def utf8_decode_def utf8_parse_encode)
qed

text \<open>
  C28. What was encrypted decrypts, with the same password, for every text, salt and IV. And nothing else
  does: a text that decrypts is the base64 of a salt, an IV, and what the cipher makes of
  bytes that read as the result under the password and that salt and IV; in particular it has at
  least 48 bytes.
\<close>
theorem decrypt_encrypt:
  assumes "cipher_ok L" and "length salt = 16" and "length iv = 16"
  shows "decrypt_text L (encrypt_with L salt iv p pw) pw = Inr p
    \<and> (decrypt_text L c pw = Inr q \<longrightarrow> (\<exists>salt' iv' plain. length salt' = 16 \<and> length iv' = 16
        \<and> q = utf8_decode (cy_otherText L) plain
        \<and> fromBase64 c = salt' @ iv' @ snd (cy_seal L (cy_scrypt L pw salt') iv' plain) @ fst (cy_seal L (cy_scrypt L pw salt') iv' plain)))"
proof (intro conjI impI)
  show "decrypt_text L (encrypt_with L salt iv p pw) pw = Inr p" by (rule decrypt_opens [OF assms])
next
  assume "decrypt_text L c pw = Inr q"
  then obtain plain where len: "48 \<le> length (fromBase64 c)"
    and plain: "cy_open L (cy_scrypt L pw (take 16 (fromBase64 c))) (take 16 (drop 16 (fromBase64 c)))
        (take 16 (drop 32 (fromBase64 c))) (drop 48 (fromBase64 c)) = Some plain"
    and q: "q = utf8_decode (cy_otherText L) plain"
    by (auto simp: decrypt_text_def Let_def not_less split: if_splits option.splits)
  let ?b = "fromBase64 c"
  let ?key = "cy_scrypt L pw (take 16 ?b)"
  have "(drop 48 ?b, take 16 (drop 32 ?b)) = cy_seal L ?key (take 16 (drop 16 ?b)) plain"
    using assms(1) plain unfolding cipher_ok_def by blast
  then have "snd (cy_seal L ?key (take 16 (drop 16 ?b)) plain) = take 16 (drop 32 ?b)"
    "fst (cy_seal L ?key (take 16 (drop 16 ?b)) plain) = drop 48 ?b" by (metis snd_conv, metis fst_conv)
  moreover have "?b = take 16 ?b @ take 16 (drop 16 ?b) @ take 16 (drop 32 ?b) @ drop 48 ?b"
  proof -
    have "take 16 (drop 32 ?b) @ drop 48 ?b = drop 32 ?b" "take 16 (drop 16 ?b) @ drop 32 ?b = drop 16 ?b"
      using append_take_drop_id [of 16 "drop 32 ?b"] append_take_drop_id [of 16 "drop 16 ?b"] by simp_all
    then show ?thesis by (simp only: append_take_drop_id)
  qed
  ultimately show "\<exists>salt' iv' plain. length salt' = 16 \<and> length iv' = 16 \<and> q = utf8_decode (cy_otherText L) plain
      \<and> ?b = salt' @ iv' @ snd (cy_seal L (cy_scrypt L pw salt') iv' plain) @ fst (cy_seal L (cy_scrypt L pw salt') iv' plain)"
    using len q by (intro exI [of _ "take 16 ?b"] exI [of _ "take 16 (drop 16 ?b)"] exI [of _ plain]) simp
qed

section \<open>An example\<close>

text \<open>A cipher that hides nothing and has one tag.\<close>

definition plain_cipher :: cipher_lib where
  "plain_cipher = \<lparr>cy_scrypt = (\<lambda>p s. []), cy_seal = (\<lambda>k iv p. (p, replicate 16 0)),
     cy_open = (\<lambda>k iv tag enc. if tag = replicate 16 0 then Some enc else None), cy_otherText = (\<lambda>b. [])\<rparr>"

lemma plain_cipher_ok [simp]: "cipher_ok plain_cipher"
  by (simp add: cipher_ok_def plain_cipher_def)

theorem decrypt_encrypt_witness:
  "decrypt_text plain_cipher (encrypt_with plain_cipher (replicate 16 7) (replicate 16 9) ''code'' ''k'') ''k'' = Inr ''code''"
  using decrypt_encrypt [OF plain_cipher_ok, of "replicate 16 7" "replicate 16 9" "''code''" "''k''"] by simp

end
