(* ===== verification/Notification.thy ===== *)
theory Notification
  imports Pagination Contracts Jwt Crypto
begin

text \<open>
  The notification service: \<open>notification.service.ts\<close> on the table of notifications, the
  resolution of the user in \<open>notification.controller.ts\<close>, and the mails of \<open>mails.service.ts\<close>.
  UUIDs, ISO dates, the formats of zod, the cipher, URL encoding and what the client of the
  database accepts as a row count are parameters; a request runs at one instant. \<open>mailer\<close> says how
  the mail server answers.
\<close>

section \<open>State\<close>

record noti_row =
  no_id :: string
  no_userId :: string
  no_type :: string
  no_title :: string
  no_body :: "string option"
  no_data :: "json option"
  no_readAt :: "int option"
  no_createdAt :: int

datatype noti_effect =
    NotiPublished string json
  | Mailed string string string
  | LogError string

record noti_state =
  ns_rows :: "noti_row list"
  ns_draws :: nat
  ns_out :: "noti_effect list"

type_synonym 'a noti = "(noti_state, exn, 'a) prog"

record noti_env =
  ne_uuid :: "nat \<Rightarrow> string"
  ne_iso :: "int \<Rightarrow> string"
  ne_formats :: zod_formats
  ne_natsUp :: bool
  ne_encryptKey :: "string option"
  ne_decrypt :: "string \<Rightarrow> string \<Rightarrow> exn + string"
  ne_mailer :: "string \<Rightarrow> exn option"
  ne_uri :: "string \<Rightarrow> string"
  ne_baseUrl :: "string option"
  ne_rowCount :: "js_num \<Rightarrow> nat option"
  ne_physical :: "noti_row \<Rightarrow> nat"

definition rows_where :: "(noti_row \<Rightarrow> bool) \<Rightarrow> noti_row list noti" where
  "rows_where P = gets (\<lambda>s. filter P (ns_rows s))"

definition noti_effect_do :: "noti_effect \<Rightarrow> unit noti" where
  "noti_effect_do e = modify (\<lambda>s. s\<lparr>ns_out := ns_out s @ [e]\<rparr>)"

section \<open>The user of a request\<close>

definition resolveUserId :: "string option \<Rightarrow> string option \<Rightarrow> string option \<Rightarrow> string" where
  "resolveUserId user infoData headerUserId = nullish user (nullish infoData (nullish headerUserId []))"

text \<open>\<open>@User()\<close>, \<open>@Info('data')\<close> and the header, after the guard of the service.\<close>

definition request_userId :: "authenticated \<Rightarrow> string option \<Rightarrow> string" where
  "request_userId au header = resolveUserId (Option.bind (fst au) usr_userId) (Option.bind (snd au) usr_data_userId) header"

section \<open>Reading\<close>

definition userId_required :: exn where "userId_required = service_exn VALIDATION_ERROR 400 ''userId is required''"

definition unreadCount :: "string \<Rightarrow> nat noti" where
  "unreadCount userId = (if userId = [] then throw userId_required
     else gets (\<lambda>s. count_where (\<lambda>r. no_userId r = userId \<and> no_readAt r = None) (ns_rows s)))"

text \<open>The order of the database: no date is last when ascending, first when descending.\<close>

definition date_le :: "int option \<Rightarrow> int option \<Rightarrow> bool" where
  "date_le a b = (case (a, b) of (_, None) \<Rightarrow> True | (None, Some _) \<Rightarrow> False | (Some x, Some y) \<Rightarrow> x \<le> y)"

definition sort_key :: "string \<Rightarrow> noti_row \<Rightarrow> int option" where
  "sort_key sortBy r = (if sortBy = ''readAt'' then no_readAt r else Some (no_createdAt r))"

definition row_le :: "string \<Rightarrow> string \<Rightarrow> noti_row \<Rightarrow> noti_row \<Rightarrow> bool" where
  "row_le sortBy sortOrder r q = (if sortOrder = ''asc'' then date_le (sort_key sortBy r) (sort_key sortBy q)
     else date_le (sort_key sortBy q) (sort_key sortBy r))"

record noti_page =
  np_items :: "noti_row list"
  np_total :: nat
  np_page :: js_num
  np_limit :: js_num
  np_sortBy :: string
  np_sortOrder :: string

text \<open>
  \<open>orderBy\<close> on one column: rows that agree on it come in whatever order the database reads them in, which
  is a parameter: \<open>ne_physical\<close> is where the plan of this query finds a row, and may differ from query to query.
\<close>

definition ordered_rows :: "noti_env \<Rightarrow> string \<Rightarrow> string \<Rightarrow> noti_row list \<Rightarrow> noti_row list" where
  "ordered_rows E sortBy sortOrder rows =
     sort_by (row_le sortBy sortOrder) (sort_by (\<lambda>a b. ne_physical E a \<le> ne_physical E b) rows)"

definition bad_row_count :: exn where "bad_row_count = PlainErr ''Invalid value for argument skip or take''"

definition listByUser :: "noti_env \<Rightarrow> string \<Rightarrow> string option \<Rightarrow> string option \<Rightarrow> string option \<Rightarrow> string option \<Rightarrow> noti_page noti" where
  "listByUser E userId pageRaw limitRaw sortByRaw sortOrderRaw =
     (if userId = [] then throw userId_required
      else (let page = query_page pageRaw;
                limit = query_limit limitRaw;
                skip = query_skip page limit;
                sortBy = (if sortByRaw = Some ''createdAt'' \<or> sortByRaw = Some ''readAt'' then nullish sortByRaw [] else ''createdAt'');
                sortOrder = (if sortOrderRaw = Some ''asc'' then ''asc'' else ''desc'')
            in (case (ne_rowCount E skip, ne_rowCount E limit) of
                (Some sk, Some tk) \<Rightarrow> bind (rows_where (\<lambda>r. no_userId r = userId)) (\<lambda>rows.
                  ret \<lparr>np_items = take tk (drop sk (ordered_rows E sortBy sortOrder rows)), np_total = length rows,
                       np_page = page, np_limit = limit, np_sortBy = sortBy, np_sortOrder = sortOrder\<rparr>)
              | _ \<Rightarrow> throw bad_row_count)))"

section \<open>Marking\<close>

text \<open>The result: the id and \<open>readAt\<close> of the row, as an ISO date.\<close>

definition markRead :: "noti_env \<Rightarrow> int \<Rightarrow> string \<Rightarrow> string \<Rightarrow> (string \<times> string) noti" where
  "markRead E t userId notificationId =
     (if userId = [] \<or> notificationId = []
      then throw (service_exn VALIDATION_ERROR 400 ''userId and notificationId are required'')
      else bind (gets (\<lambda>s. find_first (\<lambda>r. no_id r = notificationId \<and> no_userId r = userId) (ns_rows s))) (\<lambda>existing.
        (case existing of
           None \<Rightarrow> throw (service_exn NOTI_NOT_FOUND 404 ''Notification not found'')
         | Some r \<Rightarrow> (case no_readAt r of
             Some d \<Rightarrow> ret (no_id r, ne_iso E d)
           | None \<Rightarrow> andthen (modify (\<lambda>s. s\<lparr>ns_rows := update_where (\<lambda>q. no_id q = no_id r)
                  (\<lambda>q. q\<lparr>no_readAt := Some t\<rparr>) (ns_rows s)\<rparr>))
               (ret (no_id r, ne_iso E t))))))"

definition readAll :: "int \<Rightarrow> string \<Rightarrow> nat noti" where
  "readAll t userId = (if userId = [] then throw userId_required
     else bind (gets (\<lambda>s. count_where (\<lambda>r. no_userId r = userId \<and> no_readAt r = None) (ns_rows s))) (\<lambda>n.
       andthen (modify (\<lambda>s. s\<lparr>ns_rows := update_where (\<lambda>r. no_userId r = userId \<and> no_readAt r = None)
           (\<lambda>r. r\<lparr>no_readAt := Some t\<rparr>) (ns_rows s)\<rparr>)) (ret n)))"

section \<open>Creation\<close>

record create_noti_dto =
  cn_userId :: string
  cn_type :: string
  cn_title :: string
  cn_body :: "string option"
  cn_data :: "json option"

definition noti_publish :: "noti_env \<Rightarrow> string \<Rightarrow> json \<Rightarrow> unit noti" where
  "noti_publish E subject j = whenp (ne_natsUp E) (noti_effect_do (NotiPublished subject j))"

text \<open>Columns that are \<open>null\<close> come back as \<open>null\<close>, not as \<open>undefined\<close>.\<close>

definition or_null :: "json option \<Rightarrow> json" where "or_null v = nullish v JNull"

text \<open>\<open>payLoad.data?.actionCreatedAt ?? now\<close>: \<open>null\<close> and \<open>undefined\<close> both give now.\<close>

definition action_date :: "create_noti_dto \<Rightarrow> string \<Rightarrow> json" where
  "action_date payLoad now = (case Option.bind (cn_data payLoad) (jget ''actionCreatedAt'') of
     None \<Rightarrow> JStr now | Some JNull \<Rightarrow> JStr now | Some v \<Rightarrow> v)"

definition created_event :: "create_noti_dto \<Rightarrow> string \<Rightarrow> noti_row \<Rightarrow> nat \<Rightarrow> json" where
  "created_event payLoad now noti count = JObj
     [(''notificationId'', JStr (no_id noti)), (''userId'', JStr (no_userId noti)), (''type'', JStr (no_type noti)),
      (''title'', JStr (no_title noti)), (''body'', or_null (map_option JStr (no_body noti))),
      (''data'', or_null (no_data noti)), (''actionCreatedAt'', action_date payLoad now),
      (''unreadCount'', JNum (int count))]"

text \<open>What is returned: the row, its dates as ISO dates.\<close>

definition noti_view :: "noti_env \<Rightarrow> noti_row \<Rightarrow> json" where
  "noti_view E noti = JObj
     [(''id'', JStr (no_id noti)), (''userId'', JStr (no_userId noti)), (''title'', JStr (no_title noti)),
      (''body'', or_null (map_option JStr (no_body noti))), (''type'', JStr (no_type noti)), (''data'', or_null (no_data noti)),
      (''readAt'', or_null (map_option (\<lambda>d. JStr (ne_iso E d)) (no_readAt noti))),
      (''createdAt'', JStr (ne_iso E (no_createdAt noti)))]"

definition createNoti :: "noti_env \<Rightarrow> int \<Rightarrow> create_noti_dto \<Rightarrow> json noti" where
  "createNoti E t payLoad =
     bind (\<lambda>s. (Inr (ne_uuid E (ns_draws s)), s\<lparr>ns_draws := ns_draws s + 1\<rparr>)) (\<lambda>i.
     (let noti = \<lparr>no_id = i, no_userId = cn_userId payLoad, no_type = cn_type payLoad, no_title = cn_title payLoad,
            no_body = cn_body payLoad, no_data = cn_data payLoad, no_readAt = None, no_createdAt = t\<rparr>
      in andthen (modify (\<lambda>s. s\<lparr>ns_rows := ns_rows s @ [noti]\<rparr>))
        (bind (unreadCount (no_userId noti)) (\<lambda>count.
         bind (lift (NotificationCreatedSchema (ne_formats E) (created_event payLoad (ne_iso E t) noti count))) (\<lambda>validated.
         andthen (noti_publish E NOTIFICATION_CREATED (notification_created_json validated))
           (ret (noti_view E noti)))))))"

section \<open>Mails\<close>

text \<open>The constructor: the address the mails come from.\<close>

definition mails_new :: "string option \<Rightarrow> string option \<Rightarrow> exn + string" where
  "mails_new mailUser mailAppPassword =
     (let user = map_option trim mailUser;
          pass = map_option trim mailAppPassword;
          missing = (if truthy user then [] else [''MAIL_USER'']) @ (if truthy pass then [] else [''MAIL_APP_PASSWORD''])
      in if missing \<noteq> [] then Inl (PlainErr (''MailsService: Missing required env: '' @ join '', '' missing @ ''. Set them in .env''))
         else Inr (nullish user []))"

definition sendMail :: "noti_env \<Rightarrow> string \<Rightarrow> string \<Rightarrow> string \<Rightarrow> unit noti" where
  "sendMail E dest subject html = (case ne_mailer E dest of Some e \<Rightarrow> throw e
     | None \<Rightarrow> noti_effect_do (Mailed dest subject html))"

definition base_url :: "noti_env \<Rightarrow> string" where
  "base_url E = or_str (ne_baseUrl E) ''http://localhost:3001''"

definition verify_url :: "noti_env \<Rightarrow> string \<Rightarrow> string \<Rightarrow> string" where
  "verify_url E email code = base_url E @ ''/auth/register/verify/confirm?email='' @ ne_uri E email @ ''&code='' @ ne_uri E code"

text \<open>A line break of the template and the indentation of the next line.\<close>

definition line :: "nat \<Rightarrow> string" where "line n = CHR 0x0A # replicate n (CHR '' '')"

definition verify_mail :: "noti_env \<Rightarrow> string \<Rightarrow> string \<Rightarrow> string" where
  "verify_mail E email code = line 8 @ ''<h2>Verify your account</h2>''
      @ line 8 @ ''<p>Click the link below to verify (we will send a POST request for you):</p>''
      @ line 8 @ ''<p><a href='' @ [CHR 0x22] @ verify_url E email code @ [CHR 0x22] @ ''>Verify my email</a></p>''
      @ line 8 @ ''<p>This link will expire in 15 minutes.</p>'' @ line 6"

definition sendVerifyCode :: "noti_env \<Rightarrow> string \<Rightarrow> string \<Rightarrow> unit noti" where
  "sendVerifyCode E email code = sendMail E email ''Your verification code'' (verify_mail E email code)"

definition sendResetPassword_mail :: "noti_env \<Rightarrow> string \<Rightarrow> string \<Rightarrow> unit noti" where
  "sendResetPassword_mail E email token = sendMail E email ''Reset your password''
     (''Click the link below to reset your password: '' @ base_url E @ ''/auth/reset-password?token='' @ ne_uri E token)"

text \<open>The result is \<open>undefined\<close> after a failure, which is only logged.\<close>

definition sendMailRegis :: "noti_env \<Rightarrow> user_registered \<Rightarrow> bool option noti" where
  "sendMailRegis E event = catchp
     (bind (lift (env_encryptKey (ne_encryptKey E))) (\<lambda>key.
      bind (lift (ne_decrypt E (ur_code event) key)) (\<lambda>code.
      andthen (sendVerifyCode E (ur_email event) code) (ret (Some True)))))
     (\<lambda>_. andthen (noti_effect_do (LogError ''Send Email failed'')) (ret None))"

section \<open>Pages\<close>

lemma ws_not_digit: "is_digit c \<Longrightarrow> \<not> ws_char c"
  by (auto simp: is_digit_def ws_char_def)

lemma trim_show_nat: "trim (show_nat n) = show_nat n"
proof -
  have "\<forall>c\<in>set (show_nat n). \<not> ws_char c" using show_nat_digits ws_not_digit by blast
  then have "dropWhile ws_char (show_nat n) = show_nat n" "dropWhile ws_char (rev (show_nat n)) = rev (show_nat n)"
    by (auto simp: dropWhile_eq_self_iff hd_rev)
  then show ?thesis by (simp add: trim_def)
qed

lemma toNumber_show_nat: "toNumber (show_nat n) = Num (of_nat n)"
proof -
  have digits: "list_all is_digit (show_nat n)" using show_nat_digits by (simp add: list_all_iff)
  have radix: "radix_of (show_nat n) = None"
    using show_nat_leading [of n] by (cases "show_nat n") (auto simp: radix_of_def)
  obtain c cs where c: "show_nat n = c # cs" by (cases "show_nat n") auto
  have d: "is_digit c" using digits c by simp
  have u: "unsigned_decimal (show_nat n) = Some (of_nat n)"
  proof -
    have w: "takeWhile is_digit (show_nat n) = show_nat n" "dropWhile is_digit (show_nat n) = []"
      using show_nat_digits by (simp_all add: takeWhile_eq_all_conv dropWhile_eq_Nil_conv)
    show ?thesis by (simp add: w unsigned_decimal_def Let_def exponent_def pow10_def digits_val_show_nat)
  qed
  have "c \<noteq> CHR ''-''" "c \<noteq> CHR ''+''" "c \<noteq> CHR ''I''" using d by (auto simp: is_digit_def)
  then show ?thesis
    using u radix trim_show_nat [of n] unfolding c toNumber_def by (simp add: Let_def)
qed

text \<open>What the theorems need of the client: it takes any number that is a natural number.\<close>

definition takes_naturals :: "noti_env \<Rightarrow> bool" where
  "takes_naturals E \<longleftrightarrow> (\<forall>n. ne_rowCount E (Num (of_nat n)) = Some n)"

abbreviation asked_sort :: "string option \<Rightarrow> string" where
  "asked_sort sortBy \<equiv> (if sortBy = Some ''createdAt'' \<or> sortBy = Some ''readAt'' then nullish sortBy [] else ''createdAt'')"

abbreviation asked_order :: "string option \<Rightarrow> string" where
  "asked_order sortOrder \<equiv> (if sortOrder = Some ''asc'' then ''asc'' else ''desc'')"

abbreviation rows_of :: "string \<Rightarrow> noti_state \<Rightarrow> noti_row list" where
  "rows_of userId s \<equiv> filter (\<lambda>r. no_userId r = userId) (ns_rows s)"

lemma listByUser_run:
  assumes "takes_naturals E" and "userId \<noteq> []" and "1 \<le> l" "l \<le> 100"
  shows "listByUser E userId (Some (show_nat (Suc p))) (Some (show_nat l)) sortBy sortOrder s =
    (Inr \<lparr>np_items = take l (drop (p * l) (ordered_rows E (asked_sort sortBy) (asked_order sortOrder) (rows_of userId s))),
       np_total = length (rows_of userId s), np_page = Num (of_nat (Suc p)), np_limit = Num (of_nat l),
       np_sortBy = asked_sort sortBy, np_sortOrder = asked_order sortOrder\<rparr>, s)"
proof -
  have page: "query_page (Some (show_nat (Suc p))) = Num (of_nat (Suc p))"
    by (simp add: query_page_def toNumber_show_nat num_or_def max_1_def)
  have lim: "query_limit (Some (show_nat l)) = Num (of_nat l)"
    using assms(3,4) by (simp add: query_limit_def toNumber_show_nat num_or_def max_1_def min_100_def)
  have "query_skip (Num (of_nat (Suc p))) (Num (of_nat l)) = Num (of_nat (p * l))"
    by (simp add: query_skip_def)
  moreover have "ne_rowCount E (Num (of_nat (p * l))) = Some (p * l)" "ne_rowCount E (Num (of_nat l)) = Some l"
    using assms(1) unfolding takes_naturals_def by blast+
  ultimately show ?thesis
    using assms(2) by (simp only: listByUser_def page lim Let_def) (simp add: rows_where_def bind_run)
qed

definition items_of :: "(exn + noti_page) \<times> noti_state \<Rightarrow> noti_row list" where
  "items_of r = (case fst r of Inr p \<Rightarrow> np_items p | Inl _ \<Rightarrow> [])"

text \<open>The pages \<open>1\<close> to \<open>n\<close> of a user, each read by a query of its own: page \<open>p + 1\<close> finds the rows where \<open>f p\<close> says.\<close>

definition pages_read :: "noti_env \<Rightarrow> (nat \<Rightarrow> noti_row \<Rightarrow> nat) \<Rightarrow> string \<Rightarrow> nat \<Rightarrow> string option \<Rightarrow> string option \<Rightarrow> noti_state
    \<Rightarrow> nat \<Rightarrow> noti_row list list" where
  "pages_read E f userId l sortBy sortOrder s n =
     map (\<lambda>p. items_of (listByUser (E\<lparr>ne_physical := f p\<rparr>) userId (Some (show_nat (Suc p))) (Some (show_nat l)) sortBy sortOrder s)) [0..<n]"

lemma pages_read_run:
  assumes "takes_naturals E" and "userId \<noteq> []" and "1 \<le> l" "l \<le> 100"
  shows "pages_read E f userId l sortBy sortOrder s n =
    map (\<lambda>p. take l (drop (p * l) (ordered_rows (E\<lparr>ne_physical := f p\<rparr>) (asked_sort sortBy) (asked_order sortOrder) (rows_of userId s)))) [0..<n]"
proof -
  have "takes_naturals (E\<lparr>ne_physical := f p\<rparr>)" for p using assms(1) by (simp add: takes_naturals_def)
  from listByUser_run [OF this assms(2-4)] show ?thesis by (simp add: pages_read_def items_of_def)
qed

lemma row_le_total: "row_le by ord x y \<or> row_le by ord y x"
  by (auto simp: row_le_def date_le_def split: option.splits)

lemma row_le_trans: "row_le by ord x y \<Longrightarrow> row_le by ord y z \<Longrightarrow> row_le by ord x z"
  by (auto simp: row_le_def date_le_def split: option.splits if_splits)

lemma row_le_tied: "sort_key by x = sort_key by y \<Longrightarrow> row_le by ord x y"
  by (simp add: row_le_def date_le_def split: option.splits)

lemma row_le_antisym: "row_le by ord x y \<Longrightarrow> row_le by ord y x \<Longrightarrow> sort_key by x = sort_key by y"
  by (auto simp: row_le_def date_le_def split: option.splits if_splits)

lemma ordered_rows_simps [simp]: "set (ordered_rows E by ord rows) = set rows" "length (ordered_rows E by ord rows) = length rows"
    "count_list (ordered_rows E by ord rows) x = count_list rows x" "sorted_wrt (row_le by ord) (ordered_rows E by ord rows)"
  using sorted_sort_by [of "row_le by ord", OF row_le_total row_le_trans] by (simp_all add: ordered_rows_def)

text \<open>Where no two rows agree on the column, the order says it all.\<close>

lemma ordered_rows_unique:
  assumes "inj_on (sort_key by) (set rows)"
  shows "ordered_rows E by ord rows = ordered_rows E' by ord rows"
proof (rule sorted_unique_by [where le = "row_le by ord"])
  show "x = y" if "x \<in> set (ordered_rows E by ord rows)" "y \<in> set (ordered_rows E by ord rows)"
      "row_le by ord x y" "row_le by ord y x" for x y
    using inj_onD [OF assms row_le_antisym [OF that(3,4)]] that(1,2) by simp
qed (simp_all add: fun_eq_iff)

text \<open>
  C25. Reading page after page misses nothing and repeats nothing where the sort column tells the user's
  notifications apart: whatever order the database reads rows in and however it changes between the
  queries, for any page size of 1 to 100, the pages 1 to \<open>n\<close> are, joined, in the asked order, and once they cover the
  count they hold exactly the user's notifications. Without that, each page still is in order, of the right size
  and of the user's notifications only.
\<close>
theorem noti_pages:
  assumes "takes_naturals E" and "userId \<noteq> []" and "1 \<le> l" "l \<le> 100"
    and "pages = pages_read E f userId l sortBy sortOrder s n"
  shows "(\<forall>p<n. sorted_wrt (row_le (asked_sort sortBy) (asked_order sortOrder)) (pages ! p)
        \<and> length (pages ! p) = min l (length (rows_of userId s) - p * l) \<and> set (pages ! p) \<subseteq> set (rows_of userId s))
    \<and> (inj_on (sort_key (asked_sort sortBy)) (set (rows_of userId s)) \<longrightarrow>
        sorted_wrt (row_le (asked_sort sortBy) (asked_order sortOrder)) (concat pages)
        \<and> (length (rows_of userId s) \<le> n * l \<longrightarrow> count_list (concat pages) = count_list (rows_of userId s)))"
proof (intro conjI impI allI)
  let ?by = "asked_sort sortBy" and ?ord = "asked_order sortOrder" and ?rows = "rows_of userId s"
  note pages = assms(5) [unfolded pages_read_run [OF assms(1-4)]]
  fix p assume p: "p < n"
  show "sorted_wrt (row_le ?by ?ord) (pages ! p)"
    using p by (simp add: pages sorted_wrt_take sorted_wrt_drop)
  show "length (pages ! p) = min l (length ?rows - p * l)" using p by (simp add: pages)
  show "set (pages ! p) \<subseteq> set ?rows"
    using p set_take_subset set_drop_subset by (fastforce simp: pages)
next
  let ?by = "asked_sort sortBy" and ?ord = "asked_order sortOrder" and ?rows = "rows_of userId s"
  note pages = assms(5) [unfolded pages_read_run [OF assms(1-4)]]
  assume inj: "inj_on (sort_key ?by) (set ?rows)"
  have same: "ordered_rows (E\<lparr>ne_physical := f p\<rparr>) ?by ?ord ?rows = ordered_rows E ?by ?ord ?rows" for p
    by (rule ordered_rows_unique [OF inj])
  have "concat pages = concat (map (\<lambda>p. take l (drop (p * l) (ordered_rows E ?by ?ord ?rows))) [0..<n])"
    unfolding pages same ..
  then have all: "concat pages = take (n * l) (ordered_rows E ?by ?ord ?rows)" by (simp add: concat_pages)
  show "sorted_wrt (row_le ?by ?ord) (concat pages)" unfolding all by (simp add: sorted_wrt_take)
  show "count_list (concat pages) = count_list ?rows" if "length ?rows \<le> n * l"
    using that by (simp add: all fun_eq_iff)
qed

lemma filter_one: "distinct xs \<Longrightarrow> x \<in> set xs \<Longrightarrow> filter (\<lambda>y. y = x) xs = [x]"
  by (induction xs) (auto intro: filter_False)

lemma sort_by_equal: "(\<And>x y. x \<in> set xs \<Longrightarrow> y \<in> set xs \<Longrightarrow> le x y) \<Longrightarrow> sort_by le xs = xs"
  unfolding sort_by_def
proof (induction xs)
  case (Cons x xs)
  then show ?case by (cases xs) simp_all
qed simp

lemma sort_by_two: "sort_by (\<lambda>a b. (if P a then 0 else 1 :: nat) \<le> (if P b then 0 else 1)) xs = filter P xs @ filter (\<lambda>x. \<not> P x) xs"
proof (induction xs)
  case (Cons x xs)
  let ?le = "\<lambda>a b. (if P a then 0 else 1 :: nat) \<le> (if P b then 0 else 1)"
  have front: "insert_by ?le x ys = x # ys" if "P x" for ys using that by (cases ys) simp_all
  have behind: "insert_by ?le x (filter P ys @ filter (\<lambda>x. \<not> P x) zs) = filter P ys @ x # filter (\<lambda>x. \<not> P x) zs" if "\<not> P x" for ys zs
  proof -
    have "insert_by ?le x (filter (\<lambda>x. \<not> P x) zs) = x # filter (\<lambda>x. \<not> P x) zs" by (induction zs) simp_all
    then show ?thesis by (induction ys) (simp_all add: that)
  qed
  show ?case
    using Cons.IH front behind by (simp add: sort_by_def)
qed (simp add: sort_by_def)

text \<open>
  The pages of a user whose notifications the sort column does not tell apart can lose one: when all of them
  agree on it, as unread ones do on \<open>readAt\<close>, and they fill more than one page, then for each of them there are orders in which the
  database may read the rows, one per query, such that it is on none of the pages, however many are read, although together
  they have room for all.
\<close>
theorem pages_miss:
  assumes "takes_naturals E" and "userId \<noteq> []" and "1 \<le> l" "l \<le> 100"
    and "distinct (ns_rows s)" and "r \<in> set (rows_of userId s)" and "l < length (rows_of userId s)"
    and "\<forall>q\<in>set (rows_of userId s). sort_key (asked_sort sortBy) q = sort_key (asked_sort sortBy) r"
  shows "\<exists>f. \<forall>n. r \<notin> set (concat (pages_read E f userId l sortBy sortOrder s n))"
proof -
  let ?rows = "rows_of userId s" and ?by = "asked_sort sortBy" and ?ord = "asked_order sortOrder"
  define f where "f p q = (if (p = 0) = (q \<noteq> r) then 0 else 1 :: nat)" for p :: nat and q
  have tied: "ordered_rows (E\<lparr>ne_physical := f p\<rparr>) ?by ?ord ?rows = sort_by (\<lambda>a b. f p a \<le> f p b) ?rows" for p
  proof -
    have "row_le ?by ?ord x y" if "x \<in> set ?rows" "y \<in> set ?rows" for x y
      by (rule row_le_tied) (use assms(8) that in metis)
    then show ?thesis unfolding ordered_rows_def by (subst sort_by_equal) simp_all
  qed
  have one: "filter (\<lambda>q. q = r) ?rows = [r]"
    using filter_one [of ?rows r] assms(5,6) by simp
  have first: "sort_by (\<lambda>a b. f 0 a \<le> f 0 b) ?rows = filter (\<lambda>q. q \<noteq> r) ?rows @ [r]"
    unfolding f_def using sort_by_two [of "\<lambda>q. q \<noteq> r" ?rows] one by simp
  have later: "sort_by (\<lambda>a b. f (Suc p) a \<le> f (Suc p) b) ?rows = r # filter (\<lambda>q. q \<noteq> r) ?rows" for p
    unfolding f_def using sort_by_two [of "\<lambda>q. q = r" ?rows] one by simp
  have "length ?rows = Suc (length (filter (\<lambda>q. q \<noteq> r) ?rows))"
    using arg_cong [OF first, of length] by simp
  then have room: "l \<le> length (filter (\<lambda>q. q \<noteq> r) ?rows)" using assms(7) by simp
  have "r \<notin> set (take l (drop (p * l) (ordered_rows (E\<lparr>ne_physical := f p\<rparr>) ?by ?ord ?rows)))" for p
  proof (cases p)
    case 0
    then show ?thesis using room by (auto simp only: tied first) (auto dest: in_set_takeD)
  next
    case (Suc k)
    have "0 < p * l" using Suc assms(3) by simp
    then obtain m where "p * l = Suc m" using gr0_implies_Suc by blast
    then show ?thesis unfolding tied using later by (auto simp: Suc dest!: in_set_takeD in_set_dropD)
  qed
  then show ?thesis
    unfolding pages_read_run [OF assms(1-4)] by (intro exI [of _ f]) auto
qed

section \<open>Reading marks\<close>

abbreviation unread :: "string \<Rightarrow> noti_row list \<Rightarrow> nat" where
  "unread userId rows \<equiv> count_where (\<lambda>r. no_userId r = userId \<and> no_readAt r = None) rows"

text \<open>
  C26. Marking a notification as read is the owner's, is done once, and counts once: it succeeds only for
  a notification of the user, keeps the first date however often it is repeated, takes one off
  the unread count the first time, and touches no other row.
\<close>
theorem mark_read_once:
  assumes "distinct (map no_id (ns_rows s))" and "markRead E t userId i s = (Inr x, s')"
  shows "(\<exists>r\<in>set (ns_rows s). no_id r = i \<and> no_userId r = userId
        \<and> unread userId (ns_rows s') + (if no_readAt r = None then 1 else 0) = unread userId (ns_rows s))
    \<and> filter (\<lambda>q. no_id q \<noteq> i) (ns_rows s') = filter (\<lambda>q. no_id q \<noteq> i) (ns_rows s)
    \<and> markRead E t' userId i s' = (Inr x, s')"
proof -
  from assms(2) have args: "userId \<noteq> []" "i \<noteq> []" by (auto simp: markRead_def service_exn_def split: if_splits)
  obtain r where r: "find_first (\<lambda>r. no_id r = i \<and> no_userId r = userId) (ns_rows s) = Some r"
    using assms(2) args by (cases "find_first (\<lambda>r. no_id r = i \<and> no_userId r = userId) (ns_rows s)")
      (auto simp: markRead_def bind_run simp del: find_first_None_iff)
  note rD = find_first_SomeD [OF r]
  show ?thesis
  proof (cases "no_readAt r")
    case (Some d)
    then have "x = (no_id r, ne_iso E d)" "s' = s"
      using assms(2) args r by (simp_all add: markRead_def bind_run)
    then show ?thesis using rD Some args r by (auto simp: markRead_def bind_run)
  next
    case None
    let ?f = "\<lambda>q. q\<lparr>no_readAt := Some t\<rparr>"
    let ?rows = "update_where (\<lambda>q. no_id q = no_id r) ?f (ns_rows s)"
    have x: "x = (no_id r, ne_iso E t)" and s': "s' = s\<lparr>ns_rows := ?rows\<rparr>"
      using assms(2) args r None by (simp_all add: markRead_def bind_run andthen_run)
    have "Suc (unread userId ?rows) = unread userId (ns_rows s)"
      using rD None by (intro count_where_update_one [OF assms(1)]) auto
    moreover have "filter (\<lambda>q. no_id q \<noteq> i) ?rows = filter (\<lambda>q. no_id q \<noteq> i) (ns_rows s)"
      using rD by (intro filter_update_where) simp
    moreover have "find_first (\<lambda>r. no_id r = i \<and> no_userId r = userId) ?rows = Some (?f r)"
      using r by (simp add: find_first_update_where)
    ultimately show ?thesis
      using rD None args by (auto simp: s' x markRead_def bind_run)
  qed
qed

text \<open>
  Marking all as read marks exactly the user's unread notifications: the count it returns is the
  unread count before, the unread count after is 0, and neither a notification of another user nor
  the date of one read earlier changes.
\<close>
theorem read_all_exact:
  assumes "readAll t userId s = (Inr n, s')"
  shows "n = unread userId (ns_rows s) \<and> unread userId (ns_rows s') = 0
    \<and> filter (\<lambda>r. no_userId r \<noteq> userId) (ns_rows s') = filter (\<lambda>r. no_userId r \<noteq> userId) (ns_rows s)
    \<and> filter (\<lambda>r. no_readAt r \<noteq> None \<and> no_readAt r \<noteq> Some t) (ns_rows s') =
        filter (\<lambda>r. no_readAt r \<noteq> None \<and> no_readAt r \<noteq> Some t) (ns_rows s)"
proof -
  let ?P = "\<lambda>r. no_userId r = userId \<and> no_readAt r = None"
  let ?rows = "update_where ?P (\<lambda>r. r\<lparr>no_readAt := Some t\<rparr>) (ns_rows s)"
  have "n = unread userId (ns_rows s)" "s' = s\<lparr>ns_rows := ?rows\<rparr>"
    using assms by (auto simp: readAll_def bind_run andthen_run split: if_splits)
  moreover have "unread userId ?rows = 0"
    by (rule count_where_update_all) simp
  moreover have "filter (\<lambda>r. no_userId r \<noteq> userId) ?rows = filter (\<lambda>r. no_userId r \<noteq> userId) (ns_rows s)"
    by (rule filter_update_where) simp
  moreover have "filter (\<lambda>r. no_readAt r \<noteq> None \<and> no_readAt r \<noteq> Some t) ?rows =
      filter (\<lambda>r. no_readAt r \<noteq> None \<and> no_readAt r \<noteq> Some t) (ns_rows s)"
    by (rule filter_update_where) simp
  ultimately show ?thesis by simp
qed

section \<open>Creation\<close>

lemma noti_effect_do_run [simp]: "noti_effect_do e s = (Inr (), s\<lparr>ns_out := ns_out s @ [e]\<rparr>)"
  by (simp add: noti_effect_do_def)

lemma created_event_get [simp]:
  "jget ''notificationId'' (created_event p now n c) = Some (JStr (no_id n))"
  "jget ''userId'' (created_event p now n c) = Some (JStr (no_userId n))"
  "jget ''type'' (created_event p now n c) = Some (JStr (no_type n))"
  "jget ''title'' (created_event p now n c) = Some (JStr (no_title n))"
  "jget ''body'' (created_event p now n c) = Some (or_null (map_option JStr (no_body n)))"
  "jget ''data'' (created_event p now n c) = Some (or_null (no_data n))"
  "jget ''actionCreatedAt'' (created_event p now n c) = Some (action_date p now)"
  "jget ''unreadCount'' (created_event p now n c) = Some (JNum (int c))"
  by (simp_all add: created_event_def jget_Cons)

text \<open>A \<open>null\<close> body is refused by the schema, which takes only a string or nothing.\<close>

lemma created_event_null_body:
  "no_body n = None \<Longrightarrow> NotificationCreatedSchema z (created_event p now n c) = Inl (PlainErr ''ZodError'')"
  by (simp add: NotificationCreatedSchema_def or_null_def split: option.split)

lemma created_event_accepted:
  assumes "no_body n = Some b" and "action_date p now = JStr d"
    and "zf_uuid z (no_id n)" "zf_uuid z (no_userId n)" "zf_datetime z d"
  shows "NotificationCreatedSchema z (created_event p now n c) = Inr
    \<lparr>nc_notificationId = no_id n, nc_userId = no_userId n, nc_type = no_type n, nc_title = no_title n, nc_body = Some b,
     nc_data = Some (or_null (no_data n)), nc_actionCreatedAt = d, nc_unreadCount = int c\<rparr>"
  using assms by (simp add: NotificationCreatedSchema_def or_null_def)

lemma count_where_append [simp]: "count_where P (xs @ ys) = count_where P xs + count_where P ys"
  by (simp add: count_where_def)

abbreviation new_row :: "noti_env \<Rightarrow> int \<Rightarrow> create_noti_dto \<Rightarrow> noti_state \<Rightarrow> noti_row" where
  "new_row E t p s \<equiv> \<lparr>no_id = ne_uuid E (ns_draws s), no_userId = cn_userId p, no_type = cn_type p, no_title = cn_title p,
     no_body = cn_body p, no_data = cn_data p, no_readAt = None, no_createdAt = t\<rparr>"

lemma createNoti_run:
  assumes "cn_userId p \<noteq> []"
  shows "createNoti E t p s = (case NotificationCreatedSchema (ne_formats E)
        (created_event p (ne_iso E t) (new_row E t p s) (Suc (unread (cn_userId p) (ns_rows s)))) of
      Inl e \<Rightarrow> (Inl e, s\<lparr>ns_draws := ns_draws s + 1, ns_rows := ns_rows s @ [new_row E t p s]\<rparr>)
    | Inr v \<Rightarrow> (Inr (noti_view E (new_row E t p s)),
        s\<lparr>ns_draws := ns_draws s + 1, ns_rows := ns_rows s @ [new_row E t p s],
          ns_out := ns_out s @ (if ne_natsUp E then [NotiPublished ''notification.created'' (notification_created_json v)] else [])\<rparr>))"
  using assms by (simp add: createNoti_def bind_run andthen_run Let_def unreadCount_def noti_publish_def
      NOTIFICATION_CREATED_def split: sum.split)

text \<open>
  A notification without a text is stored and then not announced: the column comes back as \<open>null\<close>,
  which the schema of the event does not accept, so the request fails after the row was written.
  With a text, and formats that the schema accepts, the row is there and an event is published
  that the consumer of the gateway reads back, with the new unread count.
\<close>
theorem create_noti_null_body:
  assumes "cn_userId p \<noteq> []"
  shows "ns_rows (snd (createNoti E t p s)) = ns_rows s @ [new_row E t p s]
    \<and> (cn_body p = None \<longrightarrow> fst (createNoti E t p s) = Inl (PlainErr ''ZodError'') \<and> ns_out (snd (createNoti E t p s)) = ns_out s)
    \<and> (cn_body p \<noteq> None \<and> action_date p (ne_iso E t) = JStr d \<and> ne_natsUp E \<and> zf_uuid (ne_formats E) (ne_uuid E (ns_draws s))
         \<and> zf_uuid (ne_formats E) (cn_userId p) \<and> zf_datetime (ne_formats E) d \<longrightarrow>
         fst (createNoti E t p s) = Inr (noti_view E (new_row E t p s))
         \<and> (\<exists>j v. ns_out (snd (createNoti E t p s)) = ns_out s @ [NotiPublished ''notification.created'' j]
              \<and> NotificationCreatedSchema (ne_formats E) j = Inr v \<and> nc_notificationId v = ne_uuid E (ns_draws s)
              \<and> nc_userId v = cn_userId p \<and> nc_body v = cn_body p
              \<and> nc_unreadCount v = int (unread (cn_userId p) (ns_rows s)) + 1))"
proof (intro conjI impI)
  show "ns_rows (snd (createNoti E t p s)) = ns_rows s @ [new_row E t p s]"
    by (simp add: createNoti_run [OF assms] split: sum.split)
next
  assume "cn_body p = None"
  then show "fst (createNoti E t p s) = Inl (PlainErr ''ZodError'')" "ns_out (snd (createNoti E t p s)) = ns_out s"
    by (simp_all add: createNoti_run [OF assms] created_event_null_body)
next
  assume a: "cn_body p \<noteq> None \<and> action_date p (ne_iso E t) = JStr d \<and> ne_natsUp E \<and> zf_uuid (ne_formats E) (ne_uuid E (ns_draws s))
         \<and> zf_uuid (ne_formats E) (cn_userId p) \<and> zf_datetime (ne_formats E) d"
  then obtain b where b: "cn_body p = Some b" by blast
  from a show "fst (createNoti E t p s) = Inr (noti_view E (new_row E t p s))"
    by (simp add: createNoti_run [OF assms] created_event_accepted [where b = b and d = d] b)
  from a show "\<exists>j v. ns_out (snd (createNoti E t p s)) = ns_out s @ [NotiPublished ''notification.created'' j]
              \<and> NotificationCreatedSchema (ne_formats E) j = Inr v \<and> nc_notificationId v = ne_uuid E (ns_draws s)
              \<and> nc_userId v = cn_userId p \<and> nc_body v = cn_body p
              \<and> nc_unreadCount v = int (unread (cn_userId p) (ns_rows s)) + 1"
    by (simp add: createNoti_run [OF assms] created_event_accepted [where b = b and d = d] b created_ok_def)
qed

section \<open>Mails\<close>

text \<open>
  Nothing that goes wrong with a verification mail is seen by its caller: a key that is missing, a code
  that does not decrypt and a mail server that refuses are logged, and the call succeeds.
\<close>
lemma sendMailRegis_total: "\<exists>r s'. sendMailRegis E ev s = (Inr r, s')"
  by (simp add: sendMailRegis_def catchp_run bind_run andthen_run split: prod.split sum.split)

section \<open>Witnesses\<close>

definition sample_env :: noti_env where
  "sample_env = \<lparr>ne_uuid = (\<lambda>n. ''u'' @ show_nat n), ne_iso = (\<lambda>t. ''t''),
     ne_formats = \<lparr>zf_uuid = (\<lambda>s. s \<noteq> []), zf_email = (\<lambda>s. True), zf_datetime = (\<lambda>s. True)\<rparr>, ne_natsUp = True,
     ne_encryptKey = Some ''k'', ne_decrypt = (\<lambda>c k. Inr c), ne_mailer = (\<lambda>d. None), ne_uri = id, ne_baseUrl = None,
     ne_rowCount = (\<lambda>x. case x of Num q \<Rightarrow> if q = of_nat (nat \<lfloor>q\<rfloor>) then Some (nat \<lfloor>q\<rfloor>) else None | _ \<Rightarrow> None),
     ne_physical = (\<lambda>r. 0)\<rparr>"

definition sample_row :: "string \<Rightarrow> string \<Rightarrow> int \<Rightarrow> noti_row" where
  "sample_row i u c = \<lparr>no_id = i, no_userId = u, no_type = ''t'', no_title = ''T'', no_body = Some ''b'', no_data = None,
     no_readAt = None, no_createdAt = c\<rparr>"

definition sample_notis :: noti_state where
  "sample_notis = \<lparr>ns_rows = [sample_row ''a'' ''x'' 1, sample_row ''b'' ''y'' 2, sample_row ''c'' ''x'' 3], ns_draws = 0, ns_out = []\<rparr>"

lemma sample_takes_naturals: "takes_naturals sample_env"
  by (simp add: takes_naturals_def sample_env_def)

text \<open>Two pages of one notification each, newest first, from two plans that read the rows in opposite orders.\<close>

theorem noti_pages_witness:
  "count_list (concat (pages_read sample_env (\<lambda>p r. if (p = 0) = (no_id r = ''a'') then 1 else 0) ''x'' 1 None None sample_notis 2)) =
    count_list [sample_row ''c'' ''x'' 3, sample_row ''a'' ''x'' 1]"
proof -
  have rows: "rows_of ''x'' sample_notis = [sample_row ''a'' ''x'' 1, sample_row ''c'' ''x'' 3]"
    by (simp add: sample_notis_def sample_row_def)
  have "inj_on (sort_key ''createdAt'') (set (rows_of ''x'' sample_notis))"
    unfolding rows by (simp add: inj_on_def sort_key_def sample_row_def)
  with noti_pages [OF sample_takes_naturals, of "''x''" 1 _ "\<lambda>p r. if (p = 0) = (no_id r = ''a'') then 1 else 0" None None sample_notis 2,
      OF _ _ _ refl]
  show ?thesis by (simp add: rows fun_eq_iff)
qed

theorem pages_miss_witness:
  "\<exists>f. \<forall>n. sample_row ''a'' ''x'' 1 \<notin> set (concat (pages_read sample_env f ''x'' 1 (Some ''readAt'') None sample_notis n))"
proof (rule pages_miss [OF sample_takes_naturals])
  show "distinct (ns_rows sample_notis)" by code_simp
qed (simp_all add: sample_notis_def sample_row_def sort_key_def)

theorem mark_read_once_witness:
  "markRead sample_env 9 ''x'' ''a'' (snd (markRead sample_env 7 ''x'' ''a'' sample_notis)) =
     (Inr (''a'', ''t''), snd (markRead sample_env 7 ''x'' ''a'' sample_notis))"
proof -
  have d: "distinct (map no_id (ns_rows sample_notis))" by code_simp
  have f: "fst (markRead sample_env 7 ''x'' ''a'' sample_notis) = Inr (''a'', ''t'')" by code_simp
  then have "markRead sample_env 7 ''x'' ''a'' sample_notis = (Inr (''a'', ''t''), snd (markRead sample_env 7 ''x'' ''a'' sample_notis))"
    by (simp add: prod_eq_iff)
  from mark_read_once [OF d this] show ?thesis by blast
qed

theorem read_all_exact_witness:
  "unread ''x'' (ns_rows (snd (readAll 7 ''x'' sample_notis))) = 0 \<and> fst (readAll 7 ''x'' sample_notis) = Inr 2"
proof -
  have f: "fst (readAll 7 ''x'' sample_notis) = Inr 2" by code_simp
  then have "readAll 7 ''x'' sample_notis = (Inr 2, snd (readAll 7 ''x'' sample_notis))" by (simp add: prod_eq_iff)
  from read_all_exact [OF this] f show ?thesis by blast
qed

theorem create_noti_null_body_witness:
  "fst (createNoti sample_env 5 \<lparr>cn_userId = ''x'', cn_type = ''t'', cn_title = ''T'', cn_body = None, cn_data = None\<rparr> sample_notis)
     = Inl (PlainErr ''ZodError'')"
  using create_noti_null_body [of "\<lparr>cn_userId = ''x'', cn_type = ''t'', cn_title = ''T'', cn_body = None, cn_data = None\<rparr>"
      sample_env 5 sample_notis] by simp

end
