(* ===== verification/AuthDb.thy ===== *)
theory AuthDb
  imports Redis Contracts Crypto
begin

text \<open>
  The state the auth service works on: the tables of \<open>apps/auth-service/prisma/schema.prisma\<close> as
  lists of rows, with the constraints PostgreSQL enforces (unique keys, foreign keys); the Redis
  of the permission cache; a counter of random draws; and the effects on the response, on NATS
  and on the mail queue, in order. Times are milliseconds; a request runs at one instant.

  What the service takes from elsewhere is a record of parameters: argon2, the cipher, random
  strings, JWT signing and verification, the configuration and the formats of the library code.
\<close>

section \<open>Tables\<close>

record user_row =
  u_id :: string
  u_email :: string
  u_passwordHash :: string
  u_permVersion :: int
  u_name :: "string option"
  u_phone :: "string option"
  u_isActive :: bool
  u_createdAt :: int
  u_updatedAt :: int

record otp_row =
  eo_id :: string
  eo_userId :: string
  eo_codeHash :: string
  eo_expiresAt :: int
  eo_isUsed :: bool

record token_row =
  rt_id :: string
  rt_userId :: string
  rt_tokenHash :: string
  rt_revokedAt :: "int option"
  rt_expiresAt :: int
  rt_deviceId :: string
  rt_deviceName :: "string option"
  rt_ipAddress :: "string option"
  rt_userAgent :: "string option"

record reset_row =
  pw_id :: string
  pw_userId :: string
  pw_tokenHash :: string
  pw_expiresAt :: int
  pw_used :: bool

record role_row =
  ro_id :: string
  ro_name :: string
  ro_description :: "string option"

record permission_row =
  pe_id :: string
  pe_code :: string
  pe_description :: "string option"

record role_permission =
  rp_roleId :: string
  rp_permissionId :: string

record user_role =
  ur_user :: string
  ur_role :: string

record auth_db =
  db_users :: "user_row list"
  db_otps :: "otp_row list"
  db_tokens :: "token_row list"
  db_resets :: "reset_row list"
  db_roles :: "role_row list"
  db_permissions :: "permission_row list"
  db_rolePermissions :: "role_permission list"
  db_userRoles :: "user_role list"

datatype auth_effect =
    SetCookie string "string option" "int option"
  | ClearCookie string
  | Published string json
  | Enqueued string json nat

record auth_state =
  as_db :: auth_db
  as_redis :: redis
  as_draws :: nat
  as_out :: "auth_effect list"

type_synonym 'a auth = "(auth_state, exn, 'a) prog"

definition empty_db :: auth_db where
  "empty_db = \<lparr>db_users = [], db_otps = [], db_tokens = [], db_resets = [], db_roles = [],
     db_permissions = [], db_rolePermissions = [], db_userRoles = []\<rparr>"

section \<open>The parameters\<close>

record claims =
  cl_sub :: "string option"
  cl_email :: "string option"
  cl_permVersion :: "int option"

record auth_env =
  ae_hash :: "string \<Rightarrow> string \<Rightarrow> string"
  ae_verify :: "string \<Rightarrow> string \<Rightarrow> bool"
  ae_random :: "nat \<Rightarrow> string"
  ae_cipher :: "string \<Rightarrow> string \<Rightarrow> string \<Rightarrow> string"
  ae_encryptKey :: "string option"
  ae_refreshExpiresIn :: "int option"
  ae_expiresIn :: "int option"
  ae_sign :: "claims \<Rightarrow> int \<Rightarrow> int \<Rightarrow> string"
  ae_jwtVerify :: "int \<Rightarrow> string \<Rightarrow> exn + claims"
  ae_iso :: "int \<Rightarrow> string"
  ae_deviceName :: "string option \<Rightarrow> string"
  ae_formats :: zod_formats
  ae_natsUp :: bool
  ae_queueUp :: bool

section \<open>Reading and writing\<close>

definition read_db :: "(auth_db \<Rightarrow> 'a) \<Rightarrow> 'a auth" where
  "read_db f = gets (\<lambda>s. f (as_db s))"

definition write_db :: "(auth_db \<Rightarrow> auth_db) \<Rightarrow> unit auth" where
  "write_db f = modify (\<lambda>s. s\<lparr>as_db := f (as_db s)\<rparr>)"

definition effect :: "auth_effect \<Rightarrow> unit auth" where
  "effect e = modify (\<lambda>s. s\<lparr>as_out := as_out s @ [e]\<rparr>)"

definition draw :: "auth_env \<Rightarrow> string auth" where
  "draw E = (\<lambda>s. (Inr (ae_random E (as_draws s)), s\<lparr>as_draws := as_draws s + 1\<rparr>))"

definition hashPassword :: "auth_env \<Rightarrow> string \<Rightarrow> string auth" where
  "hashPassword E password = bind (draw E) (\<lambda>salt. ret (ae_hash E salt password))"

text \<open>\<open>argon2.verify\<close> rejects a password that is \<open>undefined\<close>.\<close>

definition verifyPassword :: "auth_env \<Rightarrow> string \<Rightarrow> string option \<Rightarrow> bool auth" where
  "verifyPassword E hash password = (case password of
     None \<Rightarrow> throw (PlainErr ''The first argument must be of type string'')
   | Some p \<Rightarrow> ret (ae_verify E hash p))"

definition getEncryptKey :: "auth_env \<Rightarrow> string auth" where
  "getEncryptKey E = lift (env_encryptKey (ae_encryptKey E))"

text \<open>\<open>encrypt\<close>: the cipher with drawn salt and iv.\<close>

definition encrypt :: "auth_env \<Rightarrow> string \<Rightarrow> string \<Rightarrow> string auth" where
  "encrypt E plainText password = bind (draw E) (\<lambda>salt. ret (ae_cipher E salt plainText password))"

text \<open>Errors of the database client: a unique key, a foreign key, no row to update.\<close>

definition unique_violation :: exn where "unique_violation = PrismaErr ''P2002'' ''Unique constraint failed''"
definition foreign_violation :: exn where "foreign_violation = PrismaErr ''P2003'' ''Foreign key constraint violated''"
definition no_record :: exn where "no_record = PrismaErr ''P2025'' ''Record to update not found''"

definition user_exists :: "string \<Rightarrow> auth_db \<Rightarrow> bool" where
  "user_exists uid db = exists_row (\<lambda>u. u_id u = uid) (db_users db)"

definition user_create :: "user_row \<Rightarrow> unit auth" where
  "user_create row = bind (read_db db_users) (\<lambda>us.
     if exists_row (\<lambda>u. u_email u = u_email row \<or> u_id u = u_id row) us then throw unique_violation
     else write_db (\<lambda>db. db\<lparr>db_users := db_users db @ [row]\<rparr>))"

definition user_update :: "string \<Rightarrow> (user_row \<Rightarrow> user_row) \<Rightarrow> unit auth" where
  "user_update uid f = bind (read_db (user_exists uid)) (\<lambda>ok.
     if \<not> ok then throw no_record
     else write_db (\<lambda>db. db\<lparr>db_users := update_where (\<lambda>u. u_id u = uid) f (db_users db)\<rparr>))"

definition token_create :: "token_row \<Rightarrow> unit auth" where
  "token_create row = bind (read_db id) (\<lambda>db.
     if exists_row (\<lambda>r. rt_tokenHash r = rt_tokenHash row \<or> rt_id r = rt_id row) (db_tokens db)
     then throw unique_violation
     else if \<not> user_exists (rt_userId row) db then throw foreign_violation
     else write_db (\<lambda>db. db\<lparr>db_tokens := db_tokens db @ [row]\<rparr>))"

definition token_set_hash :: "string \<Rightarrow> string \<Rightarrow> int \<Rightarrow> unit auth" where
  "token_set_hash tid h expiresAt = bind (read_db db_tokens) (\<lambda>ts.
     if exists_row (\<lambda>r. rt_id r \<noteq> tid \<and> rt_tokenHash r = h) ts then throw unique_violation
     else if \<not> exists_row (\<lambda>r. rt_id r = tid) ts then throw no_record
     else write_db (\<lambda>db. db\<lparr>db_tokens := update_where (\<lambda>r. rt_id r = tid)
            (\<lambda>r. r\<lparr>rt_tokenHash := h, rt_expiresAt := expiresAt\<rparr>) (db_tokens db)\<rparr>))"

text \<open>\<open>updateMany\<close> gives the number of rows it changed.\<close>

definition tokens_revoke :: "int \<Rightarrow> (token_row \<Rightarrow> bool) \<Rightarrow> nat auth" where
  "tokens_revoke t P = bind (read_db (\<lambda>db. count_where P (db_tokens db))) (\<lambda>n.
     andthen (write_db (\<lambda>db. db\<lparr>db_tokens :=
         update_where P (\<lambda>r. r\<lparr>rt_revokedAt := Some t\<rparr>) (db_tokens db)\<rparr>)) (ret n))"

definition reset_create :: "reset_row \<Rightarrow> unit auth" where
  "reset_create row = bind (read_db id) (\<lambda>db.
     if exists_row (\<lambda>r. pw_id r = pw_id row) (db_resets db) then throw unique_violation
     else if \<not> user_exists (pw_userId row) db then throw foreign_violation
     else write_db (\<lambda>db. db\<lparr>db_resets := db_resets db @ [row]\<rparr>))"

section \<open>Runs\<close>

lemma read_db_run [simp, prog_simps]: "read_db f s = (Inr (f (as_db s)), s)"
  by (simp add: read_db_def)

lemma write_db_run [simp, prog_simps]: "write_db f s = (Inr (), s\<lparr>as_db := f (as_db s)\<rparr>)"
  by (simp add: write_db_def)

lemma effect_run [simp, prog_simps]: "effect e s = (Inr (), s\<lparr>as_out := as_out s @ [e]\<rparr>)"
  by (simp add: effect_def)

lemma draw_run [simp, prog_simps]: "draw E s = (Inr (ae_random E (as_draws s)), s\<lparr>as_draws := as_draws s + 1\<rparr>)"
  by (simp add: draw_def)

lemma hashPassword_run [simp, prog_simps]:
  "hashPassword E p s = (Inr (ae_hash E (ae_random E (as_draws s)) p), s\<lparr>as_draws := as_draws s + 1\<rparr>)"
  by (simp add: hashPassword_def bind_run)

lemma verifyPassword_run [simp, prog_simps]:
  "verifyPassword E h (Some p) s = (Inr (ae_verify E h p), s)"
  by (simp add: verifyPassword_def)

lemma verifyPassword_cases: "\<exists>r. verifyPassword E h p s = (r, s)"
  by (cases p) (simp_all add: verifyPassword_def)

lemma getEncryptKey_run:
  "getEncryptKey E s = (if truthy (map_option trim (ae_encryptKey E)) then (Inr (trim (nullish (ae_encryptKey E) [])), s)
     else (Inl missing_encryptKey, s))"
  by (simp add: getEncryptKey_def env_encryptKey_run)

lemma encrypt_run [simp, prog_simps]: "encrypt E x k s =
    (Inr (ae_cipher E (ae_random E (as_draws s)) x k), s\<lparr>as_draws := as_draws s + 1\<rparr>)"
  by (simp add: encrypt_def bind_run)

lemma tokens_revoke_run [prog_simps]: "tokens_revoke t P s = (Inr (count_where P (db_tokens (as_db s))),
    s\<lparr>as_db := (as_db s)\<lparr>db_tokens := update_where P (\<lambda>r. r\<lparr>rt_revokedAt := Some t\<rparr>) (db_tokens (as_db s))\<rparr>\<rparr>)"
  by (simp add: tokens_revoke_def bind_run andthen_run)

text \<open>What the service assumes of argon2: a hash verifies exactly the password it was made of.\<close>

definition hash_ok :: "auth_env \<Rightarrow> bool" where
  "hash_ok E \<longleftrightarrow> (\<forall>salt p q. ae_verify E (ae_hash E salt p) q \<longleftrightarrow> p = q)"

section \<open>The invariant of the tables\<close>

definition normalized :: "string \<Rightarrow> bool" where
  "normalized e \<longleftrightarrow> toLowerCase e = e \<and> trim e = e"

definition db_ok :: "auth_db \<Rightarrow> bool" where
  "db_ok db \<longleftrightarrow> distinct (map u_id (db_users db)) \<and> distinct (map u_email (db_users db))
     \<and> distinct (map rt_id (db_tokens db)) \<and> distinct (map rt_tokenHash (db_tokens db))
     \<and> distinct (map pw_id (db_resets db)) \<and> distinct (map eo_userId (db_otps db))
     \<and> distinct (map eo_id (db_otps db))
     \<and> (\<forall>u\<in>set (db_users db). normalized (u_email u))
     \<and> (\<forall>r\<in>set (db_tokens db). user_exists (rt_userId r) db)
     \<and> (\<forall>r\<in>set (db_resets db). user_exists (pw_userId r) db)
     \<and> (\<forall>r\<in>set (db_otps db). user_exists (eo_userId r) db)"

definition state_ok :: "auth_state \<Rightarrow> bool" where
  "state_ok s \<longleftrightarrow> db_ok (as_db s)"

lemma normalized_norm [simp]: "normalized (trim (toLowerCase e))"
  by (simp add: normalized_def trim_toLowerCase)


named_theorems keeps_ok \<open>programs that keep the invariant of the tables\<close>

abbreviation keeps :: "'a auth \<Rightarrow> bool" where
  "keeps m \<equiv> preserves state_ok m"

lemma keeps_read [keeps_ok]: "keeps (read_db f)"
  by (simp add: preserves_def)

lemma keeps_effect [keeps_ok]: "keeps (effect e)"
  by (simp add: preserves_def state_ok_def)

lemma keeps_draw [keeps_ok]: "keeps (draw E)"
  by (simp add: preserves_def state_ok_def)

lemma keeps_hash [keeps_ok]: "keeps (hashPassword E p)"
  by (simp add: preserves_def state_ok_def)

lemma keeps_verify [keeps_ok]: "keeps (verifyPassword E h p)"
  by (cases p) (simp_all add: preserves_def verifyPassword_def)

lemma keeps_key [keeps_ok]: "keeps (getEncryptKey E)"
  by (simp add: preserves_def getEncryptKey_run)

lemma keeps_encrypt [keeps_ok]: "keeps (encrypt E x k)"
  by (simp add: preserves_def state_ok_def)

lemma keeps_write: "(\<And>db. db_ok db \<Longrightarrow> db_ok (f db)) \<Longrightarrow> keeps (write_db f)"
  by (simp add: preserves_def state_ok_def)

lemma user_exists_simps [simp]:
  "user_exists u (db\<lparr>db_tokens := ts\<rparr>) = user_exists u db"
  "user_exists u (db\<lparr>db_resets := rs\<rparr>) = user_exists u db"
  "user_exists u (db\<lparr>db_otps := os\<rparr>) = user_exists u db"
  "user_exists u (db\<lparr>db_roles := ros\<rparr>) = user_exists u db"
  "user_exists u (db\<lparr>db_permissions := ps\<rparr>) = user_exists u db"
  "user_exists u (db\<lparr>db_rolePermissions := rps\<rparr>) = user_exists u db"
  "user_exists u (db\<lparr>db_userRoles := urs\<rparr>) = user_exists u db"
  by (simp_all add: user_exists_def)

lemma user_exists_update: "(\<And>u. u_id (f u) = u_id u) \<Longrightarrow>
    user_exists uid (db\<lparr>db_users := update_where P f us\<rparr>) = user_exists uid (db\<lparr>db_users := us\<rparr>)"
  by (induction us) (auto simp: user_exists_def)

lemma distinct_map_append: "distinct (map k (t @ [r])) \<longleftrightarrow> distinct (map k t) \<and> \<not> (\<exists>x\<in>set t. k x = k r)"
  by (force simp: image_iff)

lemma keeps_user_create: "normalized (u_email row) \<Longrightarrow> keeps (user_create row)"
  by (auto simp: preserves_def user_create_def bind_run state_ok_def db_ok_def user_exists_def)

lemma db_ok_users:
  assumes "db_ok db" and "\<And>u. u_id (f u) = u_id u" and "\<And>u. u_email (f u) = u_email u"
  shows "db_ok (db\<lparr>db_users := update_where P f (db_users db)\<rparr>)"
  using assms(1) map_update_where [of u_id f P "db_users db"] map_update_where [of u_email f P "db_users db"]
    user_exists_update [where f = f and db = db and P = P and us = "db_users db"] assms(2,3)
  by (auto simp: db_ok_def set_update_where)

lemma keeps_user_update: "(\<And>u. u_id (f u) = u_id u) \<Longrightarrow> (\<And>u. u_email (f u) = u_email u) \<Longrightarrow>
    keeps (user_update uid f)"
  unfolding user_update_def
  by (intro preserves_bind keeps_read) (auto intro!: keeps_write db_ok_users)

lemma keeps_token_create [keeps_ok]: "keeps (token_create row)"
  by (auto simp: preserves_def token_create_def bind_run state_ok_def db_ok_def)

lemma distinct_update_one:
  assumes "distinct (map k t)" and "\<And>r. k' (f r) = h" and "\<forall>r\<in>set t. k r \<noteq> i \<longrightarrow> k' r \<noteq> h"
    and "distinct (map k' t)"
  shows "distinct (map k' (update_where (\<lambda>r. k r = i) f t))"
  using assms
proof (induction t)
  case (Cons r t)
  show ?case
  proof (cases "k r = i")
    case True
    then have "update_where (\<lambda>r. k r = i) f t = t"
      using Cons.prems(1) unfolding update_where_def by (intro map_idI) (auto simp: image_iff)
    with Cons.prems True show ?thesis by (force simp: image_iff)
  next
    case False
    then have "k' r \<noteq> h" "k' r \<notin> k' ` set t" using Cons.prems by auto
    then have "k' r \<notin> k' ` set (update_where (\<lambda>r. k r = i) f t)"
      using Cons.prems(2) by (auto simp: set_update_where image_iff)
    with Cons False show ?thesis by simp
  qed
qed simp

lemma db_ok_set_hash:
  assumes "db_ok db" and "\<not> (\<exists>r\<in>set (db_tokens db). rt_id r \<noteq> tid \<and> rt_tokenHash r = h)"
  shows "db_ok (db\<lparr>db_tokens := update_where (\<lambda>r. rt_id r = tid)
    (\<lambda>r. r\<lparr>rt_tokenHash := h, rt_expiresAt := x\<rparr>) (db_tokens db)\<rparr>)"
proof -
  let ?f = "\<lambda>r::token_row. r\<lparr>rt_tokenHash := h, rt_expiresAt := x\<rparr>"
  have "distinct (map rt_tokenHash (update_where (\<lambda>r. rt_id r = tid) ?f (db_tokens db)))"
    using assms by (intro distinct_update_one) (auto simp: db_ok_def)
  moreover have "map rt_id (update_where P ?f ts) = map rt_id ts" for P ts
    by (rule map_update_where) simp
  ultimately show ?thesis
    using assms(1) by (auto simp: db_ok_def set_update_where)
qed

lemma keeps_token_set_hash [keeps_ok]: "keeps (token_set_hash tid h x)"
  by (auto simp: preserves_def token_set_hash_def bind_run state_ok_def intro!: db_ok_set_hash)

lemma db_ok_revoke:
  assumes "db_ok db"
  shows "db_ok (db\<lparr>db_tokens := update_where P (\<lambda>r. r\<lparr>rt_revokedAt := Some t\<rparr>) (db_tokens db)\<rparr>)"
proof -
  have "map rt_id (update_where P (\<lambda>r. r\<lparr>rt_revokedAt := Some t\<rparr>) ts) = map rt_id ts"
    "map rt_tokenHash (update_where P (\<lambda>r. r\<lparr>rt_revokedAt := Some t\<rparr>) ts) = map rt_tokenHash ts" for ts
    by (rule map_update_where; simp)+
  then show ?thesis using assms by (auto simp: db_ok_def set_update_where)
qed

lemma keeps_revoke [keeps_ok]: "keeps (tokens_revoke t P)"
  by (simp add: preserves_def tokens_revoke_run state_ok_def db_ok_revoke)

lemma keeps_reset_create [keeps_ok]: "keeps (reset_create row)"
  by (auto simp: preserves_def reset_create_def bind_run state_ok_def db_ok_def)

lemma db_ok_resets_update:
  assumes "db_ok db" and "\<And>r. pw_id (f r) = pw_id r" and "\<And>r. pw_userId (f r) = pw_userId r"
  shows "db_ok (db\<lparr>db_resets := update_where P f (db_resets db)\<rparr>)"
  using assms map_update_where [of pw_id f P "db_resets db"] by (auto simp: db_ok_def set_update_where)

lemma db_ok_resets_delete: "db_ok db \<Longrightarrow> db_ok (db\<lparr>db_resets := delete_where P (db_resets db)\<rparr>)"
  by (auto simp: db_ok_def set_delete_where distinct_map_delete_where)

lemma db_ok_otps_update:
  assumes "db_ok db" and "\<And>r. eo_id (f r) = eo_id r" and "\<And>r. eo_userId (f r) = eo_userId r"
  shows "db_ok (db\<lparr>db_otps := update_where P f (db_otps db)\<rparr>)"
  using assms map_update_where [of eo_id f P "db_otps db"] map_update_where [of eo_userId f P "db_otps db"]
  by (auto simp: db_ok_def set_update_where)

lemmas db_ok_intros = db_ok_resets_update db_ok_resets_delete db_ok_otps_update db_ok_users

lemma db_okD:
  assumes "db_ok db"
  shows "distinct (map u_id (db_users db))" "distinct (map u_email (db_users db))"
    "distinct (map rt_id (db_tokens db))" "distinct (map rt_tokenHash (db_tokens db))"
    "distinct (map pw_id (db_resets db))" "distinct (map eo_userId (db_otps db))"
    "distinct (map eo_id (db_otps db))"
    "\<And>r. r \<in> set (db_tokens db) \<Longrightarrow> user_exists (rt_userId r) db"
    "\<And>r. r \<in> set (db_resets db) \<Longrightarrow> user_exists (pw_userId r) db"
    "\<And>r. r \<in> set (db_otps db) \<Longrightarrow> user_exists (eo_userId r) db"
    "\<And>u. u \<in> set (db_users db) \<Longrightarrow> normalized (u_email u)"
  using assms unfolding db_ok_def by blast+


section \<open>Programs that fail without a trace\<close>

text \<open>
  \<open>quiet\<close>: neither the tables nor the effects change. \<open>clean\<close>: they do not change when the
  program throws. \<open>total\<close>: it does not throw.
\<close>

definition same_store :: "auth_state \<Rightarrow> auth_state \<Rightarrow> bool" where
  "same_store s s' \<longleftrightarrow> as_db s' = as_db s \<and> as_redis s' = as_redis s \<and> as_out s' = as_out s"

definition quiet :: "'a auth \<Rightarrow> bool" where
  "quiet m \<longleftrightarrow> (\<forall>s. same_store s (snd (m s)))"

definition clean :: "'a auth \<Rightarrow> bool" where
  "clean m \<longleftrightarrow> (\<forall>s e s'. m s = (Inl e, s') \<longrightarrow> same_store s s')"

definition total :: "'a auth \<Rightarrow> bool" where
  "total m \<longleftrightarrow> (\<forall>s. \<exists>x s'. m s = (Inr x, s'))"

named_theorems clean_intros \<open>programs that fail without a trace\<close>

lemma same_store_refl [simp]: "same_store s s"
  by (simp add: same_store_def)

lemma same_store_trans: "same_store s s' \<Longrightarrow> same_store s' s'' \<Longrightarrow> same_store s s''"
  by (simp add: same_store_def)

lemma quiet_simps [simp, clean_intros]:
  "quiet (read_db f)" "quiet (ret x)" "quiet (throw e)" "quiet (lift r)" "quiet (draw E)" "quiet (hashPassword E p)"
  "quiet (getEncryptKey E)" "quiet (encrypt E y k)" "quiet (throw_if b e)"
  by (simp_all add: quiet_def same_store_def getEncryptKey_run)

lemma quiet_verify [simp, clean_intros]: "quiet (verifyPassword E h q)"
  by (cases q) (simp_all add: quiet_def verifyPassword_def)

lemma quiet_bind [clean_intros]: "quiet m \<Longrightarrow> (\<And>x. quiet (f x)) \<Longrightarrow> quiet (bind m f)"
  unfolding quiet_def by (auto simp: bind_run split: prod.split sum.split) (metis same_store_trans snd_conv)+

lemma clean_quiet: "quiet m \<Longrightarrow> clean m"
  unfolding quiet_def clean_def by (metis snd_conv)

lemma clean_bind [clean_intros]: "quiet m \<Longrightarrow> (\<And>x. clean (f x)) \<Longrightarrow> clean (bind m f)"
  unfolding quiet_def clean_def
  by (auto simp: bind_run split: prod.splits sum.splits) (metis same_store_trans snd_conv)+

lemma clean_andthen_quiet: "quiet m \<Longrightarrow> clean k \<Longrightarrow> clean (andthen m k)"
  unfolding andthen_def by (rule clean_bind)

lemma clean_andthen_total: "clean m \<Longrightarrow> total k \<Longrightarrow> clean (andthen m k)"
  unfolding clean_def total_def
  by (auto simp: andthen_run split: prod.splits sum.splits) (metis Inl_Inr_False prod.inject)

lemma total_simps [simp, clean_intros]: "total (ret x)" "total (write_db f)" "total (effect e)" "total (draw E)"
    "total (tokens_revoke t P)"
  by (simp_all add: total_def tokens_revoke_run)

lemma total_andthen [clean_intros]: "total m \<Longrightarrow> total k \<Longrightarrow> total (andthen m k)"
  unfolding total_def andthen_run by (metis (no_types, lifting) case_prod_conv sum.case(2))

lemma clean_total: "total m \<Longrightarrow> clean m"
  unfolding clean_def total_def by (metis Inl_Inr_False prod.inject)

lemma clean_write [simp, clean_intros]: "clean (write_db f)"
  by (simp add: clean_def)

lemma clean_ret [simp, clean_intros]: "clean (ret x)" "clean (throw e)"
  by (simp_all add: clean_def)

lemma clean_token_create [clean_intros]: "clean (token_create row)"
  unfolding token_create_def by (intro clean_intros) (simp split: if_split)

lemma clean_token_set_hash [clean_intros]: "clean (token_set_hash i h x)"
  unfolding token_set_hash_def by (intro clean_intros) (simp split: if_split)

end
