(* ===== verification/Users.thy ===== *)
theory Users
  imports AuthDb
begin

text \<open>
  \<open>apps/auth-service/src/modules/users/users.service.ts\<close>: accounts, verification codes, sessions
  and password resets. \<open>t\<close> is the instant of the request. An argument that can be absent at run
  time (a cookie, a body member, a property of \<open>req.user\<close>) is an option; in a filter it is then
  left out, as Prisma does with \<open>undefined\<close>.
\<close>

section \<open>Accounts\<close>

definition QUARTER :: int where "QUARTER = 15 * 60 * 1000"

definition findOneByEmail :: "string option \<Rightarrow> user_row option auth" where
  "findOneByEmail email = read_db (\<lambda>db. find_first (\<lambda>u. where_eq email (u_email u)) (db_users db))"

definition validateUser :: "auth_env \<Rightarrow> string option \<Rightarrow> string option \<Rightarrow> user_row option auth" where
  "validateUser E email pass =
     bind (findOneByEmail (map_option (\<lambda>e. trim (toLowerCase e)) email)) (\<lambda>user.
       (case user of None \<Rightarrow> ret None
        | Some u \<Rightarrow> bind (verifyPassword E (u_passwordHash u) pass) (\<lambda>valid.
            ret (if valid then Some u else None))))"

definition checkActiveEmail :: "string \<Rightarrow> user_row auth" where
  "checkActiveEmail email =
     bind (read_db (\<lambda>db. find_first (\<lambda>u. u_email u = email \<and> u_isActive u) (db_users db))) (\<lambda>user.
       (case user of
          None \<Rightarrow> throw (service_exn AUTH_INVALID_CREDENTIALS 401 ''account_not_verified or not_found.'')
        | Some u \<Rightarrow> ret u))"

definition createOrUpdateEmailOtp :: "auth_env \<Rightarrow> int \<Rightarrow> string \<Rightarrow> string \<Rightarrow> unit auth" where
  "createOrUpdateEmailOtp E t userId codeHash = bind (read_db id) (\<lambda>db.
     if exists_row (\<lambda>o'. eo_userId o' = userId) (db_otps db) then
       write_db (\<lambda>db. db\<lparr>db_otps := update_where (\<lambda>o'. eo_userId o' = userId)
         (\<lambda>o'. o'\<lparr>eo_codeHash := codeHash, eo_expiresAt := t + QUARTER\<rparr>) (db_otps db)\<rparr>)
     else bind (draw E) (\<lambda>uuid.
       if exists_row (\<lambda>o'. eo_id o' = uuid) (db_otps db) then throw unique_violation
       else if \<not> user_exists userId db then throw foreign_violation
       else write_db (\<lambda>db. db\<lparr>db_otps := db_otps db @ [\<lparr>eo_id = uuid, eo_userId = userId,
              eo_codeHash = codeHash, eo_expiresAt = t + QUARTER, eo_isUsed = False\<rparr>]\<rparr>)))"

record create_dto =
  cd_email :: string
  cd_password :: string
  cd_name :: "string option"
  cd_phone :: "string option"

record created_user =
  cu_userId :: string
  cu_email :: string
  cu_code :: string
  cu_createdAt :: int

definition normal_email :: "create_dto \<Rightarrow> string" where
  "normal_email dto = trim (toLowerCase (cd_email dto))"

definition new_user :: "int \<Rightarrow> string \<Rightarrow> create_dto \<Rightarrow> string \<Rightarrow> user_row" where
  "new_user t uuid dto passwordHash = \<lparr>u_id = uuid, u_email = normal_email dto,
     u_passwordHash = passwordHash, u_permVersion = 1, u_name = cd_name dto, u_phone = cd_phone dto,
     u_isActive = False, u_createdAt = t, u_updatedAt = t\<rparr>"

definition users_create :: "auth_env \<Rightarrow> int \<Rightarrow> create_dto \<Rightarrow> created_user auth" where
  "users_create E t dto =
     bind (read_db (\<lambda>db. exists_row (\<lambda>u. u_email u = normal_email dto) (db_users db))) (\<lambda>existing.
     if existing then throw (service_exn CONFLICT 409 ''Email already exists'')
     else
       bind (hashPassword E (cd_password dto)) (\<lambda>passwordHash.
       bind (draw E) (\<lambda>rnd.
       bind (hashPassword E rnd) (\<lambda>codeHash.
       bind (getEncryptKey E) (\<lambda>key.
       bind (encrypt E codeHash key) (\<lambda>code.
       bind (draw E) (\<lambda>uuid.
         andthen (user_create (new_user t uuid dto passwordHash))
        (andthen (createOrUpdateEmailOtp E t uuid codeHash)
          (ret \<lparr>cu_userId = uuid, cu_email = normal_email dto, cu_code = code, cu_createdAt = t\<rparr>)))))))))"

definition veryfiRegister :: "int \<Rightarrow> string \<Rightarrow> string \<Rightarrow> bool auth" where
  "veryfiRegister t email code =
     bind (read_db (\<lambda>db. find_first (\<lambda>u. u_email u = trim (toLowerCase email) \<and> \<not> u_isActive u) (db_users db)))
      (\<lambda>user. (case user of None \<Rightarrow> throw (NotFoundException ''User not found Or already verified'')
       | Some u \<Rightarrow>
          bind (read_db (\<lambda>db. find_first (\<lambda>o'. eo_userId o' = u_id u \<and> eo_codeHash o' = code
                                \<and> t < eo_expiresAt o') (db_otps db)))
           (\<lambda>otp. (case otp of None \<Rightarrow> throw (BadRequestException ''Invalid code'')
            | Some o' \<Rightarrow>
               andthen (write_db (\<lambda>db. db\<lparr>db_otps := update_where (\<lambda>r. eo_id r = eo_id o')
                    (\<lambda>r. r\<lparr>eo_isUsed := True\<rparr>) (db_otps db)\<rparr>))
              (andthen (user_update (u_id u) (\<lambda>r. r\<lparr>u_isActive := True, u_updatedAt := t\<rparr>))
                (ret True))))))"

section \<open>Sessions\<close>

record device =
  dv_name :: string
  dv_ip :: "string option"
  dv_userAgent :: "string option"

text \<open>\<open>Number(process.env.JWT_REFRESH_EXPIRES_IN)\<close> when it is a positive number, else 30 days.\<close>

definition refreshTtlSeconds :: "auth_env \<Rightarrow> int" where
  "refreshTtlSeconds E = (case ae_refreshExpiresIn E of
     Some n \<Rightarrow> if 0 < n then n else 60 * 60 * 24 * 30 | None \<Rightarrow> 60 * 60 * 24 * 30)"

definition invalid_refresh :: exn where
  "invalid_refresh = service_exn AUTH_REFRESH_TOKEN_INVALID 401 ''Invalid refresh token''"

definition open_session :: "string option \<Rightarrow> string option \<Rightarrow> token_row \<Rightarrow> bool" where
  "open_session userId deviceId r \<longleftrightarrow>
     where_eq userId (rt_userId r) \<and> where_eq deviceId (rt_deviceId r) \<and> rt_revokedAt r = None"

definition saveRefreshToken ::
  "auth_env \<Rightarrow> int \<Rightarrow> string \<Rightarrow> string \<Rightarrow> device \<Rightarrow> string option \<Rightarrow> string option \<Rightarrow> unit auth" where
  "saveRefreshToken E t userId refreshTokenNew dataDevice deviceId refreshTokenOld =
     (let expiresAt = t + refreshTtlSeconds E * 1000 in
      bind (hashPassword E refreshTokenNew) (\<lambda>tokenHashNew.
      bind (read_db (\<lambda>db. find_first (open_session (Some userId) deviceId) (db_tokens db))) (\<lambda>existing.
        (case existing of
           Some x \<Rightarrow>
             andthen
               (if truthy refreshTokenOld then
                  bind (verifyPassword E (rt_tokenHash x) refreshTokenOld) (\<lambda>valid.
                    throw_if (\<not> valid) invalid_refresh)
                else ret ())
               (token_set_hash (rt_id x) tokenHashNew expiresAt)
         | None \<Rightarrow>
             (case deviceId of
                None \<Rightarrow> throw (PlainErr ''Argument `deviceId` is missing.'')
              | Some dev \<Rightarrow> bind (draw E) (\<lambda>uuid. token_create
                  \<lparr>rt_id = uuid, rt_userId = userId, rt_tokenHash = tokenHashNew, rt_revokedAt = None,
                   rt_expiresAt = expiresAt, rt_deviceId = dev, rt_deviceName = Some (dv_name dataDevice),
                   rt_ipAddress = dv_ip dataDevice, rt_userAgent = dv_userAgent dataDevice\<rparr>))))))"

definition live_session :: "int \<Rightarrow> string option \<Rightarrow> int option \<Rightarrow> string option \<Rightarrow> auth_db \<Rightarrow> token_row \<Rightarrow> bool" where
  "live_session t userId permVersion deviceId db r \<longleftrightarrow>
     open_session userId deviceId r \<and> t < rt_expiresAt r
     \<and> exists_row (\<lambda>u. u_id u = rt_userId r \<and> where_eq permVersion (u_permVersion u)) (db_users db)"

definition findByRefreshToken ::
  "auth_env \<Rightarrow> int \<Rightarrow> string option \<Rightarrow> int option \<Rightarrow> string option \<Rightarrow> string option \<Rightarrow> user_row auth" where
  "findByRefreshToken E t userId permVersion refreshToken deviceId =
     bind (read_db id) (\<lambda>db.
       (case find_first (live_session t userId permVersion deviceId db) (db_tokens db) of
          None \<Rightarrow> throw invalid_refresh
        | Some session \<Rightarrow>
            bind (verifyPassword E (rt_tokenHash session) refreshToken) (\<lambda>valid.
              if \<not> valid then throw invalid_refresh
              else (case find_first (\<lambda>u. u_id u = rt_userId session) (db_users db) of
                  None \<Rightarrow> throw invalid_refresh | Some u \<Rightarrow> ret u))))"

definition users_logoutDevice :: "auth_env \<Rightarrow> int \<Rightarrow> string option \<Rightarrow> string option \<Rightarrow> string option \<Rightarrow> nat auth" where
  "users_logoutDevice E t deviceId userId refreshToken =
     bind (read_db (\<lambda>db. find_first (open_session userId deviceId) (db_tokens db))) (\<lambda>session.
       (case session of None \<Rightarrow> ret 0
        | Some x \<Rightarrow> bind (verifyPassword E (rt_tokenHash x) refreshToken) (\<lambda>valid.
            if \<not> valid then ret 0 else tokens_revoke t (\<lambda>r. rt_id r = rt_id x))))"

definition logoutAllDevices :: "int \<Rightarrow> string option \<Rightarrow> nat auth" where
  "logoutAllDevices t userId = tokens_revoke t (\<lambda>r. rt_revokedAt r = None \<and> where_eq userId (rt_userId r))"

section \<open>Profiles\<close>

record info_user =
  iu_id :: string
  iu_email :: string
  iu_name :: "string option"
  iu_phone :: "string option"
  iu_isActive :: bool
  iu_createdAt :: "int option"

definition users_findById :: "string option \<Rightarrow> user_row option auth" where
  "users_findById userId = (case userId of
     None \<Rightarrow> throw (PlainErr ''Argument `where` needs at least one argument'')
   | Some i \<Rightarrow> read_db (\<lambda>db. find_first (\<lambda>u. u_id u = i) (db_users db)))"

definition users_info :: "string option \<Rightarrow> info_user option auth" where
  "users_info userId = bind (users_findById userId) (\<lambda>user. ret (map_option (\<lambda>u.
     \<lparr>iu_id = u_id u, iu_email = u_email u, iu_name = u_name u, iu_phone = u_phone u,
      iu_isActive = u_isActive u, iu_createdAt = Some (u_createdAt u)\<rparr>) user))"

definition getProfileById :: "string option \<Rightarrow> info_user option auth" where
  "getProfileById userId = bind (users_findById userId) (\<lambda>user. ret (map_option (\<lambda>u.
     \<lparr>iu_id = u_id u, iu_email = u_email u, iu_name = u_name u, iu_phone = u_phone u,
      iu_isActive = u_isActive u, iu_createdAt = None\<rparr>) user))"

definition validatePassword :: "auth_env \<Rightarrow> string option \<Rightarrow> string option \<Rightarrow> bool auth" where
  "validatePassword E email password = bind (findOneByEmail email) (\<lambda>user.
     (case user of None \<Rightarrow> ret False | Some u \<Rightarrow> verifyPassword E (u_passwordHash u) password))"

section \<open>Password resets\<close>

record reset_ticket =
  rk_token :: string
  rk_expiresAt :: int

definition createPasswordReset :: "auth_env \<Rightarrow> int \<Rightarrow> string \<Rightarrow> reset_ticket auth" where
  "createPasswordReset E t userId =
     bind (draw E) (\<lambda>token.
     bind (hashPassword E token) (\<lambda>tokenHash.
     bind (getEncryptKey E) (\<lambda>key.
     bind (encrypt E tokenHash key) (\<lambda>tokenHashEncrypted.
     bind (draw E) (\<lambda>uuid.
       andthen (reset_create \<lparr>pw_id = uuid, pw_userId = userId, pw_tokenHash = tokenHash,
                  pw_expiresAt = t + QUARTER, pw_used = False\<rparr>)
         (ret \<lparr>rk_token = tokenHashEncrypted, rk_expiresAt = t + QUARTER\<rparr>))))))"

definition bad_request :: "string \<Rightarrow> exn" where
  "bad_request m = service_exn BAD_REQUEST 400 m"

definition verifyPasswordReset :: "auth_env \<Rightarrow> int \<Rightarrow> string \<Rightarrow> string option \<Rightarrow> bool auth" where
  "verifyPasswordReset E t userId code =
     bind (read_db (\<lambda>db. find_first (\<lambda>r. pw_userId r = userId \<and> t < pw_expiresAt r \<and> \<not> pw_used r) (db_resets db)))
      (\<lambda>reset. (case reset of None \<Rightarrow> throw (bad_request ''expired or already used'')
       | Some r \<Rightarrow> bind (verifyPassword E (pw_tokenHash r) code) (\<lambda>verify.
           if \<not> verify then throw (bad_request ''Invalid code'')
           else andthen (write_db (\<lambda>db. db\<lparr>db_resets := update_where (\<lambda>x. pw_id x = pw_id r)
                  (\<lambda>x. x\<lparr>pw_used := True\<rparr>) (db_resets db)\<rparr>)) (ret True))))"

definition users_resetPassword :: "auth_env \<Rightarrow> int \<Rightarrow> string \<Rightarrow> string \<Rightarrow> string option \<Rightarrow> bool auth" where
  "users_resetPassword E t userId password code =
     bind (read_db (\<lambda>db. find_first (\<lambda>r. pw_userId r = userId \<and> pw_used r) (db_resets db)))
      (\<lambda>reset. (case reset of None \<Rightarrow> throw (bad_request ''The code has not been verified'')
       | Some r \<Rightarrow> bind (verifyPassword E (pw_tokenHash r) code) (\<lambda>verify.
           if \<not> verify then throw (bad_request ''Invalid code'')
           else bind (hashPassword E password) (\<lambda>passwordHash.
             andthen (user_update userId (\<lambda>u. u\<lparr>u_passwordHash := passwordHash, u_updatedAt := t\<rparr>))
            (andthen (write_db (\<lambda>db. db\<lparr>db_resets := delete_where (\<lambda>x. pw_id x = pw_id r) (db_resets db)\<rparr>))
              (ret True))))))"


section \<open>Every operation keeps the tables in order\<close>

lemma keeps_findOneByEmail [keeps_ok]: "keeps (findOneByEmail e)"
  by (simp add: findOneByEmail_def keeps_read)

lemma keeps_validateUser [keeps_ok]: "keeps (validateUser E e p)"
  unfolding validateUser_def by (intro preserves_intros keeps_ok) (auto intro: preserves_intros keeps_ok split: option.split)

lemma keeps_checkActiveEmail [keeps_ok]: "keeps (checkActiveEmail e)"
  unfolding checkActiveEmail_def by (intro preserves_intros keeps_ok) (auto split: option.split)

lemma keeps_otp [keeps_ok]: "keeps (createOrUpdateEmailOtp E t u h)"
proof (rule preservesI)
  fix s assume ok: "state_ok s"
  show "state_ok (snd (createOrUpdateEmailOtp E t u h s))"
  proof (cases "exists_row (\<lambda>o'. eo_userId o' = u) (db_otps (as_db s))")
    case True
    with ok show ?thesis
      by (simp add: createOrUpdateEmailOtp_def bind_run state_ok_def db_ok_otps_update del: exists_row_iff)
  next
    case False
    with ok show ?thesis
      by (auto simp: createOrUpdateEmailOtp_def bind_run state_ok_def db_ok_def)
  qed
qed

lemma keeps_users_create [keeps_ok]: "keeps (users_create E t dto)"
proof -
  have "keeps (user_create (new_user t uuid dto h))" for uuid h
    by (rule keeps_user_create) (simp add: new_user_def normal_email_def)
  then show ?thesis
    unfolding users_create_def
    by (intro preserves_intros keeps_ok) (auto intro!: preserves_intros keeps_ok)
qed

lemma keeps_veryfiRegister [keeps_ok]: "keeps (veryfiRegister t e c)"
  unfolding veryfiRegister_def
  by (intro preserves_intros keeps_ok)
    (auto intro!: preserves_intros keeps_ok keeps_write db_ok_otps_update keeps_user_update split: option.split)

lemma keeps_saveRefreshToken [keeps_ok]: "keeps (saveRefreshToken E t u tok dev d old)"
  unfolding saveRefreshToken_def Let_def
  by (intro preserves_intros keeps_ok)
    (auto intro!: preserves_intros keeps_ok split: option.split)

lemma keeps_findByRefreshToken [keeps_ok]: "keeps (findByRefreshToken E t u v tok d)"
  unfolding findByRefreshToken_def
  by (intro preserves_intros keeps_ok) (auto intro!: preserves_intros keeps_ok split: option.split)

lemma keeps_users_logoutDevice [keeps_ok]: "keeps (users_logoutDevice E t d u tok)"
  unfolding users_logoutDevice_def
  by (intro preserves_intros keeps_ok) (auto intro!: preserves_intros keeps_ok split: option.split)

lemma keeps_logoutAllDevices [keeps_ok]: "keeps (logoutAllDevices t u)"
  unfolding logoutAllDevices_def by (rule keeps_revoke)

lemma keeps_createPasswordReset [keeps_ok]: "keeps (createPasswordReset E t u)"
  unfolding createPasswordReset_def by (intro preserves_intros keeps_ok preserves_ret)

lemma keeps_verifyPasswordReset [keeps_ok]: "keeps (verifyPasswordReset E t u c)"
  unfolding verifyPasswordReset_def
  by (intro preserves_intros keeps_ok)
    (auto intro!: preserves_intros keeps_ok keeps_write db_ok_resets_update split: option.split)

lemma keeps_users_resetPassword [keeps_ok]: "keeps (users_resetPassword E t u p c)"
  unfolding users_resetPassword_def
  by (intro preserves_intros keeps_ok)
    (auto intro!: preserves_intros keeps_ok keeps_write db_ok_resets_delete keeps_user_update split: option.split)

text \<open>
  The tables stay in order under every operation of the users service: user ids, emails,
  token hashes and codes stay unique, every email is stored in lower case and trimmed, and every
  session, code and reset belongs to a user that exists.
\<close>
theorem users_keep_tables:
  "preserves state_ok (users_create E t dto) \<and> preserves state_ok (veryfiRegister t email code)
   \<and> preserves state_ok (createOrUpdateEmailOtp E t uid h)
   \<and> preserves state_ok (saveRefreshToken E t uid tok dev did old)
   \<and> preserves state_ok (users_logoutDevice E t did ouid otok) \<and> preserves state_ok (logoutAllDevices t ouid)
   \<and> preserves state_ok (createPasswordReset E t uid) \<and> preserves state_ok (verifyPasswordReset E t uid oc)
   \<and> preserves state_ok (users_resetPassword E t uid pw oc)"
  by (intro conjI keeps_ok)

end
