(* ===== verification/Auth.thy ===== *)
theory Auth
  imports Users
begin

text \<open>
  \<open>apps/auth-service/src/modules/auth\<close>: registration, login, refresh, logout and the password
  reset flow (\<open>auth.service.ts\<close>), the local strategy of the login route and the confirmation page
  of \<open>auth.controller.ts\<close>.
\<close>

section \<open>Responses\<close>

definition publish :: "auth_env \<Rightarrow> string \<Rightarrow> json \<Rightarrow> unit auth" where
  "publish E subject data = (if \<not> ae_natsUp E then ret () else effect (Published subject data))"

definition cookie :: "string \<Rightarrow> string option \<Rightarrow> int option \<Rightarrow> unit auth" where
  "cookie name v maxAge = effect (SetCookie name v maxAge)"

definition clearCookie :: "string \<Rightarrow> unit auth" where
  "clearCookie name = effect (ClearCookie name)"

section \<open>Tokens\<close>

record auth_request =
  aq_forwarded :: "string option"
  aq_ip :: "string option"
  aq_userAgent :: "string option"

definition getDeviceData :: "auth_env \<Rightarrow> auth_request \<Rightarrow> device" where
  "getDeviceData E req =
     (let first = map_option (\<lambda>h. hd (split_on CHR '','' h)) (aq_forwarded req)
      in \<lparr>dv_name = ae_deviceName E (aq_userAgent req),
          dv_ip = (if truthy first then first else aq_ip req),
          dv_userAgent = aq_userAgent req\<rparr>)"

text \<open>\<open>Number(process.env.X) || default\<close>.\<close>

definition number_or :: "int option \<Rightarrow> int \<Rightarrow> int" where
  "number_or v dflt = (case v of Some n \<Rightarrow> if n = 0 then dflt else n | None \<Rightarrow> dflt)"

record login_response =
  lr_id :: string
  lr_email :: string
  lr_permVersion :: int
  lr_access_token :: string

definition token_claims :: "user_row \<Rightarrow> claims" where
  "token_claims u = \<lparr>cl_sub = Some (u_id u), cl_email = Some (u_email u), cl_permVersion = Some (u_permVersion u)\<rparr>"

definition refresh_token_for :: "auth_env \<Rightarrow> int \<Rightarrow> user_row \<Rightarrow> string" where
  "refresh_token_for E t u = ae_sign E (token_claims u) (number_or (ae_refreshExpiresIn E) (60 * 60 * 24 * 30)) t"

definition access_token_for :: "auth_env \<Rightarrow> int \<Rightarrow> user_row \<Rightarrow> string" where
  "access_token_for E t u = ae_sign E (token_claims u) (number_or (ae_expiresIn E) 900) t"

definition issueTokens ::
  "auth_env \<Rightarrow> int \<Rightarrow> user_row \<Rightarrow> device \<Rightarrow> string option \<Rightarrow> string option \<Rightarrow> login_response auth" where
  "issueTokens E t user dataDevice deviceId refreshTokenOld =
     (let refreshToken = refresh_token_for E t user;
          accessToken = access_token_for E t user
      in andthen (saveRefreshToken E t (u_id user) refreshToken dataDevice deviceId refreshTokenOld)
        (andthen (cookie ''refreshToken'' (Some refreshToken)
            (Some (number_or (ae_refreshExpiresIn E) (60 * 60 * 24 * 30) * 1000)))
        (andthen (cookie ''deviceId'' deviceId None)
          (ret \<lparr>lr_id = u_id user, lr_email = u_email user, lr_permVersion = u_permVersion user,
                lr_access_token = accessToken\<rparr>))))"

section \<open>Registration\<close>

record register_response =
  rr_userId :: string
  rr_email :: string
  rr_createdAt :: int

definition registered_event :: "auth_env \<Rightarrow> string \<Rightarrow> string \<Rightarrow> string \<Rightarrow> int \<Rightarrow> string option \<Rightarrow> exn + user_registered" where
  "registered_event E userId email code createdAt requestId =
     UserRegisteredSchema (ae_formats E) (user_registered_json
       \<lparr>ur_userId = userId, ur_email = email, ur_code = code, ur_createdAt = ae_iso E createdAt,
        ur_requestId = requestId\<rparr>)"

definition auth_register :: "auth_env \<Rightarrow> int \<Rightarrow> create_dto \<Rightarrow> string option \<Rightarrow> register_response auth" where
  "auth_register E t dto requestId =
     bind (users_create E t dto) (\<lambda>user.
     bind (lift (registered_event E (cu_userId user) (cu_email user) (cu_code user) (cu_createdAt user) requestId))
       (\<lambda>payload.
        andthen (publish E USER_REGISTERED (user_registered_json payload))
          (ret \<lparr>rr_userId = cu_userId user, rr_email = cu_email user, rr_createdAt = cu_createdAt user\<rparr>)))"

definition auth_verify :: "int \<Rightarrow> string \<Rightarrow> string \<Rightarrow> bool auth" where
  "auth_verify t email code =
     catchp (veryfiRegister t email code) (\<lambda>_. throw (service_exn VALIDATION_ERROR 401 ''Invalid code''))"

definition resendCode :: "auth_env \<Rightarrow> int \<Rightarrow> string option \<Rightarrow> string auth" where
  "resendCode E t email =
     catchp
      (bind (findOneByEmail email) (\<lambda>user.
        (case user of
           None \<Rightarrow> throw (service_exn AUTH_INVALID_CREDENTIALS 401 ''Not found user'')
         | Some u \<Rightarrow>
            if u_isActive u then throw (service_exn AUTH_INVALID_CREDENTIALS 401 ''Not found user'')
            else
              bind (draw E) (\<lambda>rnd.
              bind (hashPassword E rnd) (\<lambda>codeHash.
              bind (getEncryptKey E) (\<lambda>key.
              bind (encrypt E codeHash key) (\<lambda>code.
              andthen (createOrUpdateEmailOtp E t (u_id u) codeHash)
              (bind (lift (registered_event E (u_id u) (u_email u) code (u_createdAt u) None)) (\<lambda>payload.
              andthen (publish E USER_REGISTERED (user_registered_json payload))
                (ret ''Verification code resent'')))))))) ))
      (\<lambda>e. throw (service_exn AUTH_INVALID_CREDENTIALS 401 (nullish (err_message e) ''Not found user'')))"

section \<open>Login, refresh, logout\<close>

definition local_validate :: "auth_env \<Rightarrow> string option \<Rightarrow> string option \<Rightarrow> user_row auth" where
  "local_validate E email password = bind (validateUser E email password) (\<lambda>user.
     (case user of
        None \<Rightarrow> throw (service_exn AUTH_INVALID_CREDENTIALS 401 ''Invalid email or password'')
      | Some u \<Rightarrow> ret u))"

definition login :: "auth_env \<Rightarrow> int \<Rightarrow> string \<Rightarrow> auth_request \<Rightarrow> login_response auth" where
  "login E t email req =
     catchp
      (bind (draw E) (\<lambda>deviceId.
       bind (checkActiveEmail email) (\<lambda>user.
         issueTokens E t user (getDeviceData E req) (Some deviceId) None)))
      (\<lambda>e. if is_service_error e then throw e
           else throw (service_exn AUTH_INVALID_CREDENTIALS 401
                  (nullish (err_message e) ''Invalid email or password'')))"

text \<open>The cookies of the refresh token and the device; \<open>jwt.verify\<close> of an absent token throws.\<close>

definition jwt_verify_cookie :: "auth_env \<Rightarrow> int \<Rightarrow> string option \<Rightarrow> exn + claims" where
  "jwt_verify_cookie E t token = (case token of None \<Rightarrow> Inl (PlainErr ''jwt must be provided'')
     | Some tok \<Rightarrow> ae_jwtVerify E t tok)"

definition auth_refresh ::
  "auth_env \<Rightarrow> int \<Rightarrow> string option \<Rightarrow> string option \<Rightarrow> auth_request \<Rightarrow> login_response auth" where
  "auth_refresh E t refreshTokenOld deviceId req =
     catchp
      (bind (lift (jwt_verify_cookie E t refreshTokenOld)) (\<lambda>decoded.
       bind (findByRefreshToken E t (cl_sub decoded) (cl_permVersion decoded) refreshTokenOld deviceId) (\<lambda>user.
         issueTokens E t user (getDeviceData E req) deviceId refreshTokenOld)))
      (\<lambda>e. andthen (clearCookie ''refreshToken'') (andthen (clearCookie ''deviceId'')
         (throw (service_exn AUTH_REFRESH_TOKEN_INVALID 401 (nullish (err_message e) ''Invalid refresh token'')))))"

definition auth_info :: "string option \<Rightarrow> info_user option auth" where
  "auth_info userId = users_info userId"

text \<open>\<open>user.id\<close> of the caller, \<open>None\<close> when the object has no such property.\<close>

definition auth_logoutDevice :: "auth_env \<Rightarrow> int \<Rightarrow> string option \<Rightarrow> string option \<Rightarrow> string option \<Rightarrow> string auth" where
  "auth_logoutDevice E t deviceId user_id refreshToken =
     andthen (users_logoutDevice E t deviceId user_id refreshToken)
    (andthen (clearCookie ''refreshToken'') (andthen (clearCookie ''deviceId'') (ret ''logout success'')))"

definition logoutAll :: "int \<Rightarrow> string option \<Rightarrow> string auth" where
  "logoutAll t user_id =
     andthen (logoutAllDevices t user_id)
    (andthen (clearCookie ''refreshToken'') (andthen (clearCookie ''deviceId'') (ret ''logout success'')))"

section \<open>Password reset\<close>

definition genericMessage :: string where
  "genericMessage = ''If an account with that email exists, a password reset link has been sent.''"

definition reset_event :: "auth_env \<Rightarrow> user_row \<Rightarrow> reset_ticket \<Rightarrow> exn + password_reset_requested" where
  "reset_event E u k = PasswordResetRequestedSchema (ae_formats E) (JObj
     [(''userId'', JStr (u_id u)), (''email'', JStr (u_email u)), (''token'', JStr (rk_token k)),
      (''expiresAt'', JStr (ae_iso E (rk_expiresAt k)))])"

definition reset_event_json :: "password_reset_requested \<Rightarrow> json" where
  "reset_event_json p = JObj [(''userId'', JStr (pr_userId p)), (''email'', JStr (pr_email p)),
     (''token'', JStr (pr_token p)), (''expiresAt'', JStr (pr_expiresAt p))]"

definition sendResetPassword :: "auth_env \<Rightarrow> password_reset_requested \<Rightarrow> unit auth" where
  "sendResetPassword E payload =
     (if \<not> ae_queueUp E then throw (PlainErr ''Connection is closed.'')
      else effect (Enqueued PASSWORD_RESET_REQUESTED (reset_event_json payload) 3))"

definition forgotPassword :: "auth_env \<Rightarrow> int \<Rightarrow> string option \<Rightarrow> string auth" where
  "forgotPassword E t email =
     catchp
      (bind (findOneByEmail email) (\<lambda>user.
        (case user of None \<Rightarrow> ret genericMessage
         | Some u \<Rightarrow>
            bind (createPasswordReset E t (u_id u)) (\<lambda>payload.
            bind (lift (reset_event E u payload)) (\<lambda>validated.
            andthen (sendResetPassword E validated) (ret genericMessage))))))
      (\<lambda>_. ret genericMessage)"

definition forgotPasswordVerify :: "auth_env \<Rightarrow> int \<Rightarrow> string option \<Rightarrow> string option \<Rightarrow> string auth" where
  "forgotPasswordVerify E t email code =
     catchp
      (bind (findOneByEmail email) (\<lambda>user.
        (case user of None \<Rightarrow> throw (service_exn NOT_FOUND 404 ''Email not found'')
         | Some u \<Rightarrow> andthen (verifyPasswordReset E t (u_id u) code) (ret ''Password reset verified''))))
      (\<lambda>e. if is_service_error e then throw e
           else throw (bad_request (nullish (err_message e) ''Error verifying password reset'')))"

definition forgotPasswordReset ::
  "auth_env \<Rightarrow> int \<Rightarrow> string option \<Rightarrow> string option \<Rightarrow> string \<Rightarrow> string auth" where
  "forgotPasswordReset E t email code password =
     catchp
      (bind (findOneByEmail email) (\<lambda>user.
        (case user of None \<Rightarrow> throw (bad_request ''Bad request'')
         | Some u \<Rightarrow>
            andthen (users_resetPassword E t (u_id u) password code)
           (andthen (logoutAllDevices t (Some (u_id u))) (ret ''Password reset success'')))))
      (\<lambda>e. if is_service_error e then throw e
           else throw (bad_request (nullish (err_message e) ''Error resetting password'')))"

section \<open>The confirmation page\<close>

fun replace_char :: "char \<Rightarrow> string \<Rightarrow> string \<Rightarrow> string" where
  "replace_char c r [] = []"
| "replace_char c r (x # xs) = (if x = c then r else [x]) @ replace_char c r xs"

definition escapeHtmlAttr :: "string \<Rightarrow> string" where
  "escapeHtmlAttr s =
     replace_char CHR ''>'' ''&gt;'' (replace_char CHR ''<'' ''&lt;''
      (replace_char (CHR 0x27) ''&#39;'' (replace_char (CHR 0x22) ''&quot;''
        (replace_char CHR ''&'' ''&amp;'' s))))"

definition verifyConfirmHtml :: "string \<Rightarrow> string \<Rightarrow> string" where
  \<open>verifyConfirmHtml email code =
     (let e = escapeHtmlAttr email; c = escapeHtmlAttr code
      in ''<!DOCTYPE html><html><head><meta charset="utf-8"><title>Verifying...</title></head><body>'' @
         ''<p>Verifying your email...</p><form id="f" method="POST" action="/auth/register/verify">'' @
         ''<input type="hidden" name="email" value="'' @ e @ ''"><input type="hidden" name="code" value="'' @ c @
         ''"></form><script>document.getElementById('f').submit();</script></body></html>'')\<close>


section \<open>A refresh that fails leaves no trace\<close>

lemma clean_saveRefreshToken: "clean (saveRefreshToken E t u tok dev d old)"
  unfolding saveRefreshToken_def Let_def
  by (intro clean_intros) (auto intro!: clean_intros clean_andthen_quiet quiet_bind split: option.split)

lemma quiet_findByRefreshToken: "quiet (findByRefreshToken E t u v tok d)"
  unfolding findByRefreshToken_def
  by (intro clean_intros) (auto intro!: clean_intros split: option.split)

lemma total_cookie [simp]: "total (cookie n v m)" "total (clearCookie n)"
  by (simp_all add: cookie_def clearCookie_def)

lemma clean_issueTokens: "clean (issueTokens E t u dev d old)"
  unfolding issueTokens_def Let_def
  by (intro clean_andthen_total clean_saveRefreshToken total_andthen total_cookie total_simps)

definition refresh_rejected :: "string \<Rightarrow> exn" where
  "refresh_rejected m = service_exn AUTH_REFRESH_TOKEN_INVALID 401 m"

text \<open>
  A refresh that fails for whatever reason answers 401 with the refresh-token code, clears
  both cookies, and changes no session and nothing else in the tables.
\<close>
theorem refresh_failure_clean:
  assumes "auth_refresh E t tok dev req s = (Inl e, s')"
  shows "(\<exists>m. e = refresh_rejected m) \<and> as_db s' = as_db s
    \<and> as_out s' = as_out s @ [ClearCookie ''refreshToken'', ClearCookie ''deviceId'']"
proof -
  let ?m = "bind (lift (jwt_verify_cookie E t tok)) (\<lambda>decoded.
       bind (findByRefreshToken E t (cl_sub decoded) (cl_permVersion decoded) tok dev) (\<lambda>user.
         issueTokens E t user (getDeviceData E req) dev tok))"
  have clean: "clean ?m"
    by (intro clean_intros quiet_findByRefreshToken clean_issueTokens)
  obtain e' s1 where m: "?m s = (Inl e', s1)"
    using assms by (cases "?m s") (auto simp: auth_refresh_def catchp_run split: sum.splits)
  with clean have "same_store s s1" unfolding clean_def by blast
  with assms m show ?thesis
    by (auto simp: auth_refresh_def catchp_run andthen_run clearCookie_def same_store_def refresh_rejected_def)
qed


section \<open>Sessions\<close>

text \<open>A user has at most one open session per device.\<close>

definition one_session :: "auth_db \<Rightarrow> bool" where
  "one_session db \<longleftrightarrow> (\<forall>x\<in>set (db_tokens db). \<forall>y\<in>set (db_tokens db).
     rt_revokedAt x = None \<and> rt_revokedAt y = None \<and> rt_userId x = rt_userId y \<and> rt_deviceId x = rt_deviceId y
       \<longrightarrow> rt_id x = rt_id y)"

definition session_of :: "auth_db \<Rightarrow> string \<Rightarrow> string \<Rightarrow> token_row \<Rightarrow> bool" where
  "session_of db u d x \<longleftrightarrow> x \<in> set (db_tokens db) \<and> open_session (Some u) (Some d) x"

lemma session_unique:
  assumes "db_ok db" and "one_session db" and "session_of db u d x" and "session_of db u d y"
  shows "x = y"
proof -
  have "rt_id x = rt_id y"
    using assms(2-4) unfolding one_session_def session_of_def open_session_def where_eq_simps by metis
  then show ?thesis
    using unique_key_eq [OF db_okD(3) [OF assms(1)]] assms(3,4) by (auto simp: session_of_def)
qed

lemma find_first_only:
  assumes "P x" and "x \<in> set t" and "\<And>y. y \<in> set t \<Longrightarrow> P y \<Longrightarrow> y = x"
  shows "find_first P t = Some x"
proof (cases "find_first P t")
  case None
  then show ?thesis using assms(1,2) unfolding find_first_None_iff by blast
next
  case (Some y)
  then show ?thesis using assms(3) find_first_SomeD [OF Some] by blast
qed

lemma find_session:
  assumes "db_ok db" and "one_session db" and "session_of db u d x"
  shows "find_first (open_session (Some u) (Some d)) (db_tokens db) = Some x"
  using assms session_unique [OF assms(1,2)]
  by (intro find_first_only) (auto simp: session_of_def)

lemma find_by_token_cases:
  assumes "findByRefreshToken E t (Some u) v (Some tok) (Some d) s = (Inr user, s')"
  obtains x where "session_of (as_db s) u d x" "t < rt_expiresAt x" "ae_verify E (rt_tokenHash x) tok"
    "user \<in> set (db_users (as_db s))" "u_id user = u" "s' = s"
    "\<exists>w\<in>set (db_users (as_db s)). u_id w = u \<and> where_eq v (u_permVersion w)"
proof -
  obtain x where x: "find_first (live_session t (Some u) v (Some d) (as_db s)) (db_tokens (as_db s)) = Some x"
    using assms by (auto simp: findByRefreshToken_def bind_run split: option.splits)
  then have l: "x \<in> set (db_tokens (as_db s))" "live_session t (Some u) v (Some d) (as_db s) x"
    using find_first_SomeD by fast+
  obtain w where w: "ae_verify E (rt_tokenHash x) tok" "w = user" "s' = s"
      "find_first (\<lambda>w. u_id w = rt_userId x) (db_users (as_db s)) = Some w"
    using assms x
    by (auto simp: findByRefreshToken_def bind_run split: option.splits if_splits)
  from find_first_SomeD [OF w(4)] have "user \<in> set (db_users (as_db s))" "u_id user = rt_userId x"
    using w(2) by auto
  with l w show thesis
    by (intro that [of x]) (auto simp: session_of_def live_session_def open_session_def)
qed

lemma token_set_hash_Inr: "token_set_hash i h e s = (Inr y, s') \<Longrightarrow>
    s' = s\<lparr>as_db := (as_db s)\<lparr>db_tokens := update_where (\<lambda>r. rt_id r = i)
      (\<lambda>r. r\<lparr>rt_tokenHash := h, rt_expiresAt := e\<rparr>) (db_tokens (as_db s))\<rparr>\<rparr>"
  by (simp add: token_set_hash_def bind_run split: if_splits)

lemma as_db_draws: "as_db (s\<lparr>as_draws := n\<rparr>) = as_db s"
  by simp

lemma saveRefreshToken_existing:
  assumes "find_first (open_session (Some u) d) (db_tokens (as_db s)) = Some x"
    and "saveRefreshToken E t u tok dev d old s = (Inr y, s')"
  shows "as_db s' = (as_db s)\<lparr>db_tokens := update_where (\<lambda>r. rt_id r = rt_id x)
      (\<lambda>r. r\<lparr>rt_tokenHash := ae_hash E (ae_random E (as_draws s)) tok, rt_expiresAt := t + refreshTtlSeconds E * 1000\<rparr>)
      (db_tokens (as_db s))\<rparr> \<and> as_out s' = as_out s"
proof -
  let ?s = "s\<lparr>as_draws := as_draws s + 1\<rparr>"
  let ?old = "if truthy old then bind (verifyPassword E (rt_tokenHash x) old) (\<lambda>valid. throw_if (\<not> valid) invalid_refresh)
       else ret ()"
  have "quiet ?old" by (auto intro!: clean_intros)
  then have q: "same_store ?s (snd (?old ?s))" unfolding quiet_def by blast
  have "andthen ?old (token_set_hash (rt_id x) (ae_hash E (ae_random E (as_draws s)) tok) (t + refreshTtlSeconds E * 1000)) ?s
      = (Inr y, s')"
    using assms(2) unfolding saveRefreshToken_def Let_def
    by (simp only: bind_run [of "hashPassword E tok"] bind_run [of "read_db f" for f] hashPassword_run read_db_run
        prod.case sum.case as_db_draws assms(1) option.case)
  then obtain v s1 where "?old ?s = (Inr v, s1)"
      "token_set_hash (rt_id x) (ae_hash E (ae_random E (as_draws s)) tok) (t + refreshTtlSeconds E * 1000) s1 = (Inr y, s')"
    unfolding andthen_Inr_iff by blast
  from token_set_hash_Inr [OF this(2)] this(1) q show ?thesis by (simp add: same_store_def)
qed

lemma saveRefreshToken_new:
  assumes "find_first (open_session (Some u) d) (db_tokens (as_db s)) = None"
    and "saveRefreshToken E t u tok dev d old s = (Inr y, s')"
  obtains uuid dv where "d = Some dv" "as_out s' = as_out s" "user_exists u (as_db s)"
    "as_db s' = (as_db s)\<lparr>db_tokens := db_tokens (as_db s) @
      [\<lparr>rt_id = uuid, rt_userId = u, rt_tokenHash = ae_hash E (ae_random E (as_draws s)) tok, rt_revokedAt = None,
        rt_expiresAt = t + refreshTtlSeconds E * 1000, rt_deviceId = dv, rt_deviceName = Some (dv_name dev),
        rt_ipAddress = dv_ip dev, rt_userAgent = dv_userAgent dev\<rparr>]\<rparr>"
  using assms
  by (cases d) (auto simp: saveRefreshToken_def Let_def bind_run token_create_def simp del: find_first_None_iff split: if_splits)

lemma issueTokens_Inr:
  assumes "issueTokens E t user dev d old s = (Inr res, s')"
  obtains s1 y where "saveRefreshToken E t (u_id user) (refresh_token_for E t user) dev d old s = (Inr y, s1)"
    "res = \<lparr>lr_id = u_id user, lr_email = u_email user, lr_permVersion = u_permVersion user,
      lr_access_token = access_token_for E t user\<rparr>"
    "s' = s1\<lparr>as_out := as_out s1 @ [SetCookie ''refreshToken'' (Some (refresh_token_for E t user))
        (Some (number_or (ae_refreshExpiresIn E) (60 * 60 * 24 * 30) * 1000)), SetCookie ''deviceId'' d None]\<rparr>"
  using assms
  by (cases "saveRefreshToken E t (u_id user) (refresh_token_for E t user) dev d old s")
    (auto simp: issueTokens_def Let_def andthen_run cookie_def split: sum.splits)

lemma issueTokens_session:
  assumes "db_ok (as_db s)" and "one_session (as_db s)" and "session_of (as_db s) (u_id user) d x"
    and "issueTokens E t user dev (Some d) old s = (Inr res, s')"
  shows "res = \<lparr>lr_id = u_id user, lr_email = u_email user, lr_permVersion = u_permVersion user,
      lr_access_token = access_token_for E t user\<rparr>
    \<and> (\<exists>salt. as_db s' = (as_db s)\<lparr>db_tokens := update_where (\<lambda>r. rt_id r = rt_id x)
        (\<lambda>r. r\<lparr>rt_tokenHash := ae_hash E salt (refresh_token_for E t user), rt_expiresAt := t + refreshTtlSeconds E * 1000\<rparr>)
        (db_tokens (as_db s))\<rparr>)
    \<and> (\<exists>age. as_out s' = as_out s @ [SetCookie ''refreshToken'' (Some (refresh_token_for E t user)) (Some age),
         SetCookie ''deviceId'' (Some d) None])"
proof (rule issueTokens_Inr [OF assms(4)])
  fix s1 y
  assume save: "saveRefreshToken E t (u_id user) (refresh_token_for E t user) dev (Some d) old s = (Inr y, s1)"
    and res: "res = \<lparr>lr_id = u_id user, lr_email = u_email user, lr_permVersion = u_permVersion user,
      lr_access_token = access_token_for E t user\<rparr>"
    and s': "s' = s1\<lparr>as_out := as_out s1 @ [SetCookie ''refreshToken'' (Some (refresh_token_for E t user))
        (Some (number_or (ae_refreshExpiresIn E) (60 * 60 * 24 * 30) * 1000)), SetCookie ''deviceId'' (Some d) None]\<rparr>"
  from saveRefreshToken_existing [OF find_session [OF assms(1-3)] save] res s'
  show ?thesis by auto
qed

lemma session_after_rotation:
  assumes "session_of (db\<lparr>db_tokens := update_where (\<lambda>r. rt_id r = rt_id x)
      (\<lambda>r. r\<lparr>rt_tokenHash := h, rt_expiresAt := e\<rparr>) (db_tokens db)\<rparr>) u d y"
    and "session_of db u d x" and "db_ok db" and "one_session db"
  shows "rt_tokenHash y = h"
proof -
  obtain z where z: "z \<in> set (db_tokens db)"
      "y = (if rt_id z = rt_id x then z\<lparr>rt_tokenHash := h, rt_expiresAt := e\<rparr> else z)"
      "open_session (Some u) (Some d) y"
    using assms(1) by (auto simp: session_of_def set_update_where)
  then have "session_of db u d z" by (auto simp: session_of_def open_session_def split: if_splits)
  with session_unique [OF assms(3,4) _ assms(2)] z(2) show ?thesis by simp
qed

lemma session_survives:
  assumes "session_of (db\<lparr>db_tokens := update_where (\<lambda>r. rt_id r = rt_id x)
      (\<lambda>r. r\<lparr>rt_tokenHash := h, rt_expiresAt := e\<rparr>) (db_tokens db)\<rparr>) u d y" and "rt_tokenHash y \<noteq> h"
  shows "session_of db u d y \<and> rt_id y \<noteq> rt_id x"
  using assms by (auto simp: session_of_def set_update_where split: if_splits)

section \<open>Registration and verification\<close>

lemma user_create_Inr: "user_create row s = (Inr y, s') \<Longrightarrow>
    s' = s\<lparr>as_db := (as_db s)\<lparr>db_users := db_users (as_db s) @ [row]\<rparr>\<rparr>
    \<and> (\<forall>u\<in>set (db_users (as_db s)). u_email u \<noteq> u_email row \<and> u_id u \<noteq> u_id row)"
  by (auto simp: user_create_def bind_run split: if_splits)

lemma otp_create_Inr:
  assumes "createOrUpdateEmailOtp E t uid h s = (Inr y, s')"
    and "\<forall>x\<in>set (db_otps (as_db s)). eo_userId x \<noteq> uid"
  shows "\<exists>uuid. as_db s' = (as_db s)\<lparr>db_otps := db_otps (as_db s) @ [\<lparr>eo_id = uuid, eo_userId = uid,
      eo_codeHash = h, eo_expiresAt = t + QUARTER, eo_isUsed = False\<rparr>]\<rparr> \<and> as_out s' = as_out s
    \<and> (\<forall>x\<in>set (db_otps (as_db s)). eo_id x \<noteq> uuid)"
  using assms by (auto simp: createOrUpdateEmailOtp_def bind_run split: if_splits)

lemma getEncryptKey_Inr: "getEncryptKey E s = (Inr k, s') \<Longrightarrow> s' = s"
  by (simp add: getEncryptKey_run split: if_splits)

lemma users_create_Inr:
  assumes "users_create E t dto s = (Inr r, s')" and "state_ok s"
  obtains uuid pwsalt codeHash salt key oid where
    "as_db s' = (as_db s)\<lparr>db_users := db_users (as_db s) @
        [new_user t uuid dto (ae_hash E pwsalt (cd_password dto))],
      db_otps := db_otps (as_db s) @ [\<lparr>eo_id = oid, eo_userId = uuid, eo_codeHash = codeHash,
        eo_expiresAt = t + QUARTER, eo_isUsed = False\<rparr>]\<rparr>"
    "as_out s' = as_out s" "\<forall>s. getEncryptKey E s = (Inr key, s)"
    "r = \<lparr>cu_userId = uuid, cu_email = normal_email dto, cu_code = ae_cipher E salt codeHash key, cu_createdAt = t\<rparr>"
    "\<forall>u\<in>set (db_users (as_db s)). u_email u \<noteq> normal_email dto \<and> u_id u \<noteq> uuid"
    "\<forall>x\<in>set (db_otps (as_db s)). eo_id x \<noteq> oid"
    "\<forall>x\<in>set (db_otps (as_db s)). eo_userId x \<noteq> uuid"
proof -
  obtain ph s1 rnd s2 ch s3 key s4 code s5 uuid s6 y s7 z s8 where
      st: "hashPassword E (cd_password dto) s = (Inr ph, s1)" "draw E s1 = (Inr rnd, s2)"
        "hashPassword E rnd s2 = (Inr ch, s3)" "getEncryptKey E s3 = (Inr key, s4)"
        "encrypt E ch key s4 = (Inr code, s5)" "draw E s5 = (Inr uuid, s6)"
        "user_create (new_user t uuid dto ph) s6 = (Inr y, s7)"
        "createOrUpdateEmailOtp E t uuid ch s7 = (Inr z, s8)"
      and r: "r = \<lparr>cu_userId = uuid, cu_email = normal_email dto, cu_code = code, cu_createdAt = t\<rparr>" "s' = s8"
    using assms(1) unfolding users_create_def bind_Inr_iff andthen_Inr_iff
    by (auto simp: bind_Inr_iff andthen_Inr_iff simp del: hashPassword_run draw_run encrypt_run split: if_splits)
  have s6: "as_db s6 = as_db s" "as_out s6 = as_out s"
    using st(1-6) getEncryptKey_Inr [OF st(4)] by auto
  note uc = user_create_Inr [OF st(7)]
  have absent: "\<forall>x\<in>set (db_otps (as_db s)). eo_userId x \<noteq> uuid"
  proof
    fix x assume x: "x \<in> set (db_otps (as_db s))"
    have "user_exists (eo_userId x) (as_db s)"
      using db_okD(10) [OF _ x] assms(2) by (simp add: state_ok_def)
    then show "eo_userId x \<noteq> uuid" using uc s6 by (auto simp: user_exists_def new_user_def)
  qed
  from otp_create_Inr [OF st(8)] absent uc s6 obtain oid where
    "as_db s8 = (as_db s7)\<lparr>db_otps := db_otps (as_db s7) @ [\<lparr>eo_id = oid, eo_userId = uuid,
      eo_codeHash = ch, eo_expiresAt = t + QUARTER, eo_isUsed = False\<rparr>]\<rparr>" "as_out s8 = as_out s7"
    "\<forall>x\<in>set (db_otps (as_db s)). eo_id x \<noteq> oid" by auto
  moreover have "getEncryptKey E w = (Inr key, w)" for w
    using st(4) by (simp add: getEncryptKey_run split: if_splits)
  moreover obtain salt pwsalt where "code = ae_cipher E salt ch key" "ph = ae_hash E pwsalt (cd_password dto)"
    using st(1,5) by auto
  ultimately show thesis
    using that [where uuid = uuid and pwsalt = pwsalt and codeHash = ch and oid = oid and key = key and salt = salt] uc s6 r absent by (auto simp: new_user_def)
qed

text \<open>
  A registered account can be activated with the code that was published: after a successful
  registration exactly one event was published, for the normalised address; with any cipher
  that decrypts what it encrypts, the decrypted code is accepted for the address (in any case, with
  surrounding blanks) for 15 minutes; before that, login is refused as not verified; after it, the
  account is active and the registered password is accepted.
\<close>
lemma registration_accepted:
  assumes "state_ok s" and "hash_ok E" and "ae_natsUp E"
    and "auth_register E t dto requestId s = (Inr r, s')"
    and "\<And>salt x k. dec (ae_cipher E salt x k) k = x" and "t' < t + QUARTER"
  shows "\<exists>event code key user.
      as_out s' = as_out s @ [Published ''user.registered'' (user_registered_json event)]
    \<and> registered_ok (ae_formats E) event \<and> (\<exists>salt x. ur_code event = ae_cipher E salt x key)
    \<and> ur_email event = normal_email dto \<and> ur_code event = code \<and> (\<forall>s. getEncryptKey E s = (Inr key, s))
    \<and> fst (checkActiveEmail (normal_email dto) s') =
        Inl (service_exn AUTH_INVALID_CREDENTIALS 401 ''account_not_verified or not_found.'')
    \<and> (let (res, s'') = auth_verify t' (cd_email dto) (dec code key) s'
       in res = Inr True \<and> user \<in> set (db_users (as_db s'')) \<and> u_isActive user \<and> u_email user = normal_email dto
          \<and> fst (local_validate E (Some (cd_email dto)) (Some (cd_password dto)) s'') = Inr user
          \<and> fst (checkActiveEmail (normal_email dto) s'') = Inr user)"
proof -
  obtain c s1 ev where c: "users_create E t dto s = (Inr c, s1)"
      and ev: "registered_event E (cu_userId c) (cu_email c) (cu_code c) (cu_createdAt c) requestId = Inr ev"
      and s': "s' = s1\<lparr>as_out := as_out s1 @ [Published ''user.registered'' (user_registered_json ev)]\<rparr>"
    using assms(3,4)
    by (auto simp: auth_register_def bind_Inr_iff andthen_Inr_iff publish_def USER_REGISTERED_def)
  obtain uuid pwsalt ch salt key oid where u:
    "as_db s1 = (as_db s)\<lparr>db_users := db_users (as_db s) @ [new_user t uuid dto (ae_hash E pwsalt (cd_password dto))],
      db_otps := db_otps (as_db s) @ [\<lparr>eo_id = oid, eo_userId = uuid, eo_codeHash = ch,
        eo_expiresAt = t + QUARTER, eo_isUsed = False\<rparr>]\<rparr>"
    "as_out s1 = as_out s" "\<forall>s. getEncryptKey E s = (Inr key, s)"
    "c = \<lparr>cu_userId = uuid, cu_email = normal_email dto, cu_code = ae_cipher E salt ch key, cu_createdAt = t\<rparr>"
    "\<forall>u\<in>set (db_users (as_db s)). u_email u \<noteq> normal_email dto \<and> u_id u \<noteq> uuid"
    "\<forall>x\<in>set (db_otps (as_db s)). eo_id x \<noteq> oid" "\<forall>x\<in>set (db_otps (as_db s)). eo_userId x \<noteq> uuid"
    by (rule users_create_Inr [OF c assms(1)])
  have e: "ur_email ev = normal_email dto" "ur_code ev = ae_cipher E salt ch key"
    and formats: "registered_ok (ae_formats E) ev"
    using ev u(4) by (auto simp: registered_event_def split: if_splits)
  let ?u = "new_user t uuid dto (ae_hash E pwsalt (cd_password dto))"
  let ?v = "?u\<lparr>u_isActive := True, u_updatedAt := t'\<rparr>"
  let ?o = "\<lparr>eo_id = oid, eo_userId = uuid, eo_codeHash = ch, eo_expiresAt = t + QUARTER, eo_isUsed = False\<rparr>"
  have s'db: "db_users (as_db s') = db_users (as_db s) @ [?u]" "db_otps (as_db s') = db_otps (as_db s) @ [?o]"
    by (simp_all add: s' u(1))
  have u_simps: "u_id ?u = uuid" "u_email ?u = normal_email dto" "\<not> u_isActive ?u"
      "u_passwordHash ?u = ae_hash E pwsalt (cd_password dto)"
    by (simp_all add: new_user_def)
  have find: "find_first (\<lambda>w. u_email w = normal_email dto \<and> P w) (db_users (as_db s) @ [w]) =
      (if u_email w = normal_email dto \<and> P w then Some w else None)" for P w
    using u(5) by (subst find_first_last) auto
  have early: "fst (checkActiveEmail (normal_email dto) s') =
        Inl (service_exn AUTH_INVALID_CREDENTIALS 401 ''account_not_verified or not_found.'')"
    by (simp add: checkActiveEmail_def bind_run s'db find u_simps)
  have otp: "find_first (\<lambda>o'. eo_userId o' = uuid \<and> eo_codeHash o' = ch \<and> t' < eo_expiresAt o') (db_otps (as_db s) @ [?o])
      = Some ?o"
    using u(7) assms(6) by (subst find_first_last) auto
  have exists: "user_exists uuid (as_db s')" by (simp add: user_exists_def s'db u_simps)
  obtain s'' where verify: "auth_verify t' (cd_email dto) (dec (ur_code ev) key) s' = (Inr True, s'')"
      and after: "db_users (as_db s'') = db_users (as_db s) @ [?v]"
  proof -
    have upd: "update_where (\<lambda>w. u_id w = uuid) f (db_users (as_db s) @ [?u]) = db_users (as_db s) @ [f ?u]" for f
      using u(5) by (simp add: update_where_append update_where_none u_simps)
    show thesis
      by (rule that, simp add: auth_verify_def veryfiRegister_def catchp_run bind_run andthen_run
          normal_email_def [symmetric] s'db find u_simps e assms(5) otp user_update_def exists upd) simp
  qed
  have "find_first (\<lambda>w. u_email w = normal_email dto) (db_users (as_db s) @ [?v]) = Some ?v"
    using u(5) u_simps(2) by (subst find_first_last) auto
  then have login: "fst (local_validate E (Some (cd_email dto)) (Some (cd_password dto)) s'') = Inr ?v"
      "fst (checkActiveEmail (normal_email dto) s'') = Inr ?v"
    using assms(2)
    by (simp_all add: local_validate_def validateUser_def findOneByEmail_def bind_run after normal_email_def [symmetric]
        checkActiveEmail_def find u_simps hash_ok_def)
  show ?thesis
    using s' u(2,3) e formats early verify after login u_simps
    by (rule_tac x = ev in exI, rule_tac x = "ur_code ev" in exI, rule_tac x = key in exI, rule_tac x = ?v in exI) auto
qed


section \<open>Password reset\<close>

lemma reset_create_Inr: "reset_create row s = (Inr y, s') \<Longrightarrow>
    s' = s\<lparr>as_db := (as_db s)\<lparr>db_resets := db_resets (as_db s) @ [row]\<rparr>\<rparr>"
  by (auto simp: reset_create_def bind_run split: if_splits)

lemma createPasswordReset_Inr:
  assumes "createPasswordReset E t uid s = (Inr k, s')"
  obtains rid n salt salt' key where
    "as_db s' = (as_db s)\<lparr>db_resets := db_resets (as_db s) @ [\<lparr>pw_id = rid, pw_userId = uid,
      pw_tokenHash = ae_hash E salt (ae_random E n), pw_expiresAt = t + QUARTER, pw_used = False\<rparr>]\<rparr>"
    "as_out s' = as_out s" "\<forall>s. getEncryptKey E s = (Inr key, s)"
    "k = \<lparr>rk_token = ae_cipher E salt' (ae_hash E salt (ae_random E n)) key, rk_expiresAt = t + QUARTER\<rparr>"
proof -
  obtain tok s1 h s2 key s3 enc s4 rid s5 y s6 where
      st: "draw E s = (Inr tok, s1)" "hashPassword E tok s1 = (Inr h, s2)" "getEncryptKey E s2 = (Inr key, s3)"
        "encrypt E h key s3 = (Inr enc, s4)" "draw E s4 = (Inr rid, s5)"
        "reset_create \<lparr>pw_id = rid, pw_userId = uid, pw_tokenHash = h, pw_expiresAt = t + QUARTER, pw_used = False\<rparr> s5
          = (Inr y, s6)"
      and k: "k = \<lparr>rk_token = enc, rk_expiresAt = t + QUARTER\<rparr>" "s' = s6"
    using assms unfolding createPasswordReset_def bind_Inr_iff andthen_Inr_iff
    by (auto simp: bind_Inr_iff andthen_Inr_iff simp del: hashPassword_run draw_run encrypt_run)
  have s5: "as_db s5 = as_db s" "as_out s5 = as_out s"
    using st(1-5) getEncryptKey_Inr [OF st(3)] by auto
  moreover have "getEncryptKey E w = (Inr key, w)" for w
    using st(3) by (simp add: getEncryptKey_run split: if_splits)
  moreover obtain salt salt' where "h = ae_hash E salt tok" "enc = ae_cipher E salt' h key"
    using st(2,4) by auto
  ultimately show thesis
    using that [where rid = rid and n = "as_draws s" and salt = salt and salt' = salt' and key = key] k st(1)
      reset_create_Inr [OF st(6)] by simp
qed

text \<open>
  Whether an address has an account is not revealed: a request for a reset always returns the
  same generic message, even when the database, the cipher key or the queue fails.
\<close>
theorem forgot_password_uniform: "fst (forgotPassword E t email s) = Inr genericMessage"
  by (auto simp: forgotPassword_def catchp_run bind_run andthen_run split: prod.splits sum.splits option.splits)

text \<open>What is enqueued for a reset, when something is.\<close>

lemma forgotPassword_enqueued:
  assumes "findOneByEmail email s = (Inr (Some u), s)"
    and "as_out (snd (forgotPassword E t email s)) \<noteq> as_out s"
  obtains k s1 p where "createPasswordReset E t (u_id u) s = (Inr k, s1)" "reset_event E u k = Inr p"
    "as_db (snd (forgotPassword E t email s)) = as_db s1"
    "as_out (snd (forgotPassword E t email s)) =
       as_out s @ [Enqueued ''passwordReset.requested'' (reset_event_json p) 3]"
proof (cases "createPasswordReset E t (u_id u) s")
  case (Pair r s1)
  have out: "as_out s1 = as_out s"
  proof -
    have "as_out (snd (createPasswordReset E t (u_id u) s)) = as_out s"
      by (simp add: createPasswordReset_def bind_run andthen_run getEncryptKey_run reset_create_def
          split: sum.split)
    with Pair show ?thesis by simp
  qed
  show thesis
  proof (cases r)
    case (Inl e)
    with Pair out assms show thesis by (simp add: forgotPassword_def catchp_run bind_run)
  next
    case (Inr k)
    show thesis
    proof (cases "reset_event E u k")
      case e: (Inl e)
      with Pair Inr out assms show thesis by (simp add: forgotPassword_def catchp_run bind_run)
    next
      case p: (Inr p)
      show thesis
        using Pair Inr out assms p
        by (intro that [of k s1 p])
          (auto simp: forgotPassword_def catchp_run bind_run andthen_run sendResetPassword_def
            PASSWORD_RESET_REQUESTED_def split: if_splits)
    qed
  qed
qed

section \<open>One open session per device\<close>

named_theorems single_ok \<open>programs that keep one open session per device\<close>

definition single_state :: "auth_state \<Rightarrow> bool" where
  "single_state s \<longleftrightarrow> one_session (as_db s)"

abbreviation single :: "'a auth \<Rightarrow> bool" where
  "single m \<equiv> preserves single_state m"

lemma one_session_cong: "db_tokens db' = db_tokens db \<Longrightarrow> one_session db' = one_session db"
  by (simp add: one_session_def)

lemma single_quiet: "quiet m \<Longrightarrow> single m"
  unfolding quiet_def preserves_def same_store_def single_state_def by simp

lemma single_simps [single_ok]: "single (read_db f)" "single (effect e)" "single (draw E)" "single (hashPassword E p)"
    "single (verifyPassword E h q)" "single (cookie n v m)" "single (clearCookie n)"
  by (simp_all add: single_quiet) (simp_all add: preserves_def cookie_def clearCookie_def single_state_def)

lemma one_session_update:
  assumes "one_session db" and "\<And>r. rt_id (f r) = rt_id r \<and> rt_userId (f r) = rt_userId r \<and> rt_deviceId (f r) = rt_deviceId r"
    and "\<And>r. rt_revokedAt (f r) = None \<Longrightarrow> rt_revokedAt r = None"
  shows "one_session (db\<lparr>db_tokens := update_where P f (db_tokens db)\<rparr>)"
proof -
  define g where "g r = (if P r then f r else r)" for r
  have same: "rt_id (g r) = rt_id r" "rt_userId (g r) = rt_userId r" "rt_deviceId (g r) = rt_deviceId r" for r
    using assms(2) by (auto simp: g_def)
  have either: "g r = f r \<or> g r = r" for r by (simp add: g_def)
  have opened: "rt_revokedAt r = None" if "rt_revokedAt (g r) = None" for r
    using either [of r] assms(3) [of r] that by metis
  have set: "set (update_where P f (db_tokens db)) = g ` set (db_tokens db)"
    unfolding set_update_where by (rule image_cong) (simp_all add: g_def)
  have "rt_id (g x) = rt_id (g y)"
    if "x \<in> set (db_tokens db)" "y \<in> set (db_tokens db)"
      "rt_revokedAt (g x) = None \<and> rt_revokedAt (g y) = None \<and> rt_userId (g x) = rt_userId (g y)
        \<and> rt_deviceId (g x) = rt_deviceId (g y)" for x y
    using assms(1) that opened [of x] opened [of y] unfolding one_session_def same by blast
  moreover have "db_tokens (db\<lparr>db_tokens := ts\<rparr>) = ts" for ts by simp
  ultimately show ?thesis unfolding one_session_def by (simp only: set) blast
qed

lemma one_session_append:
  assumes "one_session db"
    and "\<forall>x\<in>set (db_tokens db). rt_userId x = rt_userId row \<and> rt_deviceId x = rt_deviceId row \<longrightarrow> rt_revokedAt x \<noteq> None"
  shows "one_session (db\<lparr>db_tokens := db_tokens db @ [row]\<rparr>)"
proof -
  have "db_tokens (db\<lparr>db_tokens := db_tokens db @ [row]\<rparr>) = db_tokens db @ [row]" by simp
  moreover have "set (db_tokens db @ [row]) = insert row (set (db_tokens db))" by simp
  ultimately show ?thesis using assms unfolding one_session_def
    by (simp only:) (intro ballI impI; elim insertE; metis)
qed

lemma single_revoke [single_ok]: "single (tokens_revoke t P)"
  unfolding preserves_def tokens_revoke_run single_state_def
  by (auto intro!: one_session_update)

lemma single_saveRefreshToken [single_ok]: "single (saveRefreshToken E t u tok dev d old)"
proof (rule preservesI)
  fix s assume "single_state s"
  then have one: "one_session (as_db s)" by (simp add: single_state_def)
  have "one_session (as_db (snd (saveRefreshToken E t u tok dev d old s)))"
  proof (cases "saveRefreshToken E t u tok dev d old s")
    case (Pair r s')
    show ?thesis
    proof (cases r)
      case (Inl e)
      with Pair clean_saveRefreshToken have "same_store s s'" unfolding clean_def by blast
      with Pair one show ?thesis by (simp add: same_store_def)
    next
      case (Inr y)
      show ?thesis
      proof (cases "find_first (open_session (Some u) d) (db_tokens (as_db s))")
        case (Some x)
        from saveRefreshToken_existing [OF Some] Pair Inr one show ?thesis
          by (auto intro!: one_session_update)
      next
        case None
        from Pair Inr have "saveRefreshToken E t u tok dev d old s = (Inr y, s')" by simp
        then obtain dv row where d: "d = Some dv" and row: "rt_userId row = u \<and> rt_deviceId row = dv
            \<and> as_db s' = (as_db s)\<lparr>db_tokens := db_tokens (as_db s) @ [row]\<rparr>"
        proof (rule saveRefreshToken_new [OF None])
          fix uuid dv
          let ?row = "\<lparr>rt_id = uuid, rt_userId = u, rt_tokenHash = ae_hash E (ae_random E (as_draws s)) tok,
            rt_revokedAt = None, rt_expiresAt = t + refreshTtlSeconds E * 1000, rt_deviceId = dv,
            rt_deviceName = Some (dv_name dev), rt_ipAddress = dv_ip dev, rt_userAgent = dv_userAgent dev\<rparr>"
          assume "d = Some dv" "as_db s' = (as_db s)\<lparr>db_tokens := db_tokens (as_db s) @ [?row]\<rparr>"
          with that [of dv ?row] show thesis by simp
        qed
        moreover have "\<forall>x\<in>set (db_tokens (as_db s)). rt_userId x = u \<and> rt_deviceId x = dv \<longrightarrow> rt_revokedAt x \<noteq> None"
          using None unfolding d by (auto simp: open_session_def)
        ultimately show ?thesis using one_session_append [OF one, of row] Pair row by simp
      qed
    qed
  qed
  then show "single_state (snd (saveRefreshToken E t u tok dev d old s))" by (simp add: single_state_def)
qed

lemma single_issueTokens [single_ok]: "single (issueTokens E t user dev d old)"
  unfolding issueTokens_def Let_def by (intro preserves_intros single_ok preserves_ret)

lemma single_login [single_ok]: "single (login E t email req)"
  unfolding login_def checkActiveEmail_def
  by (intro preserves_intros single_ok) (auto intro!: preserves_intros single_ok split: option.split)

lemma single_refresh [single_ok]: "single (auth_refresh E t tok d req)"
  unfolding auth_refresh_def
  by (intro preserves_intros single_ok preserves_lift preserves_throw single_quiet [OF quiet_findByRefreshToken])

lemma single_logouts [single_ok]: "single (auth_logoutDevice E t d u tok)" "single (logoutAll t u)"
  unfolding auth_logoutDevice_def logoutAll_def users_logoutDevice_def logoutAllDevices_def
  by (intro preserves_intros single_ok preserves_ret;
      auto intro!: preserves_intros single_ok split: option.split)+

lemma keeps_cookie [keeps_ok]: "keeps (cookie n v m)" "keeps (clearCookie n)" "keeps (publish E sub j)"
  by (simp_all add: preserves_def cookie_def clearCookie_def publish_def state_ok_def)

lemma keeps_issueTokens [keeps_ok]: "keeps (issueTokens E t user dev d old)"
  unfolding issueTokens_def Let_def by (intro preserves_intros keeps_ok preserves_ret)

lemma keeps_auth_refresh [keeps_ok]: "keeps (auth_refresh E t tok d req)"
  unfolding auth_refresh_def by (intro preserves_intros keeps_ok preserves_lift preserves_throw)

text \<open>
  C31. Sessions stay well-formed: login, refresh and both logouts keep the tables in order and keep
  at most one open session per user and device, which is what rotation relies on.
\<close>
theorem sessions_well_formed:
  "preserves state_ok (login E t email req) \<and> preserves single_state (login E t email req)
   \<and> preserves state_ok (auth_refresh E t tok d req) \<and> preserves single_state (auth_refresh E t tok d req)
   \<and> preserves state_ok (auth_logoutDevice E t d u tok) \<and> preserves single_state (auth_logoutDevice E t d u tok)
   \<and> preserves state_ok (logoutAll t u) \<and> preserves single_state (logoutAll t u)"
proof (intro conjI single_ok keeps_auth_refresh)
  show "keeps (login E t email req)"
    unfolding login_def by (intro preserves_intros keeps_ok) simp
  show "keeps (auth_logoutDevice E t d u tok)" "keeps (logoutAll t u)"
    unfolding auth_logoutDevice_def logoutAll_def by (intro preserves_intros keeps_ok preserves_ret)+
qed

text \<open>
  C3. Refresh tokens rotate, a second after their issue. A refresh that succeeds presented the token whose hash is stored
  in an open, unexpired session of that user and device; afterwards that session, and no other row
  of any table, holds the hash of the newly issued token, which is the one in the cookie. If the newly signed
  token is another string, presenting the old one again is rejected at any later instant, for that
  device and for every other device of the user with no open session of its own that holds the same token. What happens when
  it is the same string is \<open>refresh_same_second\<close>.
\<close>
theorem refresh_rotates:
  assumes "state_ok s" and "one_session (as_db s)" and "hash_ok E"
    and "ae_jwtVerify E t old = Inr c" and "cl_sub c = Some u"
    and "auth_refresh E t (Some old) (Some d) req s = (Inr res, s')"
    and "\<And>t' c'. ae_jwtVerify E t' old = Inr c' \<Longrightarrow> cl_sub c' = Some u"
  shows "\<exists>x user salt. session_of (as_db s) u d x \<and> t < rt_expiresAt x \<and> ae_verify E (rt_tokenHash x) old
    \<and> user \<in> set (db_users (as_db s)) \<and> u_id user = u
    \<and> as_db s' = (as_db s)\<lparr>db_tokens := update_where (\<lambda>r. rt_id r = rt_id x)
        (\<lambda>r. r\<lparr>rt_tokenHash := ae_hash E salt (refresh_token_for E t user), rt_expiresAt := t + refreshTtlSeconds E * 1000\<rparr>)
        (db_tokens (as_db s))\<rparr>
    \<and> (\<exists>age. as_out s' = as_out s @ [SetCookie ''refreshToken'' (Some (refresh_token_for E t user)) (Some age),
         SetCookie ''deviceId'' (Some d) None])
    \<and> (old \<noteq> refresh_token_for E t user \<longrightarrow>
        (\<forall>t' d' req'. d' = d \<or> (\<forall>y. session_of (as_db s) u d' y \<longrightarrow> \<not> ae_verify E (rt_tokenHash y) old) \<longrightarrow>
          (\<exists>m. fst (auth_refresh E t' (Some old) (Some d') req' s') = Inl (refresh_rejected m))))"
proof -
  have db: "db_ok (as_db s)" using assms(1) by (simp add: state_ok_def)
  obtain user where f: "findByRefreshToken E t (Some u) (cl_permVersion c) (Some old) (Some d) s = (Inr user, s)"
      and i: "issueTokens E t user (getDeviceData E req) (Some d) (Some old) s = (Inr res, s')"
    using assms(4-6)
    by (auto simp: auth_refresh_def jwt_verify_cookie_def catchp_run bind_run andthen_run clearCookie_def
        split: prod.splits sum.splits elim: find_by_token_cases)
  obtain x where x: "session_of (as_db s) u d x" "t < rt_expiresAt x" "ae_verify E (rt_tokenHash x) old"
      "user \<in> set (db_users (as_db s))" "u_id user = u"
    by (rule find_by_token_cases [OF f])
  note iss = issueTokens_session [OF db assms(2) x(1) [folded x(5)] i]
  then obtain salt where after: "as_db s' = (as_db s)\<lparr>db_tokens := update_where (\<lambda>r. rt_id r = rt_id x)
        (\<lambda>r. r\<lparr>rt_tokenHash := ae_hash E salt (refresh_token_for E t user), rt_expiresAt := t + refreshTtlSeconds E * 1000\<rparr>)
        (db_tokens (as_db s))\<rparr>" by blast
  have replay: "\<exists>m. fst (auth_refresh E t' (Some old) (Some d') req' s') = Inl (refresh_rejected m)"
    if new: "old \<noteq> refresh_token_for E t user"
      and other: "d' = d \<or> (\<forall>y. session_of (as_db s) u d' y \<longrightarrow> \<not> ae_verify E (rt_tokenHash y) old)" for t' d' req'
  proof (cases "auth_refresh E t' (Some old) (Some d') req' s'")
    case (Pair r s'')
    show ?thesis
    proof (cases r)
      case (Inl e)
      with Pair refresh_failure_clean show ?thesis by fastforce
    next
      case (Inr res')
      with Pair obtain c' user' s2 where
          v: "ae_jwtVerify E t' old = Inr c'" and
          f': "findByRefreshToken E t' (cl_sub c') (cl_permVersion c') (Some old) (Some d') s' = (Inr user', s2)"
        by (auto simp: auth_refresh_def jwt_verify_cookie_def catchp_run bind_run andthen_run clearCookie_def
            split: prod.splits sum.splits)
      obtain y where y: "session_of (as_db s') u d' y" "ae_verify E (rt_tokenHash y) old"
        by (rule find_by_token_cases [OF f' [unfolded assms(7) [OF v]]])
      have "rt_tokenHash y \<noteq> ae_hash E salt (refresh_token_for E t user)"
        using y(2) assms(3) new by (auto simp: hash_ok_def)
      with session_survives [OF y(1) [unfolded after]] have before: "session_of (as_db s) u d' y" "rt_id y \<noteq> rt_id x" by blast+
      with other y(2) have "d' = d" by blast
      with before session_unique [OF db assms(2) _ x(1)] show ?thesis by blast
    qed
  qed
  show ?thesis using x iss after replay by blast
qed

text \<open>What the cookie's second half of a rotation needs to succeed again.\<close>

lemma issueTokens_again:
  assumes "db_ok (as_db s)" and "one_session (as_db s)" and "session_of (as_db s) (u_id user) d x"
    and "ae_verify E (rt_tokenHash x) old"
    and "\<forall>r\<in>set (db_tokens (as_db s)). rt_tokenHash r = ae_hash E (ae_random E (as_draws s)) (refresh_token_for E t user) \<longrightarrow> r = x"
  shows "\<exists>res s'. issueTokens E t user dev (Some d) (Some old) s = (Inr res, s')"
proof -
  let ?h = "ae_hash E (ae_random E (as_draws s)) (refresh_token_for E t user)"
  have "x \<in> set (db_tokens (as_db s))" using assms(3) by (simp add: session_of_def)
  then have "exists_row (\<lambda>r. rt_id r = rt_id x) (db_tokens (as_db s))" by auto
  moreover have "\<not> exists_row (\<lambda>r. rt_id r \<noteq> rt_id x \<and> rt_tokenHash r = ?h) (db_tokens (as_db s))"
    unfolding exists_row_iff using assms(5) by blast
  ultimately have "\<exists>s1. token_set_hash (rt_id x) ?h e (s\<lparr>as_draws := as_draws s + 1\<rparr>) = (Inr (), s1)" for e
    by (simp add: token_set_hash_def bind_run del: exists_row_iff)
  then obtain s1 where "saveRefreshToken E t (u_id user) (refresh_token_for E t user) dev (Some d) (Some old) s = (Inr (), s1)"
    using find_session [OF assms(1-3)] assms(4)
    by (fastforce simp: saveRefreshToken_def Let_def andthen_run bind_run throw_if_def)
  then show ?thesis by (simp add: issueTokens_def Let_def andthen_run cookie_def)
qed

lemma find_by_token_found:
  assumes "db_ok (as_db s)" and "one_session (as_db s)" and "session_of (as_db s) u d x" and "t < rt_expiresAt x"
    and "ae_verify E (rt_tokenHash x) tok" and "user \<in> set (db_users (as_db s))" and "u_id user = u" and "where_eq v (u_permVersion user)"
  shows "findByRefreshToken E t (Some u) v (Some tok) (Some d) s = (Inr user, s)"
proof -
  have x: "x \<in> set (db_tokens (as_db s))" "open_session (Some u) (Some d) x" using assms(3) by (simp_all add: session_of_def)
  then have own: "rt_userId x = u" by (simp add: open_session_def)
  have "live_session t (Some u) v (Some d) (as_db s) x"
    using assms(4,6-8) x own by (auto simp: live_session_def)
  moreover have "y = x" if "y \<in> set (db_tokens (as_db s))" "live_session t (Some u) v (Some d) (as_db s) y" for y
    by (rule session_unique [OF assms(1,2) _ assms(3)]) (use that in \<open>simp add: session_of_def live_session_def\<close>)
  ultimately have "find_first (live_session t (Some u) v (Some d) (as_db s)) (db_tokens (as_db s)) = Some x"
    using x(1) by (intro find_first_only)
  moreover have "find_first (\<lambda>w. u_id w = u) (db_users (as_db s)) = Some user"
    using find_first_unique [of u_id "db_users (as_db s)" user] db_okD(1) [OF assms(1)] assms(6,7) by simp
  ultimately show ?thesis using assms(5) own by (simp add: findByRefreshToken_def bind_run)
qed

text \<open>
  C36. Within a second rotation rotates nothing: the payload of a refresh token names the account and the second of
  its issue, so a refresh in the second in which the presented token was issued signs the same string, puts it in the cookie again, and the token that was presented is accepted again
  afterwards, until it expires; unless the hash drawn for it then is already that of another session, as hashes are unique.
\<close>
theorem refresh_same_second:
  assumes "state_ok s" and "one_session (as_db s)" and "hash_ok E"
    and "\<And>cl ttl t1 t2. t1 div 1000 = t2 div 1000 \<Longrightarrow> ae_sign E cl ttl t1 = ae_sign E cl ttl t2"
    and "user \<in> set (db_users (as_db s))" and "old = refresh_token_for E t0 user" and "t0 div 1000 = t div 1000"
    and "ae_jwtVerify E t old = Inr c" and "cl_sub c = Some (u_id user)"
    and "auth_refresh E t (Some old) (Some d) req s = (Inr res, s')"
    and "ae_jwtVerify E t' old = Inr c" and "t' < t + refreshTtlSeconds E * 1000"
    and "\<forall>r\<in>set (db_tokens (as_db s')). rt_tokenHash r = ae_hash E (ae_random E (as_draws s')) (refresh_token_for E t' user) \<longrightarrow>
      session_of (as_db s') (u_id user) d r"
  shows "(\<exists>age. as_out s' = as_out s @ [SetCookie ''refreshToken'' (Some old) (Some age), SetCookie ''deviceId'' (Some d) None])
    \<and> (\<exists>res' s''. auth_refresh E t' (Some old) (Some d) req' s' = (Inr res', s''))"
proof -
  have db: "db_ok (as_db s)" using assms(1) by (simp add: state_ok_def)
  have same: "refresh_token_for E t user = old"
    unfolding assms(6) refresh_token_for_def by (rule assms(4)) (simp add: assms(7))
  obtain user' where f: "findByRefreshToken E t (Some (u_id user)) (cl_permVersion c) (Some old) (Some d) s = (Inr user', s)"
      and i: "issueTokens E t user' (getDeviceData E req) (Some d) (Some old) s = (Inr res, s')"
    using assms(8-10)
    by (auto simp: auth_refresh_def jwt_verify_cookie_def catchp_run bind_run andthen_run clearCookie_def
        split: prod.splits sum.splits elim: find_by_token_cases)
  obtain x where x: "session_of (as_db s) (u_id user) d x" "user' \<in> set (db_users (as_db s))" "u_id user' = u_id user"
      and v: "\<exists>w\<in>set (db_users (as_db s)). u_id w = u_id user \<and> where_eq (cl_permVersion c) (u_permVersion w)"
    by (rule find_by_token_cases [OF f])
  have one: "w = user" if "w \<in> set (db_users (as_db s))" "u_id w = u_id user" for w
    using unique_key_eq [OF db_okD(1) [OF db] that(1) assms(5)] that(2) by simp
  have u: "user' = user" by (rule one [OF x(2,3)])
  have perm: "where_eq (cl_permVersion c) (u_permVersion user)" using v one by blast
  note iss = issueTokens_session [OF db assms(2) x(1) i [unfolded u], unfolded same]
  then obtain salt where after: "as_db s' = (as_db s)\<lparr>db_tokens := update_where (\<lambda>r. rt_id r = rt_id x)
        (\<lambda>r. r\<lparr>rt_tokenHash := ae_hash E salt old, rt_expiresAt := t + refreshTtlSeconds E * 1000\<rparr>)
        (db_tokens (as_db s))\<rparr>" by blast
  let ?x = "x\<lparr>rt_tokenHash := ae_hash E salt old, rt_expiresAt := t + refreshTtlSeconds E * 1000\<rparr>"
  have x': "session_of (as_db s') (u_id user) d ?x"
    using x(1) by (force simp: after session_of_def open_session_def set_update_where)
  have "state_ok s'" "one_session (as_db s')"
    using preservesD [OF keeps_auth_refresh, of s E t "Some old" "Some d" req]
      preservesD [OF single_refresh, of s E t "Some old" "Some d" req] assms(1,2,10) by (simp_all add: single_state_def)
  then have db': "db_ok (as_db s')" "one_session (as_db s')" by (simp_all add: state_ok_def)
  have ok: "ae_verify E (rt_tokenHash ?x) old" using assms(3) by (simp add: hash_ok_def)
  have "findByRefreshToken E t' (Some (u_id user)) (cl_permVersion c) (Some old) (Some d) s' = (Inr user, s')"
    using find_by_token_found [OF db' x' _ ok, of t' user] assms(5,12) perm by (simp add: after)
  moreover have "\<exists>res' s''. issueTokens E t' user (getDeviceData E req') (Some d) (Some old) s' = (Inr res', s'')"
    using issueTokens_again [OF db' x' ok] assms(13) session_unique [OF db' _ x'] by blast
  ultimately have "\<exists>res' s''. auth_refresh E t' (Some old) (Some d) req' s' = (Inr res', s'')"
    using assms(9,11) by (auto simp: auth_refresh_def jwt_verify_cookie_def catchp_run bind_run)
  with iss show ?thesis by blast
qed

text \<open>
  C16. A password reset that succeeds replaces the password, ends every session and consumes the
  code: the account accepts exactly the new password, every session of the user is revoked while
  the sessions of others are untouched, and the verified reset row is gone.
\<close>
theorem reset_ends_sessions:
  assumes "state_ok s" and "hash_ok E"
    and "forgotPasswordReset E t email code password s = (Inr m, s')"
  shows "\<exists>u row. findOneByEmail email s = (Inr (Some u), s) \<and> row \<in> set (db_resets (as_db s))
    \<and> pw_userId row = u_id u \<and> pw_used row \<and> (\<exists>c. code = Some c \<and> ae_verify E (pw_tokenHash row) c)
    \<and> (\<forall>w\<in>set (db_users (as_db s')). u_id w = u_id u \<longrightarrow> (\<forall>q. ae_verify E (u_passwordHash w) q \<longleftrightarrow> q = password))
    \<and> (\<forall>r\<in>set (db_tokens (as_db s')). rt_userId r = u_id u \<longrightarrow> rt_revokedAt r \<noteq> None)
    \<and> filter (\<lambda>r. rt_userId r \<noteq> u_id u) (db_tokens (as_db s')) = filter (\<lambda>r. rt_userId r \<noteq> u_id u) (db_tokens (as_db s))
    \<and> (\<forall>r\<in>set (db_resets (as_db s')). pw_id r \<noteq> pw_id row)"
proof -
  obtain u where u: "find_first (\<lambda>u. where_eq email (u_email u)) (db_users (as_db s)) = Some u"
    using assms(3) by (cases "find_first (\<lambda>u. where_eq email (u_email u)) (db_users (as_db s))")
      (auto simp: forgotPasswordReset_def catchp_run bind_run findOneByEmail_def bad_request_def service_exn_def
        is_service_error_def)
  obtain x s1 where r: "users_resetPassword E t (u_id u) password code s = (Inr x, s1)"
      and s': "as_db s' = (as_db s1)\<lparr>db_tokens := update_where (\<lambda>r. rt_revokedAt r = None \<and> rt_userId r = u_id u)
          (\<lambda>r. r\<lparr>rt_revokedAt := Some t\<rparr>) (db_tokens (as_db s1))\<rparr>"
    using assms(3) u
    by (cases "users_resetPassword E t (u_id u) password code s")
      (auto simp: forgotPasswordReset_def catchp_run bind_run andthen_run findOneByEmail_def logoutAllDevices_def
        tokens_revoke_run split: sum.splits if_splits)
  obtain row where row: "find_first (\<lambda>r. pw_userId r = u_id u \<and> pw_used r) (db_resets (as_db s)) = Some row"
    using r by (cases "find_first (\<lambda>r. pw_userId r = u_id u \<and> pw_used r) (db_resets (as_db s))")
      (auto simp: users_resetPassword_def bind_run)
  obtain c where c: "code = Some c" "ae_verify E (pw_tokenHash row) c"
    using r row by (cases code) (auto simp: users_resetPassword_def bind_run verifyPassword_def split: if_splits)
  have s1: "db_users (as_db s1) = update_where (\<lambda>w. u_id w = u_id u)
        (\<lambda>w. w\<lparr>u_passwordHash := ae_hash E (ae_random E (as_draws s)) password, u_updatedAt := t\<rparr>) (db_users (as_db s))"
      "db_tokens (as_db s1) = db_tokens (as_db s)"
      "db_resets (as_db s1) = delete_where (\<lambda>x. pw_id x = pw_id row) (db_resets (as_db s))"
    using r row c by (auto simp: users_resetPassword_def bind_run andthen_run user_update_def split: if_splits)
  have frame: "filter (\<lambda>r. rt_userId r \<noteq> w) (update_where (\<lambda>r. rt_revokedAt r = None \<and> rt_userId r = w) f ts)
      = filter (\<lambda>r. rt_userId r \<noteq> w) ts" if "\<And>r. rt_userId (f r) = rt_userId r" for w f ts
    using that by (induction ts) auto
  show ?thesis
    using find_first_SomeD [OF row] u c assms(2)
    by (intro exI [of _ u] exI [of _ row])
      (auto simp: findOneByEmail_def s' s1 set_update_where set_delete_where hash_ok_def frame)
qed


section \<open>Login\<close>

text \<open>
  The login route: the local guard, then the handler with the user it attached. \<open>passport-local\<close> fails a
  request without an address or a password before it calls \<open>validate\<close>; the guard then throws its default.
\<close>

definition local_guard :: "auth_env \<Rightarrow> string option \<Rightarrow> string option \<Rightarrow> user_row auth" where
  "local_guard E email password =
     (if \<not> truthy email \<or> \<not> truthy password then throw (UnauthorizedException ''Unauthorized'')
      else local_validate E email password)"

definition login_route :: "auth_env \<Rightarrow> int \<Rightarrow> string option \<Rightarrow> string option \<Rightarrow> auth_request \<Rightarrow> login_response auth" where
  "login_route E t email password req =
     bind (local_guard E email password) (\<lambda>u. login E t (u_email u) req)"

text \<open>
  C15. Login is sound: it succeeds only for an active account with the given address (normalised)
  and password, opens exactly one new session, on a device of its own, whose hash verifies the
  refresh token in the cookie, and returns that account's identity; nothing else in the tables
  changes.
\<close>
theorem login_sound:
  assumes "state_ok s" and "hash_ok E" and "login_route E t email password req s = (Inr r, s')"
    and "\<forall>x\<in>set (db_tokens (as_db s)). rt_deviceId x \<noteq> ae_random E (as_draws s)"
  shows "\<exists>u row. u \<in> set (db_users (as_db s)) \<and> u_isActive u
    \<and> where_eq (map_option (\<lambda>e. trim (toLowerCase e)) email) (u_email u)
    \<and> (\<exists>p. password = Some p \<and> ae_verify E (u_passwordHash u) p)
    \<and> as_db s' = (as_db s)\<lparr>db_tokens := db_tokens (as_db s) @ [row]\<rparr>
    \<and> rt_userId row = u_id u \<and> rt_revokedAt row = None \<and> rt_expiresAt row = t + refreshTtlSeconds E * 1000
    \<and> ae_verify E (rt_tokenHash row) (refresh_token_for E t u)
    \<and> (\<exists>age. as_out s' = as_out s @ [SetCookie ''refreshToken'' (Some (refresh_token_for E t u)) (Some age),
         SetCookie ''deviceId'' (Some (rt_deviceId row)) None])
    \<and> r = \<lparr>lr_id = u_id u, lr_email = u_email u, lr_permVersion = u_permVersion u,
           lr_access_token = access_token_for E t u\<rparr>"
proof -
  let ?find = "find_first (\<lambda>u. where_eq (map_option (\<lambda>e. trim (toLowerCase e)) email) (u_email u)) (db_users (as_db s))"
  obtain v p where v: "?find = Some v" "password = Some p" "ae_verify E (u_passwordHash v) p"
      and l: "login E t (u_email v) req s = (Inr r, s')"
    using assms(3)
    by (auto simp: login_route_def local_guard_def local_validate_def validateUser_def findOneByEmail_def bind_run verifyPassword_def
        split: option.splits if_splits sum.splits prod.splits)
  let ?s = "s\<lparr>as_draws := as_draws s + 1\<rparr>" and ?dev = "ae_random E (as_draws s)"
  obtain u where u: "find_first (\<lambda>u. u_email u = u_email v \<and> u_isActive u) (db_users (as_db s)) = Some u"
      and i: "issueTokens E t u (getDeviceData E req) (Some ?dev) None ?s = (Inr r, s')"
    using l by (auto simp: login_def catchp_run bind_run checkActiveEmail_def split: option.splits prod.splits sum.splits if_splits)
  have "u = v"
    using unique_key_eq [OF db_okD(2), of "as_db s" u v] find_first_SomeD [OF u] find_first_SomeD [OF v(1)] assms(1)
    by (simp add: state_ok_def)
  obtain s1 y where save: "saveRefreshToken E t (u_id u) (refresh_token_for E t u) (getDeviceData E req) (Some ?dev) None ?s = (Inr y, s1)"
      and res: "r = \<lparr>lr_id = u_id u, lr_email = u_email u, lr_permVersion = u_permVersion u,
           lr_access_token = access_token_for E t u\<rparr>"
      and s': "s' = s1\<lparr>as_out := as_out s1 @ [SetCookie ''refreshToken'' (Some (refresh_token_for E t u))
        (Some (number_or (ae_refreshExpiresIn E) (60 * 60 * 24 * 30) * 1000)), SetCookie ''deviceId'' (Some ?dev) None]\<rparr>"
    by (rule issueTokens_Inr [OF i])
  have none: "find_first (open_session (Some (u_id u)) (Some ?dev)) (db_tokens (as_db ?s)) = None"
    using assms(4) by (auto simp: open_session_def)
  obtain uuid where row: "as_db s1 = (as_db s)\<lparr>db_tokens := db_tokens (as_db s) @
      [\<lparr>rt_id = uuid, rt_userId = u_id u, rt_tokenHash = ae_hash E (ae_random E (as_draws s + 1)) (refresh_token_for E t u),
        rt_revokedAt = None, rt_expiresAt = t + refreshTtlSeconds E * 1000, rt_deviceId = ?dev,
        rt_deviceName = Some (dv_name (getDeviceData E req)), rt_ipAddress = dv_ip (getDeviceData E req),
        rt_userAgent = dv_userAgent (getDeviceData E req)\<rparr>]\<rparr>" "as_out s1 = as_out s"
    by (rule saveRefreshToken_new [OF none save]) auto
  show ?thesis
    using find_first_SomeD [OF u] find_first_SomeD [OF v(1)] v(2,3) res s' row assms(2) \<open>u = v\<close>
    by (intro exI [of _ u] exI [of _ "last (db_tokens (as_db s1))"]) (simp add: hash_ok_def)
qed

section \<open>The confirmation page\<close>

definition escape_char :: "char \<Rightarrow> string" where
  "escape_char c = (if c = CHR ''&'' then ''&amp;'' else if c = CHR 0x22 then ''&quot;''
     else if c = CHR 0x27 then ''&#39;'' else if c = CHR ''<'' then ''&lt;''
     else if c = CHR ''>'' then ''&gt;'' else [c])"

lemma replace_char_append [simp]: "replace_char c r (xs @ ys) = replace_char c r xs @ replace_char c r ys"
  by (induction xs) auto

lemma escapeHtmlAttr_simps [simp]:
  "escapeHtmlAttr [] = []" "escapeHtmlAttr (c # s) = escape_char c @ escapeHtmlAttr s"
  by (auto simp: escapeHtmlAttr_def escape_char_def)

text \<open>What a browser reads back from an attribute value.\<close>

fun html_text :: "string \<Rightarrow> string" where
  "html_text s = (case s of [] \<Rightarrow> []
     | c # cs \<Rightarrow>
        if starts_with ''&amp;'' s then CHR ''&'' # html_text (drop 4 cs)
        else if starts_with ''&quot;'' s then CHR 0x22 # html_text (drop 5 cs)
        else if starts_with ''&#39;'' s then CHR 0x27 # html_text (drop 4 cs)
        else if starts_with ''&lt;'' s then CHR ''<'' # html_text (drop 3 cs)
        else if starts_with ''&gt;'' s then CHR ''>'' # html_text (drop 3 cs)
        else c # html_text cs)"

declare html_text.simps [simp del]

lemma html_text_escape_char [simp]: "html_text (escape_char c @ s) = c # html_text s"
  by (subst html_text.simps) (auto simp: escape_char_def starts_with_def)

text \<open>
  The confirmation page cannot be broken out of: an escaped value contains no quote and no
  angle bracket, whatever the query held, and a browser reads back exactly the value.
\<close>
theorem escape_safe:
  "(\<forall>c\<in>set (escapeHtmlAttr s). c \<noteq> CHR 0x22 \<and> c \<noteq> CHR 0x27 \<and> c \<noteq> CHR ''<'' \<and> c \<noteq> CHR ''>'')
   \<and> html_text (escapeHtmlAttr s) = s"
proof (intro conjI)
  show "html_text (escapeHtmlAttr s) = s"
    by (induction s) (simp_all, simp add: html_text.simps)
  show "\<forall>c\<in>set (escapeHtmlAttr s). c \<noteq> CHR 0x22 \<and> c \<noteq> CHR 0x27 \<and> c \<noteq> CHR ''<'' \<and> c \<noteq> CHR ''>''"
    by (induction s) (auto simp: escape_char_def)
qed


section \<open>A concrete instance\<close>

definition demo_env :: auth_env where
  "demo_env = \<lparr>ae_hash = (\<lambda>salt p. ''h:'' @ p), ae_verify = (\<lambda>h q. h = ''h:'' @ q),
     ae_random = (\<lambda>n. ''r'' @ show_nat n), ae_cipher = (\<lambda>salt x k. ''c:'' @ x),
     ae_encryptKey = Some ''k'', ae_refreshExpiresIn = None, ae_expiresIn = None,
     ae_sign = (\<lambda>c ttl t. ''jwt'' @ show_int t),
     ae_jwtVerify = (\<lambda>t tok. Inr \<lparr>cl_sub = Some ''u1'', cl_email = Some ''a@b'', cl_permVersion = Some 1\<rparr>),
     ae_iso = (\<lambda>_. ''date''), ae_deviceName = (\<lambda>ua. ''Chrome on Linux''),
     ae_formats = \<lparr>zf_uuid = \<lambda>_. True, zf_email = \<lambda>_. True, zf_datetime = \<lambda>_. True\<rparr>,
     ae_natsUp = True, ae_queueUp = True\<rparr>"

definition demo_user :: user_row where
  "demo_user = \<lparr>u_id = ''u1'', u_email = ''a@b'', u_passwordHash = ''h:pw'', u_permVersion = 1, u_name = None,
     u_phone = None, u_isActive = True, u_createdAt = 0, u_updatedAt = 0\<rparr>"

definition demo_session :: token_row where
  "demo_session = \<lparr>rt_id = ''s1'', rt_userId = ''u1'', rt_tokenHash = ''h:old'', rt_revokedAt = None,
     rt_expiresAt = 1000, rt_deviceId = ''d1'', rt_deviceName = None, rt_ipAddress = None, rt_userAgent = None\<rparr>"

definition demo_reset :: reset_row where
  "demo_reset = \<lparr>pw_id = ''p1'', pw_userId = ''u1'', pw_tokenHash = ''h:code'', pw_expiresAt = 1000, pw_used = True\<rparr>"

definition demo_state :: auth_state where
  "demo_state = \<lparr>as_db = empty_db\<lparr>db_users := [demo_user], db_tokens := [demo_session], db_resets := [demo_reset]\<rparr>,
     as_redis = Map.empty, as_draws = 0, as_out = []\<rparr>"

definition demo_request :: auth_request where
  "demo_request = \<lparr>aq_forwarded = None, aq_ip = Some ''1.2.3.4'', aq_userAgent = None\<rparr>"

lemma demo_hash_ok [simp]: "hash_ok demo_env"
  by (auto simp: hash_ok_def demo_env_def)

lemma demo_state_ok [simp]: "state_ok demo_state" "one_session (as_db demo_state)"
  by (simp_all add: state_ok_def db_ok_def demo_state_def empty_db_def user_exists_def demo_user_def demo_session_def
      demo_reset_def one_session_def normalized_def)
    code_simp

lemma refresh_failure_clean_witness:
  "\<exists>m. fst (auth_refresh demo_env 5 (Some ''forged'') (Some ''d1'') demo_request demo_state) = Inl (refresh_rejected m)
    \<and> as_db (snd (auth_refresh demo_env 5 (Some ''forged'') (Some ''d1'') demo_request demo_state)) = as_db demo_state"
proof -
  have "fst (auth_refresh demo_env 5 (Some ''forged'') (Some ''d1'') demo_request demo_state) = Inl (refresh_rejected ''Invalid refresh token'')"
    by code_simp
  then show ?thesis
    using refresh_failure_clean [of demo_env 5 "Some ''forged''" "Some ''d1''" demo_request demo_state]
    by (metis prod.collapse)
qed

lemma refresh_rotates_witness:
  "\<forall>t' req'. \<exists>m. fst (auth_refresh demo_env t' (Some ''old'') (Some ''d1'') req'
      (snd (auth_refresh demo_env 5 (Some ''old'') (Some ''d1'') demo_request demo_state))) = Inl (refresh_rejected m)"
proof -
  have "fst (auth_refresh demo_env 5 (Some ''old'') (Some ''d1'') demo_request demo_state) =
      Inr \<lparr>lr_id = ''u1'', lr_email = ''a@b'', lr_permVersion = 1, lr_access_token = ''jwt5''\<rparr>" (is "_ = Inr ?res") by code_simp
  then have run: "auth_refresh demo_env 5 (Some ''old'') (Some ''d1'') demo_request demo_state =
      (Inr ?res, snd (auth_refresh demo_env 5 (Some ''old'') (Some ''d1'') demo_request demo_state))"
    by (simp add: prod_eq_iff)
  have "''old'' \<noteq> refresh_token_for demo_env 5 user" for user
    by (simp add: refresh_token_for_def demo_env_def)
  then show ?thesis
    using refresh_rotates [OF demo_state_ok demo_hash_ok _ _ run, of "\<lparr>cl_sub = Some ''u1'', cl_email = Some ''a@b'', cl_permVersion = Some 1\<rparr>" "''u1''"]
    by (auto simp: demo_env_def)
qed

definition second_env :: auth_env where
  "second_env = demo_env\<lparr>ae_sign := (\<lambda>c ttl t. ''jwt'' @ show_int (t div 1000))\<rparr>"

definition second_state :: auth_state where
  "second_state = demo_state\<lparr>as_db := (as_db demo_state)\<lparr>db_tokens := [demo_session\<lparr>rt_tokenHash := ''h:jwt0''\<rparr>]\<rparr>\<rparr>"

lemma refresh_same_second_witness:
  "\<exists>res' s''. auth_refresh second_env 9 (Some ''jwt0'') (Some ''d1'') demo_request
      (snd (auth_refresh second_env 7 (Some ''jwt0'') (Some ''d1'') demo_request second_state)) = (Inr res', s'')"
proof -
  let ?s' = "snd (auth_refresh second_env 7 (Some ''jwt0'') (Some ''d1'') demo_request second_state)"
    and ?c = "\<lparr>cl_sub = Some ''u1'', cl_email = Some ''a@b'', cl_permVersion = Some 1\<rparr>"
  have ok: "state_ok second_state" "one_session (as_db second_state)"
    using demo_state_ok by (simp_all add: state_ok_def db_ok_def second_state_def demo_state_def empty_db_def one_session_def
        user_exists_def demo_user_def demo_session_def demo_reset_def)
  have "fst (auth_refresh second_env 7 (Some ''jwt0'') (Some ''d1'') demo_request second_state) =
      Inr \<lparr>lr_id = ''u1'', lr_email = ''a@b'', lr_permVersion = 1, lr_access_token = ''jwt0''\<rparr>" (is "_ = Inr ?res") by code_simp
  then have run: "auth_refresh second_env 7 (Some ''jwt0'') (Some ''d1'') demo_request second_state = (Inr ?res, ?s')"
    by (simp add: prod_eq_iff)
  have hash: "hash_ok second_env" by (auto simp: hash_ok_def second_env_def demo_env_def)
  have sign: "ae_sign second_env cl ttl t1 = ae_sign second_env cl ttl t2" if "t1 div 1000 = t2 div 1000" for cl ttl t1 t2
    using that by (simp add: second_env_def)
  have user: "demo_user \<in> set (db_users (as_db second_state))" by (simp add: second_state_def demo_state_def)
  have old: "''jwt0'' = refresh_token_for second_env 5 demo_user" by code_simp
  have who: "ae_jwtVerify second_env t ''jwt0'' = Inr ?c" "cl_sub ?c = Some (u_id demo_user)" for t
    by (simp_all add: second_env_def demo_env_def demo_user_def)
  have early: "9 < 7 + refreshTtlSeconds second_env * 1000" by code_simp
  have "list_all (session_of (as_db ?s') (u_id demo_user) ''d1'') (db_tokens (as_db ?s'))" by code_simp
  then show ?thesis
    using refresh_same_second [OF ok hash sign user old _ who run who(1) early, of demo_request] by (simp add: list_all_iff)
qed

lemma reset_ends_sessions_witness:
  "filter (\<lambda>r. rt_userId r = ''u1'' \<and> rt_revokedAt r = None)
     (db_tokens (as_db (snd (forgotPasswordReset demo_env 5 (Some ''a@b'') (Some ''code'') ''new'' demo_state)))) = []"
proof -
  have "fst (forgotPasswordReset demo_env 5 (Some ''a@b'') (Some ''code'') ''new'' demo_state) = Inr ''Password reset success''"
    by code_simp
  then have run: "forgotPasswordReset demo_env 5 (Some ''a@b'') (Some ''code'') ''new'' demo_state =
      (Inr ''Password reset success'', snd (forgotPasswordReset demo_env 5 (Some ''a@b'') (Some ''code'') ''new'' demo_state))"
    by (simp add: prod_eq_iff)
  have find: "findOneByEmail (Some ''a@b'') demo_state = (Inr (Some demo_user), demo_state)"
    by (simp add: findOneByEmail_def demo_state_def demo_user_def empty_db_def)
  from reset_ends_sessions [OF demo_state_ok(1) demo_hash_ok run] show ?thesis
    unfolding find by (auto simp: demo_user_def filter_empty_conv)
qed

lemma login_sound_witness:
  "\<exists>row. db_tokens (as_db (snd (login_route demo_env 5 (Some '' A@b'') (Some ''pw'') demo_request demo_state)))
      = [demo_session, row] \<and> rt_userId row = ''u1''"
proof -
  have "fst (login_route demo_env 5 (Some '' A@b'') (Some ''pw'') demo_request demo_state) =
      Inr \<lparr>lr_id = ''u1'', lr_email = ''a@b'', lr_permVersion = 1, lr_access_token = ''jwt5''\<rparr>" (is "_ = Inr ?r") by code_simp
  then have run: "login_route demo_env 5 (Some '' A@b'') (Some ''pw'') demo_request demo_state =
      (Inr ?r, snd (login_route demo_env 5 (Some '' A@b'') (Some ''pw'') demo_request demo_state))"
    by (simp add: prod_eq_iff)
  show ?thesis
    using login_sound [OF demo_state_ok(1) demo_hash_ok run]
    by (auto simp: demo_state_def empty_db_def demo_session_def demo_user_def demo_env_def)
qed

lemma escape_safe_witness:
  "CHR 0x22 \<notin> set (escapeHtmlAttr [CHR 0x22, CHR ''>'', CHR ''<'']) \<and> html_text (escapeHtmlAttr [CHR 0x22]) = [CHR 0x22]"
  using escape_safe [of "[CHR 0x22, CHR ''>'', CHR ''<'']"] escape_safe [of "[CHR 0x22]"] by blast

end
