(* ===== verification/Delivery.thy ===== *)
theory Delivery
  imports Notification Auth
begin

text \<open>
  What is delivered between the services: the loop that consumes messages
  (\<open>packages/common/src/nats/base-jetstream-consumer.ts\<close>), the consumer of registrations of the
  notification service, and the worker of the mail queue (\<open>jobs.service.ts\<close>). JetStream and BullMQ are
  not modelled: a fetch gives a batch or fails, a job says how often it was attempted.
\<close>

section \<open>The loop of a consumer\<close>

record consumer_settings =
  cs_durable :: string
  cs_filter :: string
  cs_ackWait :: int
  cs_maxDeliver :: nat

text \<open>What \<open>ensureConsumer\<close> adds when the consumer does not exist.\<close>

definition ensureConsumer :: "bool \<Rightarrow> string \<Rightarrow> string \<Rightarrow> consumer_settings option" where
  "ensureConsumer exists durableName filterSubject = (if exists then None
     else Some \<lparr>cs_durable = durableName, cs_filter = filterSubject, cs_ackWait = 30000000000, cs_maxDeliver = 3\<rparr>)"

datatype acked = Acked | Naked

record logged_error =
  lo_code :: "string option"
  lo_statusCode :: "int option"
  lo_message :: string
  lo_exposeMessage :: "bool option"

definition formatted_error :: "exn \<Rightarrow> logged_error" where
  "formatted_error err = (case err of
     ServiceErr e \<Rightarrow> \<lparr>lo_code = Some (se_code e), lo_statusCode = Some (se_statusCode e), lo_message = se_message e,
         lo_exposeMessage = Some (se_exposeMessage e)\<rparr>
   | _ \<Rightarrow> \<lparr>lo_code = None, lo_statusCode = None, lo_message = nullish (err_message err) ''Unknown error'', lo_exposeMessage = None\<rparr>)"

datatype consumed = Done acked "logged_error option" | FetchError exn

text \<open>\<open>stop\<close>: how many more messages are looked at before the service is shut down, if it is.\<close>

fun consume_batch :: "('m \<Rightarrow> ('s, exn, unit) prog) \<Rightarrow> nat option \<Rightarrow> 'm list \<Rightarrow> 's \<Rightarrow> consumed list \<times> nat option \<times> 's" where
  "consume_batch handle stop [] s = ([], stop, s)"
| "consume_batch handle stop (m # ms) s =
     (if stop = Some 0 then ([], stop, s)
      else (let (r, s') = handle m s;
                out = (case r of Inr _ \<Rightarrow> Done Acked None | Inl err \<Rightarrow> Done Naked (Some (formatted_error err)));
                (outs, stop', s'') = consume_batch handle (map_option (\<lambda>n. n - 1) stop) ms s'
            in (out # outs, stop', s'')))"

fun consume_loop :: "('m \<Rightarrow> ('s, exn, unit) prog) \<Rightarrow> nat option \<Rightarrow> (exn + 'm list) list \<Rightarrow> 's \<Rightarrow> consumed list \<times> 's" where
  "consume_loop handle stop [] s = ([], s)"
| "consume_loop handle stop (f # fs) s =
     (if stop = Some 0 then ([], s)
      else (case f of
          Inl err \<Rightarrow> (let (outs, s') = consume_loop handle stop fs s in (FetchError err # outs, s'))
        | Inr batch \<Rightarrow> (let (outs, stop', s') = consume_batch handle stop batch s;
                            (outs', s'') = consume_loop handle stop' fs s'
                        in (outs @ outs', s''))))"

section \<open>Registrations\<close>

text \<open>The consumer of \<open>user.registered\<close>.\<close>

definition handle_registered :: "noti_env \<Rightarrow> string \<Rightarrow> unit noti" where
  "handle_registered N msg =
     bind (lift (case json_parse msg of None \<Rightarrow> Inl (PlainErr ''SyntaxError'') | Some d \<Rightarrow> Inr d)) (\<lambda>data.
     bind (lift (UserRegisteredSchema (ne_formats N) data)) (\<lambda>payload.
     andthen (sendMailRegis N payload) (ret ())))"

section \<open>The mail queue\<close>

record mail_job =
  mj_id :: "string option"
  mj_name :: string
  mj_email :: string
  mj_code :: string
  mj_token :: string
  mj_dataKeys :: "string list"
  mj_attempts :: "nat option"
  mj_attemptsMade :: nat

definition failed_text :: "string \<Rightarrow> exn \<Rightarrow> exn" where
  "failed_text what err = service_exn INTERNAL 500 (''Error sending '' @ what @ '': '' @ nullish (err_message err) ''undefined'')"

definition process_job :: "noti_env \<Rightarrow> mail_job \<Rightarrow> unit noti" where
  "process_job N job =
     (if mj_name job = ''send-verify-code'' then
        catchp (sendVerifyCode N (mj_email job) (mj_code job))
          (\<lambda>err. andthen (noti_effect_do (LogError ''Error sending verify code'')) (throw (failed_text ''verify code'' err)))
      else if mj_name job = PASSWORD_RESET_REQUESTED then
        catchp (sendResetPassword_mail N (mj_email job) (mj_token job))
          (\<lambda>err. andthen (noti_effect_do (LogError ''Error sending reset password'')) (throw (failed_text ''reset password'' err)))
      else ret ())"

record dead_letter =
  dl_originalJobId :: string
  dl_jobName :: string
  dl_failedReason :: string
  dl_attemptedAt :: string
  dl_dataKeys :: "string list"

text \<open>The listener of failures: nothing while attempts are left, a dead letter after the last.\<close>

definition on_failed :: "(int \<Rightarrow> string) \<Rightarrow> int \<Rightarrow> mail_job option \<Rightarrow> exn \<Rightarrow> dead_letter option" where
  "on_failed date t job err =
     (if (case job of Some j \<Rightarrow> (case mj_attempts j of Some n \<Rightarrow> n \<noteq> 0 \<and> mj_attemptsMade j < n | None \<Rightarrow> False) | None \<Rightarrow> False) then None
      else Some \<lparr>dl_originalJobId = nullish (Option.bind job mj_id) ''unknown'', dl_jobName = nullish (map_option mj_name job) ''unknown'',
             dl_failedReason = nullish (err_message err) ''Unknown error'', dl_attemptedAt = date t,
             dl_dataKeys = nullish (map_option mj_dataKeys job) []\<rparr>)"

section \<open>A mail for every registration\<close>

text \<open>What a message of the consumer leads to: it is acknowledged in any case, with a mail or with a log line.\<close>

definition mail_result :: "noti_env \<Rightarrow> user_registered \<Rightarrow> noti_effect" where
  "mail_result N ev = (case env_encryptKey (ne_encryptKey N) of Inl _ \<Rightarrow> LogError ''Send Email failed''
     | Inr key \<Rightarrow> (case ne_decrypt N (ur_code ev) key of Inl _ \<Rightarrow> LogError ''Send Email failed''
        | Inr code \<Rightarrow> if ne_mailer N (ur_email ev) = None
            then Mailed (ur_email ev) ''Your verification code'' (verify_mail N (ur_email ev) code)
            else LogError ''Send Email failed''))"

lemma sendMailRegis_run:
  "\<exists>r. sendMailRegis N ev n = (Inr r, n\<lparr>ns_out := ns_out n @ [mail_result N ev]\<rparr>)"
  by (auto simp: sendMailRegis_def mail_result_def sendVerifyCode_def sendMail_def catchp_run bind_run andthen_run
      split: sum.split option.split)

lemma handle_registered_run:
  assumes "registered_ok (ne_formats N) ev"
  shows "handle_registered N (stringify (user_registered_json ev)) n = (Inr (), n\<lparr>ns_out := ns_out n @ [mail_result N ev]\<rparr>)"
proof -
  obtain r where "sendMailRegis N ev n = (Inr r, n\<lparr>ns_out := ns_out n @ [mail_result N ev]\<rparr>)" using sendMailRegis_run by blast
  with assms show ?thesis by (simp add: handle_registered_def bind_run andthen_run)
qed

text \<open>
  A verification mail is lost for good: when the mail server refuses it, the consumer still acknowledges
  the message, so it is never delivered again, and all that is left is a line in the log.
\<close>
theorem lost_mail:
  assumes "registered_ok (ne_formats N) ev" and "ne_mailer N (ur_email ev) = Some e"
  shows "consume_loop (handle_registered N) None [Inr [stringify (user_registered_json ev)]] n =
    ([Done Acked None], n\<lparr>ns_out := ns_out n @ [LogError ''Send Email failed'']\<rparr>)"
proof -
  have "mail_result N ev = LogError ''Send Email failed''"
    using assms(2) by (simp add: mail_result_def split: sum.split)
  then show ?thesis by (simp add: handle_registered_run [OF assms(1)] Let_def)
qed

text \<open>The two services are set up alike: one cipher, one key, one zod.\<close>

definition same_setup :: "auth_env \<Rightarrow> noti_env \<Rightarrow> cipher_lib \<Rightarrow> (string \<Rightarrow> bytes \<times> bytes) \<Rightarrow> bool" where
  "same_setup E N L rnd \<longleftrightarrow> cipher_ok L \<and> (\<forall>x. length (fst (rnd x)) = 16 \<and> length (snd (rnd x)) = 16)
     \<and> ae_cipher E = (\<lambda>x. encrypt_with L (fst (rnd x)) (snd (rnd x))) \<and> ne_decrypt N = decrypt_text L
     \<and> ne_encryptKey N = ae_encryptKey E \<and> ne_formats N = ae_formats E"

text \<open>
  C10. Who registers gets a mail with a code that works. The message that a successful registration publishes,
  taken from the wire by the notification service, makes it send one mail, to the normalised
  address, with a link that carries a code; the auth service accepts this code for the address
  for 15 minutes. Before that, login is refused as not verified; after it, the registered password is
  accepted.
\<close>
theorem registration_mail:
  assumes "state_ok s" and "hash_ok E" and "ae_natsUp E" and "auth_register E t dto requestId s = (Inr r, s')"
    and "same_setup E N L rnd" and "ne_mailer N (normal_email dto) = None" and "t' < t + QUARTER"
  shows "\<exists>j code user. as_out s' = as_out s @ [Published ''user.registered'' j]
    \<and> (\<forall>n. handle_registered N (stringify j) n = (Inr (), n\<lparr>ns_out := ns_out n @
         [Mailed (normal_email dto) ''Your verification code'' (verify_mail N (normal_email dto) code)]\<rparr>))
    \<and> fst (checkActiveEmail (normal_email dto) s') =
        Inl (service_exn AUTH_INVALID_CREDENTIALS 401 ''account_not_verified or not_found.'')
    \<and> (let (res, s'') = auth_verify t' (cd_email dto) code s'
       in res = Inr True \<and> user \<in> set (db_users (as_db s'')) \<and> u_email user = normal_email dto
          \<and> fst (local_validate E (Some (cd_email dto)) (Some (cd_password dto)) s'') = Inr user
          \<and> fst (checkActiveEmail (normal_email dto) s'') = Inr user)"
proof -
  let ?dec = "\<lambda>c k. case ne_decrypt N c k of Inr x \<Rightarrow> x | Inl _ \<Rightarrow> []"
  have open': "ne_decrypt N (ae_cipher E salt x k) k = Inr x" for salt x k
    using assms(5) decrypt_opens [of L "fst (rnd salt)" "snd (rnd salt)" x k] unfolding same_setup_def by simp
  then have "?dec (ae_cipher E salt x k) k = x" for salt x k by simp
  from registration_accepted [OF assms(1-4) this assms(7)]
  obtain ev code key user salt x where ev: "as_out s' = as_out s @ [Published ''user.registered'' (user_registered_json ev)]"
      "registered_ok (ae_formats E) ev" "ur_code ev = ae_cipher E salt x key" "ur_email ev = normal_email dto"
      "\<forall>s. getEncryptKey E s = (Inr key, s)"
    and early: "fst (checkActiveEmail (normal_email dto) s') =
        Inl (service_exn AUTH_INVALID_CREDENTIALS 401 ''account_not_verified or not_found.'')"
    and code: "let (res, s'') = auth_verify t' (cd_email dto) (?dec (ur_code ev) key) s'
       in res = Inr True \<and> user \<in> set (db_users (as_db s'')) \<and> u_isActive user \<and> u_email user = normal_email dto
          \<and> fst (local_validate E (Some (cd_email dto)) (Some (cd_password dto)) s'') = Inr user
          \<and> fst (checkActiveEmail (normal_email dto) s'') = Inr user"
    by auto
  have key: "env_encryptKey (ne_encryptKey N) = Inr key"
    using ev(5) assms(5) by (auto simp: same_setup_def getEncryptKey_def)
  have "mail_result N ev = Mailed (normal_email dto) ''Your verification code'' (verify_mail N (normal_email dto) x)"
    by (simp add: mail_result_def key ev(3,4) open' assms(6))
  moreover have "registered_ok (ne_formats N) ev" using ev(2) assms(5) by (simp add: same_setup_def)
  ultimately show ?thesis
    using ev(1) early code handle_registered_run [of N ev]
    by (intro exI [of _ "user_registered_json ev"] exI [of _ x] exI [of _ user]) (auto simp: ev(3) open' Let_def)
qed

section \<open>Witnesses\<close>

definition delivery_auth :: auth_env where
  "delivery_auth = demo_env\<lparr>ae_cipher := (\<lambda>x. encrypt_with plain_cipher (replicate 16 1) (replicate 16 2))\<rparr>"

definition delivery_noti :: noti_env where
  "delivery_noti = sample_env\<lparr>ne_decrypt := decrypt_text plain_cipher, ne_formats := ae_formats demo_env\<rparr>"

lemma delivery_setup: "same_setup delivery_auth delivery_noti plain_cipher (\<lambda>x. (replicate 16 1, replicate 16 2))"
  by (simp add: same_setup_def delivery_auth_def delivery_noti_def sample_env_def demo_env_def)

definition new_account :: create_dto where
  "new_account = \<lparr>cd_email = '' New@B'', cd_password = ''pw'', cd_name = None, cd_phone = None\<rparr>"

theorem registration_mail_witness:
  "\<exists>j code. as_out (snd (auth_register delivery_auth 5 new_account None demo_state)) = [Published ''user.registered'' j]
    \<and> handle_registered delivery_noti (stringify j) sample_notis = (Inr (), sample_notis\<lparr>ns_out :=
        [Mailed ''new@b'' ''Your verification code'' (verify_mail delivery_noti ''new@b'' code)]\<rparr>)"
proof -
  have "fst (auth_register delivery_auth 5 new_account None demo_state) =
      Inr \<lparr>rr_userId = ''r4'', rr_email = ''new@b'', rr_createdAt = 5\<rparr>" (is "_ = Inr ?r") by code_simp
  then have run: "auth_register delivery_auth 5 new_account None demo_state =
      (Inr ?r, snd (auth_register delivery_auth 5 new_account None demo_state))"
    by (simp add: prod_eq_iff)
  have ok: "hash_ok delivery_auth" "ae_natsUp delivery_auth" "normal_email new_account = ''new@b''"
    "ne_mailer delivery_noti ''new@b'' = None" "as_out demo_state = []" "ns_out sample_notis = []"
    by (simp_all add: hash_ok_def delivery_auth_def delivery_noti_def sample_env_def demo_env_def demo_state_def sample_notis_def) code_simp
  show ?thesis
    using registration_mail [OF demo_state_ok(1) ok(1,2) run delivery_setup, of 6] ok by (auto simp: QUARTER_def)
qed

definition lost_event :: user_registered where
  "lost_event = \<lparr>ur_userId = ''u'', ur_email = ''a@b'', ur_code = ''c'', ur_createdAt = ''d'', ur_requestId = None\<rparr>"

theorem lost_mail_witness:
  "consume_loop (handle_registered (sample_env\<lparr>ne_mailer := (\<lambda>d. Some (PlainErr ''refused''))\<rparr>)) None
     [Inr [stringify (user_registered_json lost_event)]] sample_notis =
   ([Done Acked None], sample_notis\<lparr>ns_out := ns_out sample_notis @ [LogError ''Send Email failed'']\<rparr>)"
  by (rule lost_mail [where e = "PlainErr ''refused''"]) (simp_all add: registered_ok_def sample_env_def lost_event_def)

end
