(* ===== verification/MailQueue.thy ===== *)
theory MailQueue
  imports Delivery
begin

text \<open>
  The two ends of the mail queue: how the notification service starts its worker
  (\<open>jobs.service.ts\<close>, \<open>onModuleInit\<close>) and the auth service its queue (\<open>queue.service.ts\<close>), what they do
  with errors of the Redis connection, the options of a job, and the connection both modules ask for.
  An emitter is the list of its listeners; what a listener logs is its value.
\<close>

section \<open>Connections and options\<close>

definition auth_queue_connection :: "string option \<Rightarrow> exn + string" where
  "auth_queue_connection redisUrl = (if \<not> truthy redisUrl
     then Inl (PlainErr ''REDIS_URL is not configured. Please set REDIS_URL in .env file'') else Inr (nullish redisUrl []))"

definition noti_queue_connection :: "string option \<Rightarrow> exn + string" where
  "noti_queue_connection redisUrl = Inr (or_str redisUrl [])"

record job_options =
  jo_attempts :: nat
  jo_backoff :: string
  jo_delay :: int

definition defaultJobOptions :: job_options where
  "defaultJobOptions = \<lparr>jo_attempts = 3, jo_backoff = ''exponential'', jo_delay = 2000\<rparr>"

text \<open>The options a call of \<open>add\<close> gives go before the defaults of the queue.\<close>

definition sendVerifyCode_job :: "user_registered \<Rightarrow> string \<times> json \<times> job_options" where
  "sendVerifyCode_job event = (''send-verify-code'', user_registered_json event, defaultJobOptions)"

definition sendResetPassword_job :: "password_reset_requested \<Rightarrow> string \<times> json \<times> job_options" where
  "sendResetPassword_job event = (PASSWORD_RESET_REQUESTED, reset_event_json event,
     \<lparr>jo_attempts = 3, jo_backoff = ''exponential'', jo_delay = 2000\<rparr>)"

section \<open>Errors of the connection\<close>

record redis_error =
  re_name :: string
  re_code :: "string option"
  re_message :: string
  re_errors :: "string list option"

datatype queue_log = QInfo string | QWarn string | QError string | QFailure string string "string option"
  | QMailFailed string string nat string "string option"

definition connection_refused :: "redis_error \<Rightarrow> bool" where
  "connection_refused err \<longleftrightarrow> re_code err = Some ''ECONNREFUSED''
     \<or> (re_name err = ''AggregateError'' \<and> re_code err = Some ''ECONNREFUSED'')"

definition connection_message :: "redis_error \<Rightarrow> string" where
  "connection_message err = (case re_errors err of
     Some ms \<Rightarrow> if re_name err = ''AggregateError'' then join '', '' ms else re_message err
   | None \<Rightarrow> re_message err)"

definition redis_listener :: "string \<Rightarrow> redis_error \<Rightarrow> queue_log" where
  "redis_listener kind err =
     (if connection_refused err then QWarn (''Redis '' @ kind @ ''connection refused. Retrying...'')
      else QFailure (''Redis '' @ kind @ ''connection error'') (connection_message err) (re_code err))"

type_synonym listeners = "(redis_error \<Rightarrow> queue_log) list"

definition handleRedisError :: "string \<Rightarrow> listeners \<Rightarrow> listeners" where
  "handleRedisError kind ls = (let kept = (if 0 < length ls then [] else ls) in kept @ [redis_listener kind])"

definition emit_error :: "listeners \<Rightarrow> redis_error \<Rightarrow> queue_log list" where
  "emit_error ls err = map (\<lambda>l. l err) ls"

text \<open>Waiting for the connection: \<open>None\<close> when it is ready.\<close>

definition ready_log :: "redis_error option \<Rightarrow> queue_log" where
  "ready_log failure = (case failure of None \<Rightarrow> QInfo ''Redis connection established successfully''
     | Some err \<Rightarrow> if connection_refused err then QError ''Failed to establish initial Redis connection: Connection refused''
         else QFailure ''Redis connection failed'' (connection_message err) (re_code err))"

section \<open>Starting\<close>

record mail_worker =
  mw_worker :: listeners
  mw_queue :: listeners
  mw_failed :: nat
  mw_log :: "queue_log list"

text \<open>\<open>mw_failed\<close> counts the registered listeners of failed jobs, each of which runs \<open>failed_listener\<close>.\<close>

definition jobs_onModuleInit :: "redis_error option \<Rightarrow> mail_worker \<Rightarrow> mail_worker" where
  "jobs_onModuleInit failure s = \<lparr>mw_worker = handleRedisError ''Worker '' (mw_worker s),
     mw_queue = handleRedisError ''Queue '' (mw_queue s), mw_failed = mw_failed s + 1, mw_log = mw_log s @ [ready_log failure]\<rparr>"

definition queue_onModuleInit :: "redis_error option \<Rightarrow> listeners \<times> queue_log list \<Rightarrow> listeners \<times> queue_log list" where
  "queue_onModuleInit failure s = ([redis_listener []], snd s @ [ready_log failure])"

section \<open>A failed job\<close>

text \<open>
  The listener: the audit line, then the dead letter, or a line when the queue of dead letters does not
  take it (\<open>dlq\<close> is the error of \<open>add\<close>).
\<close>

definition mail_failed_log :: "mail_job option \<Rightarrow> exn \<Rightarrow> queue_log" where
  "mail_failed_log job err = QMailFailed (nullish (Option.bind job mj_id) ''unknown'') (nullish (map_option mj_name job) ''unknown'')
     (nullish (map_option mj_attemptsMade job) 0) (nullish (err_message err) ''Unknown error'')
     (Option.bind job (\<lambda>j. if ''email'' \<in> set (mj_dataKeys j) then Some ''[redacted]'' else None))"

definition failed_listener ::
  "(int \<Rightarrow> string) \<Rightarrow> int \<Rightarrow> exn option \<Rightarrow> mail_job option \<Rightarrow> exn \<Rightarrow> dead_letter list \<times> queue_log list" where
  "failed_listener date t dlq job err = (case on_failed date t job err of None \<Rightarrow> ([], [])
     | Some letter \<Rightarrow> (case dlq of
         None \<Rightarrow> ([letter], [mail_failed_log job err])
       | Some _ \<Rightarrow> ([], [mail_failed_log job err, QError ''Failed to add job to DLQ''])))"

section \<open>What starting gives\<close>

text \<open>
  However often a service starts its end, and whatever state Redis is in, there is one listener of
  errors on each emitter: an error is logged once and a refused connection is only a warning.
\<close>

lemma handle_once: "handleRedisError kind ls = [redis_listener kind]"
  by (simp add: handleRedisError_def)

lemma errors_logged_once:
  "emit_error (mw_worker (jobs_onModuleInit failure s)) err = [redis_listener ''Worker '' err]"
  "emit_error (mw_queue (jobs_onModuleInit failure s)) err = [redis_listener ''Queue '' err]"
  "emit_error (fst (queue_onModuleInit failure q)) err = [redis_listener [] err]"
  by (simp_all add: jobs_onModuleInit_def queue_onModuleInit_def handle_once emit_error_def)

lemma refused_only_warns: "re_code err = Some ''ECONNREFUSED'' \<Longrightarrow> \<exists>m. redis_listener kind err = QWarn m"
  by (simp add: redis_listener_def connection_refused_def)

text \<open>The two modules disagree on a missing \<open>REDIS_URL\<close>.\<close>

lemma missing_url: "auth_queue_connection None = Inl (PlainErr ''REDIS_URL is not configured. Please set REDIS_URL in .env file'')"
  "noti_queue_connection None = Inr []"
  by (simp_all add: auth_queue_connection_def noti_queue_connection_def)

section \<open>The life of a job\<close>

text \<open>
  BullMQ, as documented: it runs a job, counts a failed attempt, emits \<open>failed\<close> and runs the job again until its attempts are
  used up. What the mail server and the queue of dead letters answer, and the time, change from attempt to attempt: \<open>N k\<close>, \<open>dlq k\<close> and
  \<open>t k\<close> are for the \<open>k\<close>-th. \<open>n\<close> attempts are left.
\<close>

fun work_job :: "(nat \<Rightarrow> noti_env) \<Rightarrow> (int \<Rightarrow> string) \<Rightarrow> (nat \<Rightarrow> exn option) \<Rightarrow> (nat \<Rightarrow> int) \<Rightarrow> mail_job \<Rightarrow> nat \<Rightarrow> noti_state
    \<Rightarrow> dead_letter list \<times> queue_log list \<times> noti_state" where
  "work_job N date dlq t job 0 s = ([], [], s)"
| "work_job N date dlq t job (Suc n) s =
     (let job' = job\<lparr>mj_attemptsMade := mj_attemptsMade job + 1\<rparr>
      in (case process_job (N (mj_attemptsMade job')) job s of
          (Inr _, s') \<Rightarrow> ([], [], s')
        | (Inl err, s') \<Rightarrow>
            (let (letters, log) = failed_listener date (t (mj_attemptsMade job')) (dlq (mj_attemptsMade job')) (Some job') err;
                 (letters', log', s'') = work_job N date dlq t job' n s'
             in (letters @ letters', log @ log', s''))))"

definition mail_kind :: "mail_job \<Rightarrow> string" where
  "mail_kind job = (if mj_name job = ''send-verify-code'' then ''verify code'' else ''reset password'')"

definition mail_of :: "noti_env \<Rightarrow> mail_job \<Rightarrow> noti_effect" where
  "mail_of N job = (if mj_name job = ''send-verify-code''
     then Mailed (mj_email job) ''Your verification code'' (verify_mail N (mj_email job) (mj_code job))
     else Mailed (mj_email job) ''Reset your password''
       (''Click the link below to reset your password: '' @ base_url N @ ''/auth/reset-password?token='' @ ne_uri N (mj_token job)))"

lemma process_job_run:
  assumes "mj_name job \<in> {''send-verify-code'', PASSWORD_RESET_REQUESTED}"
  shows "process_job N job s = (case ne_mailer N (mj_email job) of
      None \<Rightarrow> (Inr (), s\<lparr>ns_out := ns_out s @ [mail_of N job]\<rparr>)
    | Some e \<Rightarrow> (Inl (failed_text (mail_kind job) e), s\<lparr>ns_out := ns_out s @ [LogError (''Error sending '' @ mail_kind job)]\<rparr>))"
  using assms by (auto simp: process_job_def mail_kind_def mail_of_def PASSWORD_RESET_REQUESTED_def sendVerifyCode_def
      sendResetPassword_mail_def sendMail_def catchp_run bind_run andthen_run split: option.split)

lemma listener_silent:
  "mj_attempts job = Some m \<Longrightarrow> mj_attemptsMade job < m \<Longrightarrow> failed_listener date t d (Some job) err = ([], [])"
  by (simp add: failed_listener_def on_failed_def)

abbreviation error_lines :: "nat \<Rightarrow> mail_job \<Rightarrow> noti_effect list" where
  "error_lines k job \<equiv> replicate k (LogError (''Error sending '' @ mail_kind job))"

text \<open>The letter, and the lines of the listener, after the last attempt.\<close>

definition last_letter :: "(int \<Rightarrow> string) \<Rightarrow> int \<Rightarrow> mail_job \<Rightarrow> exn \<Rightarrow> dead_letter" where
  "last_letter date t job e = \<lparr>dl_originalJobId = nullish (mj_id job) ''unknown'', dl_jobName = mj_name job,
     dl_failedReason = ''Error sending '' @ mail_kind job @ '': '' @ nullish (err_message e) ''undefined'', dl_attemptedAt = date t,
     dl_dataKeys = mj_dataKeys job\<rparr>"

lemma counted_job [simp]: "mail_kind (job\<lparr>mj_attemptsMade := v\<rparr>) = mail_kind job" "mail_of M (job\<lparr>mj_attemptsMade := v\<rparr>) = mail_of M job"
    "last_letter date x (job\<lparr>mj_attemptsMade := v\<rparr>) y = last_letter date x job y"
  by (simp_all add: mail_kind_def mail_of_def last_letter_def)

lemma work_job_accepted:
  assumes "mj_name job \<in> {''send-verify-code'', PASSWORD_RESET_REQUESTED}" and "mj_attempts job = Some m" and "mj_attemptsMade job + n = m"
    and "k < n" and "\<forall>i<k. ne_mailer (N (mj_attemptsMade job + 1 + i)) (mj_email job) \<noteq> None"
    and "ne_mailer (N (mj_attemptsMade job + 1 + k)) (mj_email job) = None"
  shows "work_job N date dlq t job n s = ([], [], s\<lparr>ns_out := ns_out s @ error_lines k job @ [mail_of (N (mj_attemptsMade job + 1 + k)) job]\<rparr>)"
  using assms
proof (induction n arbitrary: job k s)
  case (Suc n)
  show ?case
  proof (cases k)
    case 0
    then show ?thesis using Suc.prems(1,6) by (simp add: process_job_run Let_def)
  next
    case (Suc j)
    let ?job = "job\<lparr>mj_attemptsMade := mj_attemptsMade job + 1\<rparr>"
    obtain e where e: "ne_mailer (N (mj_attemptsMade job + 1)) (mj_email job) = Some e"
      using Suc.prems(5) \<open>k = Suc j\<close> by fastforce
    have "\<forall>i<j. ne_mailer (N (mj_attemptsMade ?job + 1 + i)) (mj_email ?job) \<noteq> None"
    proof (intro allI impI)
      fix i assume "i < j"
      then show "ne_mailer (N (mj_attemptsMade ?job + 1 + i)) (mj_email ?job) \<noteq> None"
        using Suc.prems(5) [rule_format, of "Suc i"] \<open>k = Suc j\<close> by simp
    qed
    then have "work_job N date dlq t ?job n (s\<lparr>ns_out := ns_out s @ [LogError (''Error sending '' @ mail_kind job)]\<rparr>) =
        ([], [], s\<lparr>ns_out := ns_out s @ error_lines k job @ [mail_of (N (mj_attemptsMade job + 1 + k)) job]\<rparr>)"
      using Suc.IH [of ?job j "s\<lparr>ns_out := ns_out s @ [LogError (''Error sending '' @ mail_kind job)]\<rparr>"] Suc.prems \<open>k = Suc j\<close>
      by simp
    moreover have "failed_listener date x d (Some ?job) err = ([], [])" for x d err
      using Suc.prems(2-4) \<open>k = Suc j\<close> by (intro listener_silent [of _ m]) simp_all
    ultimately show ?thesis using Suc.prems(1) e by (simp add: process_job_run Let_def)
  qed
qed simp

lemma work_job_refused:
  assumes "mj_name job \<in> {''send-verify-code'', PASSWORD_RESET_REQUESTED}" and "mj_attempts job = Some m" and "mj_attemptsMade job + n = m"
    and "0 < n" and "\<forall>k. mj_attemptsMade job < k \<and> k \<le> m \<longrightarrow> ne_mailer (N k) (mj_email job) = Some (err k)"
  shows "work_job N date dlq t job n s =
    (if dlq m = None then [last_letter date (t m) job (err m)] else [],
     mail_failed_log (Some (job\<lparr>mj_attemptsMade := m\<rparr>)) (failed_text (mail_kind job) (err m)) #
       (if dlq m = None then [] else [QError ''Failed to add job to DLQ'']),
     s\<lparr>ns_out := ns_out s @ error_lines n job\<rparr>)"
  using assms
proof (induction n arbitrary: job s)
  case (Suc n)
  let ?job = "job\<lparr>mj_attemptsMade := mj_attemptsMade job + 1\<rparr>" and ?s = "s\<lparr>ns_out := ns_out s @ [LogError (''Error sending '' @ mail_kind job)]\<rparr>"
  have e: "ne_mailer (N (mj_attemptsMade job + 1)) (mj_email job) = Some (err (mj_attemptsMade job + 1))"
    using Suc.prems(3,5) by simp
  show ?case
  proof (cases n)
    case 0
    then have m: "m = Suc (mj_attemptsMade job)" using Suc.prems(3) by simp
    have "on_failed date (t m) (Some ?job) (failed_text (mail_kind job) (err m)) = Some (last_letter date (t m) job (err m))"
      using Suc.prems(2) by (simp add: on_failed_def m last_letter_def failed_text_def service_exn_def err_message_def service_error_new_def)
    then show ?thesis
      using Suc.prems(1) e by (simp add: process_job_run Let_def 0 m failed_listener_def split: option.split)
  next
    case (Suc k)
    have "failed_listener date x d (Some ?job) y = ([], [])" for x d y
      using Suc.prems(2,3) \<open>n = Suc k\<close> by (intro listener_silent [of _ m]) simp_all
    moreover have "work_job N date dlq t ?job n ?s =
      (if dlq m = None then [last_letter date (t m) job (err m)] else [],
       mail_failed_log (Some (job\<lparr>mj_attemptsMade := m\<rparr>)) (failed_text (mail_kind job) (err m)) #
         (if dlq m = None then [] else [QError ''Failed to add job to DLQ'']),
       ?s\<lparr>ns_out := ns_out ?s @ error_lines n job\<rparr>)"
      using Suc.IH [of ?job ?s] Suc.prems \<open>n = Suc k\<close> by simp
    ultimately show ?thesis using Suc.prems(1) e by (simp add: process_job_run Let_def)
  qed
qed simp

text \<open>
  C34. A mail is sent once or leaves its trace once. Over the attempts of a job, whatever the mail server answers to each: if it
  accepts one, the mail is sent by the first that it accepts and by no other, and there is no dead letter; if it refuses all, no mail is sent
  and the last attempt, and no earlier, writes one audit line and one dead letter, unless the queue of dead letters
  refuses it, which is logged and leaves nothing. Of the job the letter has the id, the name and the names of
  its data; its reason is the mail server's last message, which may quote what it refused.
\<close>
theorem mailed_or_dead_letter:
  assumes "mj_name job \<in> {''send-verify-code'', PASSWORD_RESET_REQUESTED}" and "mj_attempts job = Some n" and "0 < n"
    and "mj_attemptsMade job = 0" and "\<And>k. answer k = ne_mailer (N k) (mj_email job)"
  shows "(\<forall>k. 1 \<le> k \<and> k \<le> n \<and> answer k = None \<and> (\<forall>i. 1 \<le> i \<and> i < k \<longrightarrow> answer i \<noteq> None) \<longrightarrow>
      work_job N date dlq t job n s = ([], [], s\<lparr>ns_out := ns_out s @ error_lines (k - 1) job @ [mail_of (N k) job]\<rparr>))
    \<and> (\<forall>e. answer n = Some e \<and> (\<forall>i. 1 \<le> i \<and> i < n \<longrightarrow> answer i \<noteq> None) \<longrightarrow>
      work_job N date dlq t job n s =
        (if dlq n = None then [last_letter date (t n) job e] else [],
         mail_failed_log (Some (job\<lparr>mj_attemptsMade := n\<rparr>)) (failed_text (mail_kind job) e) #
           (if dlq n = None then [] else [QError ''Failed to add job to DLQ'']),
         s\<lparr>ns_out := ns_out s @ error_lines n job\<rparr>))"
proof (intro conjI allI impI; elim conjE)
  fix k assume k: "1 \<le> k" "k \<le> n" "answer k = None" and before: "\<forall>i. 1 \<le> i \<and> i < k \<longrightarrow> answer i \<noteq> None"
  have "\<forall>i<k - 1. ne_mailer (N (mj_attemptsMade job + 1 + i)) (mj_email job) \<noteq> None"
    using before [rule_format, of "Suc i" for i] assms(4,5) by auto
  from work_job_accepted [OF assms(1,2) _ _ this, of n] show
    "work_job N date dlq t job n s = ([], [], s\<lparr>ns_out := ns_out s @ error_lines (k - 1) job @ [mail_of (N k) job]\<rparr>)"
    using k assms(4,5) by simp
next
  fix e assume e: "answer n = Some e" and before: "\<forall>i. 1 \<le> i \<and> i < n \<longrightarrow> answer i \<noteq> None"
  have "ne_mailer (N k) (mj_email job) = Some (the (answer k))" if "mj_attemptsMade job < k \<and> k \<le> n" for k
    using that before e assms(4,5) by (cases "k = n") auto
  from work_job_refused [OF assms(1,2) _ assms(3), of N "\<lambda>k. the (answer k)", rule_format, OF _ this] e assms(4)
  show "work_job N date dlq t job n s =
        (if dlq n = None then [last_letter date (t n) job e] else [],
         mail_failed_log (Some (job\<lparr>mj_attemptsMade := n\<rparr>)) (failed_text (mail_kind job) e) #
           (if dlq n = None then [] else [QError ''Failed to add job to DLQ'']),
         s\<lparr>ns_out := ns_out s @ error_lines n job\<rparr>)"
    by simp
qed

definition reset_job :: mail_job where
  "reset_job = \<lparr>mj_id = Some ''7'', mj_name = ''passwordReset.requested'', mj_email = ''a@b'', mj_code = [], mj_token = ''secret'',
     mj_dataKeys = [''userId'', ''email'', ''token'', ''expiresAt''], mj_attempts = Some 3, mj_attemptsMade = 0\<rparr>"

text \<open>Refused three times; refused once and then accepted.\<close>

theorem mailed_or_dead_letter_witness:
  "fst (work_job (\<lambda>k. sample_env\<lparr>ne_mailer := (\<lambda>d. Some (PlainErr ''refused''))\<rparr>) (\<lambda>t. ''d'') (\<lambda>k. None) int reset_job 3 sample_notis) =
     [\<lparr>dl_originalJobId = ''7'', dl_jobName = ''passwordReset.requested'', dl_failedReason = ''Error sending reset password: refused'',
       dl_attemptedAt = ''d'', dl_dataKeys = [''userId'', ''email'', ''token'', ''expiresAt'']\<rparr>]
   \<and> fst (work_job (\<lambda>k. sample_env\<lparr>ne_mailer := (\<lambda>d. if k = 1 then Some (PlainErr ''refused'') else None)\<rparr>) (\<lambda>t. ''d'') (\<lambda>k. None) int
      reset_job 3 sample_notis) = []"
proof -
  have job: "mj_name reset_job \<in> {''send-verify-code'', PASSWORD_RESET_REQUESTED}" "mj_attempts reset_job = Some 3" "0 < (3::nat)"
      "mj_attemptsMade reset_job = 0"
    by (simp_all add: reset_job_def PASSWORD_RESET_REQUESTED_def)
  show ?thesis
    using mailed_or_dead_letter [OF job, of "\<lambda>k. Some (PlainErr ''refused'')" "\<lambda>k. sample_env\<lparr>ne_mailer := (\<lambda>d. Some (PlainErr ''refused''))\<rparr>"
        "\<lambda>t. ''d''" "\<lambda>k. None" int sample_notis]
      conjunct1 [OF mailed_or_dead_letter [OF job, of "\<lambda>k. if k = 1 then Some (PlainErr ''refused'') else None"
        "\<lambda>k. sample_env\<lparr>ne_mailer := (\<lambda>d. if k = 1 then Some (PlainErr ''refused'') else None)\<rparr>" "\<lambda>t. ''d''" "\<lambda>k. None" int sample_notis],
        rule_format, of 2]
    by (auto simp: last_letter_def mail_kind_def reset_job_def err_message_def)
qed

end
