(* ===== verification/Nats.thy ===== *)
theory Nats
  imports Json Errors
begin

text \<open>
  The connection of a service to NATS (\<open>packages/common/src/nats/nats.service.ts\<close>): connecting and
  creating the streams when the service starts, publishing to JetStream and to plain NATS, and the loop
  of a plain subscription. The server is a parameter: what connecting, the stream manager, a
  publication answer. Its streams are part of the state, as the service changes them. Log
  lines are kept by their message.
\<close>

section \<open>State\<close>

record stream_config =
  st_name :: string
  st_subjects :: "string list"

datatype nats_sent = ToStream string string | ToPlain string string

record nats =
  na_nc :: bool
  na_closed :: bool
  na_js :: bool
  na_jsm :: bool
  na_subs :: "string list"
  na_streams :: "stream_config list"
  na_sent :: "nats_sent list"
  na_log :: "string list"

record nats_env =
  nv_url :: "string option"
  nv_envUrl :: "string option"
  nv_serviceName :: string
  nv_configs :: "stream_config list option"
  nv_connect :: "string \<Rightarrow> exn option"
  nv_manager :: "exn option"
  nv_info :: "string \<Rightarrow> stream_config list \<Rightarrow> exn option"
  nv_add :: "stream_config \<Rightarrow> stream_config list \<Rightarrow> exn option"
  nv_accepts :: "string \<Rightarrow> exn option"

type_synonym 'a natsp = "(nats, exn, 'a) prog"

definition natsLog :: "string \<Rightarrow> unit natsp" where
  "natsLog m = modify (\<lambda>s. s\<lparr>na_log := na_log s @ [m]\<rparr>)"

definition try_call :: "exn option \<Rightarrow> unit natsp" where
  "try_call e = (case e of None \<Rightarrow> ret () | Some x \<Rightarrow> throw x)"

section \<open>Starting\<close>

text \<open>Any failure of \<open>info\<close> is taken for an absent stream.\<close>

definition ensureStream :: "nats_env \<Rightarrow> stream_config \<Rightarrow> unit natsp" where
  "ensureStream E c = bind (gets na_jsm) (\<lambda>jsm.
     if \<not> jsm then ret ()
     else catchp (bind (gets na_streams) (\<lambda>ss. andthen (try_call (nv_info E (st_name c) ss)) (natsLog ''JetStream stream exists'')))
       (\<lambda>_. bind (gets na_streams) (\<lambda>ss. andthen (try_call (nv_add E c ss))
          (andthen (modify (\<lambda>s. s\<lparr>na_streams := na_streams s @ [c]\<rparr>)) (natsLog ''JetStream stream created'')))))"

definition natsUrl :: "nats_env \<Rightarrow> string" where
  "natsUrl E = or_str (nv_url E) (or_str (nv_envUrl E) ''nats://localhost:4222'')"

definition nats_onModuleInit :: "nats_env \<Rightarrow> unit natsp" where
  "nats_onModuleInit E = catchp
     (andthen (try_call (nv_connect E (natsUrl E)))
     (andthen (modify (\<lambda>s. s\<lparr>na_nc := True, na_closed := False, na_js := True\<rparr>))
     (andthen (try_call (nv_manager E))
     (andthen (modify (\<lambda>s. s\<lparr>na_jsm := True\<rparr>))
     (andthen (for_each (nullish (nv_configs E) []) (ensureStream E))
       (natsLog (nv_serviceName E @ '' connected to NATS JetStream'')))))))
     (\<lambda>_. natsLog ''Failed to connect to NATS - events will not be published/consumed'')"

definition nats_onModuleDestroy :: "unit natsp" where
  "nats_onModuleDestroy = andthen (modify (\<lambda>s. s\<lparr>na_subs := []\<rparr>))
     (bind (gets na_nc) (\<lambda>nc. whenp nc (andthen (modify (\<lambda>s. s\<lparr>na_closed := True\<rparr>)) (natsLog ''Disconnected from NATS''))))"

definition isConnected :: "nats \<Rightarrow> bool" where
  "isConnected s \<longleftrightarrow> na_nc s \<and> \<not> na_closed s"

definition getStreamConfig :: "nats_env \<Rightarrow> string \<Rightarrow> stream_config option" where
  "getStreamConfig E name = List.find (\<lambda>c. st_name c = name) (nullish (nv_configs E) [])"

section \<open>Publishing and subscribing\<close>

definition send :: "nats_env \<Rightarrow> string \<Rightarrow> nats_sent \<Rightarrow> unit natsp" where
  "send E subject m = andthen (try_call (nv_accepts E subject)) (modify (\<lambda>s. s\<lparr>na_sent := na_sent s @ [m]\<rparr>))"

definition nats_publish :: "nats_env \<Rightarrow> string \<Rightarrow> json \<Rightarrow> unit natsp" where
  "nats_publish E subject data = bind (gets na_js) (\<lambda>js.
     if \<not> js then natsLog ''NATS not connected - skipping event publish''
     else catchp (andthen (send E subject (ToStream subject (stringify data))) (natsLog ''Event published to NATS JetStream''))
       (\<lambda>_. natsLog ''Failed to publish event to NATS''))"

definition publishPlain :: "nats_env \<Rightarrow> string \<Rightarrow> json \<Rightarrow> unit natsp" where
  "publishPlain E subject data = bind (gets na_nc) (\<lambda>nc.
     if \<not> nc then natsLog ''NATS not connected - skipping plain publish''
     else catchp (andthen (send E subject (ToPlain subject (stringify data))) (natsLog ''Plain NATS message published''))
       (\<lambda>_. natsLog ''Failed to publish plain NATS message''))"

definition subscribePlain :: "string \<Rightarrow> bool natsp" where
  "subscribePlain subject = bind (gets na_nc) (\<lambda>nc.
     if \<not> nc then andthen (natsLog ''NATS not connected - skipping plain subscribe'') (ret False)
     else andthen (modify (\<lambda>s. s\<lparr>na_subs := na_subs s @ [subject]\<rparr>))
       (andthen (natsLog ''Plain NATS subscription created'') (ret True)))"

text \<open>The loop over the messages of a subscription: \<open>True\<close> for a message whose error was logged.\<close>

fun plain_loop :: "(json \<Rightarrow> ('s, exn, unit) prog) \<Rightarrow> string list \<Rightarrow> 's \<Rightarrow> bool list \<times> 's" where
  "plain_loop handler [] s = ([], s)"
| "plain_loop handler (raw # ms) s =
     (let (failed, s') = (case json_parse raw of None \<Rightarrow> (True, s)
            | Some data \<Rightarrow> (case handler data s of (r, z) \<Rightarrow> (case r of Inl _ \<Rightarrow> True | Inr _ \<Rightarrow> False, z)));
          (fs, s'') = plain_loop handler ms s'
      in (failed # fs, s''))"

section \<open>Streams\<close>

lemma try_call_run: "try_call e s = (case e of None \<Rightarrow> (Inr (), s) | Some x \<Rightarrow> (Inl x, s))"
  by (simp add: try_call_def split: option.split)

lemma natsLog_run [simp]: "natsLog m s = (Inr (), s\<lparr>na_log := na_log s @ [m]\<rparr>)"
  by (simp add: natsLog_def)

text \<open>Documented of the stream manager: \<open>info\<close> succeeds exactly on the streams that exist.\<close>

definition info_ok :: "nats_env \<Rightarrow> bool" where
  "info_ok E \<longleftrightarrow> (\<forall>n ss. nv_info E n ss = None \<longleftrightarrow> n \<in> st_name ` set ss)"

definition add_new :: "stream_config \<Rightarrow> stream_config list \<Rightarrow> stream_config list" where
  "add_new c ss = (if st_name c \<in> st_name ` set ss then ss else ss @ [c])"

lemma add_new_names: "st_name ` set (fold add_new cs ss) = st_name ` (set ss \<union> set cs)"
  by (induction cs arbitrary: ss) (auto simp: add_new_def)

lemma add_new_prefix: "\<exists>new. fold add_new cs ss = ss @ new"
proof (induction cs arbitrary: ss)
  case (Cons c cs)
  from Cons.IH [of "add_new c ss"] show ?case by (auto simp: add_new_def)
qed simp

lemma add_new_id: "st_name ` set cs \<subseteq> st_name ` set ss \<Longrightarrow> fold add_new cs ss = ss"
  by (induction cs) (auto simp: add_new_def)

lemma ensureStream_run:
  assumes "info_ok E" and "nv_add E c (na_streams s) = None" and "na_jsm s"
  shows "\<exists>l. ensureStream E c s = (Inr (), s\<lparr>na_streams := add_new c (na_streams s), na_log := l\<rparr>)"
proof (cases "st_name c \<in> st_name ` set (na_streams s)")
  case True
  then have "nv_info E (st_name c) (na_streams s) = None" using assms(1) by (simp add: info_ok_def)
  then show ?thesis using True assms(3)
    by (intro exI [of _ "na_log s @ [''JetStream stream exists'']"]) (simp add: ensureStream_def bind_run andthen_run catchp_run try_call_run add_new_def)
next
  case False
  then obtain e where "nv_info E (st_name c) (na_streams s) = Some e"
    using assms(1) unfolding info_ok_def by (metis option.exhaust)
  then show ?thesis using False assms(2,3)
    by (intro exI [of _ "na_log s @ [''JetStream stream created'']"]) (simp add: ensureStream_def bind_run andthen_run catchp_run try_call_run add_new_def)
qed

lemma ensure_all:
  assumes "info_ok E" and "\<And>c ss. nv_add E c ss = None" and "na_jsm s"
  shows "\<exists>l. for_each cs (ensureStream E) s = (Inr (), s\<lparr>na_streams := fold add_new cs (na_streams s), na_log := l\<rparr>)"
  using assms(3)
proof (induction cs arbitrary: s)
  case Nil
  show ?case by (intro exI [of _ "na_log s"]) simp
next
  case (Cons c cs)
  obtain l where "ensureStream E c s = (Inr (), s\<lparr>na_streams := add_new c (na_streams s), na_log := l\<rparr>)"
    using ensureStream_run [OF assms(1,2) Cons.prems] by blast
  then show ?case
    using Cons.IH [of "s\<lparr>na_streams := add_new c (na_streams s), na_log := l\<rparr>"] Cons.prems by (simp add: andthen_run)
qed

text \<open>
  Starting creates exactly the streams that are missing: when the server can be reached and
  accepts new streams, every configured stream exists afterwards, the streams there before are kept as
  they are, subjects included, and starting again changes nothing on the server.
\<close>
theorem nats_start:
  assumes "info_ok E" and "\<And>c ss. nv_add E c ss = None" and "nv_connect E (natsUrl E) = None" and "nv_manager E = None"
    and "nats_onModuleInit E s = (r, s')"
  shows "r = Inr () \<and> isConnected s' \<and> (\<forall>c\<in>set (nullish (nv_configs E) []). st_name c \<in> st_name ` set (na_streams s'))
    \<and> (\<exists>new. na_streams s' = na_streams s @ new)
    \<and> (\<exists>l. nats_onModuleInit E s' = (Inr (), s'\<lparr>na_log := l\<rparr>))"
proof -
  let ?cs = "nullish (nv_configs E) []"
  have run: "\<exists>l. nats_onModuleInit E z = (Inr (), z\<lparr>na_nc := True, na_closed := False, na_js := True, na_jsm := True,
      na_streams := fold add_new ?cs (na_streams z), na_log := l\<rparr>)" for z
  proof -
    let ?z = "z\<lparr>na_nc := True, na_closed := False, na_js := True, na_jsm := True\<rparr>"
    obtain l where "for_each ?cs (ensureStream E) ?z =
        (Inr (), ?z\<lparr>na_streams := fold add_new ?cs (na_streams z), na_log := l\<rparr>)"
      using ensure_all [OF assms(1,2), of ?z ?cs] by auto
    then show ?thesis using assms(3,4)
      by (intro exI [of _ "l @ [nv_serviceName E @ '' connected to NATS JetStream'']"]) (simp add: nats_onModuleInit_def catchp_run andthen_run try_call_run)
  qed
  from run [of s] assms(5) obtain l where r: "r = Inr ()" and s': "s' = s\<lparr>na_nc := True, na_closed := False, na_js := True,
      na_jsm := True, na_streams := fold add_new ?cs (na_streams s), na_log := l\<rparr>" by auto
  have names: "st_name ` set ?cs \<subseteq> st_name ` set (na_streams s')"
    by (simp add: s' add_new_names image_Un)
  from run [of s'] obtain l' where "nats_onModuleInit E s' = (Inr (), s'\<lparr>na_nc := True, na_closed := False, na_js := True,
      na_jsm := True, na_streams := fold add_new ?cs (na_streams s'), na_log := l'\<rparr>)" by blast
  then have "nats_onModuleInit E s' = (Inr (), s'\<lparr>na_log := l'\<rparr>)"
    unfolding add_new_id [OF names] by (simp add: s')
  then show ?thesis
    using r names add_new_prefix [of ?cs "na_streams s"] by (auto simp: s' isConnected_def)
qed

section \<open>Without a server\<close>

text \<open>
  A start that could not connect is final and silent: it returns normally, and every later
  publication returns normally too and sends nothing, whether or not the server is back.
\<close>

lemma nats_publish_total: "\<exists>s'. nats_publish E subject d s = (Inr (), s')"
  by (simp add: nats_publish_def bind_run andthen_run catchp_run split: prod.split sum.split)

lemma nats_down:
  assumes "nv_connect E (natsUrl E) = Some e" and "\<not> na_nc s" and "\<not> na_js s" and "nats_onModuleInit E s = (r, s')"
  shows "r = Inr () \<and> nats_publish E' subject d s' = (Inr (), s'\<lparr>na_log := na_log s' @ [''NATS not connected - skipping event publish'']\<rparr>)"
  using assms by (auto simp: nats_onModuleInit_def nats_publish_def catchp_run andthen_run bind_run try_call_run)

text \<open>
  One bad message does not stop a subscription: every message is taken, in order, and the ones that
  do not parse leave the state of the handler as it was.
\<close>

lemma plain_loop_all: "length (fst (plain_loop handler ms s)) = length ms"
proof (induction ms arbitrary: s)
  case (Cons raw ms)
  show ?case by (simp add: Let_def case_prod_unfold Cons.IH)
qed simp

lemma plain_loop_bad: "json_parse raw = None \<Longrightarrow> plain_loop handler (raw # ms) s =
    (True # fst (plain_loop handler ms s), snd (plain_loop handler ms s))"
  by (simp split: prod.split)

section \<open>Witness\<close>

definition nats_env0 :: nats_env where
  "nats_env0 = \<lparr>nv_url = None, nv_envUrl = None, nv_serviceName = ''gateway-service'',
     nv_configs = Some [\<lparr>st_name = ''NOTIFICATION_EVENT'', st_subjects = [''notification.*'']\<rparr>],
     nv_connect = (\<lambda>_. None), nv_manager = None,
     nv_info = (\<lambda>n ss. if n \<in> st_name ` set ss then None else Some (PlainErr ''stream not found'')),
     nv_add = (\<lambda>_ _. None), nv_accepts = (\<lambda>_. None)\<rparr>"

definition nats0 :: nats where
  "nats0 = \<lparr>na_nc = False, na_closed = False, na_js = False, na_jsm = False, na_subs = [], na_streams = [], na_sent = [], na_log = []\<rparr>"

theorem nats_start_witness:
  "\<exists>s'. nats_onModuleInit nats_env0 nats0 = (Inr (), s') \<and> isConnected s' \<and> ''NOTIFICATION_EVENT'' \<in> st_name ` set (na_streams s')"
proof -
  have ok: "info_ok nats_env0" "nv_add nats_env0 c ss = None" "nv_connect nats_env0 (natsUrl nats_env0) = None"
      "nv_manager nats_env0 = None" for c ss
    by (simp_all add: info_ok_def nats_env0_def)
  obtain r s' where run: "nats_onModuleInit nats_env0 nats0 = (r, s')" by fastforce
  have "\<lparr>st_name = ''NOTIFICATION_EVENT'', st_subjects = [''notification.*'']\<rparr> \<in> set (nullish (nv_configs nats_env0) [])"
    by (simp add: nats_env0_def)
  with nats_start [OF ok run] run show ?thesis by fastforce
qed

end
