(* ===== verification/Consumers.thy ===== *)
theory Consumers
  imports Nats Delivery
begin

text \<open>
  How a consumer of JetStream starts (\<open>base-jetstream-consumer.ts\<close>, \<open>onModuleInit\<close>): nothing without a
  connection; otherwise each consumer is looked up, created when the lookup fails, and its loop started,
  one after the other. What the server answers to a lookup and a creation is a parameter; the loop
  itself is \<open>consume_loop\<close>.
\<close>

record consumer_config =
  cg_stream :: string
  cg_durable :: string
  cg_filter :: string

record consumer_site =
  co_known :: "(string \<times> consumer_settings) list"
  co_loops :: "consumer_config list"
  co_log :: "string list"

record consumer_env =
  cv_info :: "string \<Rightarrow> string \<Rightarrow> (string \<times> consumer_settings) list \<Rightarrow> exn option"
  cv_add :: "string \<Rightarrow> consumer_settings \<Rightarrow> exn option"

type_synonym 'a consumerp = "(consumer_site, exn, 'a) prog"

definition consumerLog :: "string \<Rightarrow> unit consumerp" where
  "consumerLog m = modify (\<lambda>s. s\<lparr>co_log := co_log s @ [m]\<rparr>)"

text \<open>\<open>ensureConsumer\<close> with the calls it makes; an error of the creation is not caught.\<close>

definition ensureConsumer_run :: "consumer_env \<Rightarrow> consumer_config \<Rightarrow> unit consumerp" where
  "ensureConsumer_run V c = bind (gets co_known) (\<lambda>known.
     (case ensureConsumer (cv_info V (cg_stream c) (cg_durable c) known = None) (cg_durable c) (cg_filter c) of
        None \<Rightarrow> consumerLog ''Consumer exists''
      | Some config \<Rightarrow>
          (case cv_add V (cg_stream c) config of Some e \<Rightarrow> throw e
           | None \<Rightarrow> andthen (modify (\<lambda>s. s\<lparr>co_known := co_known s @ [(cg_stream c, config)]\<rparr>)) (consumerLog ''Consumer created''))))"

definition startConsumeLoop :: "consumer_config \<Rightarrow> unit consumerp" where
  "startConsumeLoop c = modify (\<lambda>s. s\<lparr>co_loops := co_loops s @ [c]\<rparr>)"

definition start_consumer :: "consumer_env \<Rightarrow> consumer_config \<Rightarrow> unit consumerp" where
  "start_consumer V c = andthen (ensureConsumer_run V c) (startConsumeLoop c)"

definition consumers_onModuleInit :: "consumer_env \<Rightarrow> nats \<Rightarrow> consumer_config list \<Rightarrow> unit consumerp" where
  "consumers_onModuleInit V nats cfgs =
     (if \<not> na_js nats \<or> \<not> na_jsm nats then consumerLog ''NATS not connected - JetStream consumer will not start''
      else for_each cfgs (start_consumer V))"

text \<open>The consumers of the two services.\<close>

definition notification_consumers :: "consumer_config list" where
  "notification_consumers = [\<lparr>cg_stream = ''AUTH_EVENT'', cg_durable = ''notification-user-registered'', cg_filter = ''user.registered''\<rparr>]"

definition gateway_consumers :: "consumer_config list" where
  "gateway_consumers =
     [\<lparr>cg_stream = ''NOTIFICATION_EVENT'', cg_durable = ''gateway-notification-created'', cg_filter = ''notification.created''\<rparr>]"

section \<open>What starting gives\<close>

lemma start_consumer_cases:
  obtains (started) s' where "start_consumer V c s = (Inr (), s')" "co_loops s' = co_loops s @ [c]"
  | (failed) e where "start_consumer V c s = (Inl e, s)"
proof (cases "cv_info V (cg_stream c) (cg_durable c) (co_known s)")
  case None
  then show thesis
    by (intro started [of "s\<lparr>co_log := co_log s @ [''Consumer exists''], co_loops := co_loops s @ [c]\<rparr>"])
      (simp_all add: start_consumer_def ensureConsumer_run_def ensureConsumer_def startConsumeLoop_def consumerLog_def bind_run andthen_run)
next
  case (Some e)
  let ?config = "the (ensureConsumer False (cg_durable c) (cg_filter c))"
  show thesis
  proof (cases "cv_add V (cg_stream c) ?config")
    case None
    with Some show thesis
      by (intro started [of "s\<lparr>co_known := co_known s @ [(cg_stream c, ?config)], co_log := co_log s @ [''Consumer created''],
          co_loops := co_loops s @ [c]\<rparr>"])
        (simp_all add: start_consumer_def ensureConsumer_run_def ensureConsumer_def startConsumeLoop_def consumerLog_def bind_run
          andthen_run)
  next
    case (Some x)
    with \<open>cv_info V _ _ _ = Some e\<close> show thesis
      by (intro failed [of x]) (simp add: start_consumer_def ensureConsumer_run_def ensureConsumer_def bind_run andthen_run)
  qed
qed

text \<open>Either every loop runs, or the start throws and the loops before the one that failed keep running.\<close>

lemma loops_started:
  assumes "na_js nats" and "na_jsm nats"
  obtains n r s' where "consumers_onModuleInit V nats cfgs s = (r, s')" "co_loops s' = co_loops s @ take n cfgs"
    "r = Inr () \<Longrightarrow> take n cfgs = cfgs"
proof -
  note result = that
  have "\<exists>n r s'. for_each cfgs (start_consumer V) s = (r, s') \<and> co_loops s' = co_loops s @ take n cfgs
      \<and> (r = Inr () \<longrightarrow> take n cfgs = cfgs)"
  proof (induction cfgs arbitrary: s)
    case (Cons c cs)
    show ?case
    proof (cases rule: start_consumer_cases [of V c s])
      case (started u)
      from Cons.IH [of u] obtain n r s' where "for_each cs (start_consumer V) u = (r, s')"
        "co_loops s' = co_loops u @ take n cs" "r = Inr () \<longrightarrow> take n cs = cs" by blast
      with started show ?thesis by (intro exI [of _ "Suc n"] exI [of _ r] exI [of _ s']) (simp add: andthen_run)
    next
      case (failed e)
      then show ?thesis by (intro exI [of _ 0] exI [of _ "Inl e"] exI [of _ s]) (simp add: andthen_run)
    qed
  qed simp
  with assms show thesis by (auto simp: consumers_onModuleInit_def intro: result)
qed

text \<open>
  A service that starts while NATS is down never consumes: the failed connection is swallowed, the
  start of its consumers then does nothing, and nothing starts their loops later.
\<close>

lemma no_nats_no_loops:
  assumes "nv_connect E (natsUrl E) = Some e" and "\<not> na_js s" and "nats_onModuleInit E s = (r, s')"
  shows "\<exists>k. consumers_onModuleInit V s' cfgs k0 = (Inr (), k) \<and> co_loops k = co_loops k0 \<and> co_known k = co_known k0"
proof -
  have "\<not> na_js s'" using assms by (auto simp: nats_onModuleInit_def catchp_run andthen_run try_call_run natsLog_def)
  then show ?thesis by (simp add: consumers_onModuleInit_def consumerLog_def)
qed

end
