(* ===== verification/Roles.thy ===== *)
theory Roles
  imports AuthDb Permission
begin

text \<open>
  \<open>apps/auth-service/src/modules/roles/roles.service.ts\<close>: roles, their permissions, and their
  assignment to users, with the bump of \<open>permVersion\<close> and of the permission cache that makes a
  change visible to the guards. \<open>up\<close> says whether the Redis of the cache answers.
\<close>

section \<open>Tables of roles\<close>

record role_view =
  rv_role :: role_row
  rv_permissions :: "permission_row list"

definition permissions_of :: "auth_db \<Rightarrow> string \<Rightarrow> permission_row list" where
  "permissions_of db roleId = concat (map (\<lambda>rp. filter (\<lambda>p. pe_id p = rp_permissionId rp) (db_permissions db))
     (filter (\<lambda>rp. rp_roleId rp = roleId) (db_rolePermissions db)))"

definition find_role :: "string \<Rightarrow> role_row option auth" where
  "find_role i = read_db (\<lambda>db. find_first (\<lambda>r. ro_id r = i) (db_roles db))"

definition find_role_name :: "string \<Rightarrow> role_row option auth" where
  "find_role_name n = read_db (\<lambda>db. find_first (\<lambda>r. ro_name r = n) (db_roles db))"

definition role_permission_create :: "string \<Rightarrow> string \<Rightarrow> unit auth" where
  "role_permission_create roleId permissionId = bind (read_db id) (\<lambda>db.
     if exists_row (\<lambda>rp. rp_roleId rp = roleId \<and> rp_permissionId rp = permissionId) (db_rolePermissions db)
     then throw unique_violation
     else if \<not> exists_row (\<lambda>p. pe_id p = permissionId) (db_permissions db) then throw foreign_violation
     else write_db (\<lambda>db. db\<lparr>db_rolePermissions := db_rolePermissions db @
            [\<lparr>rp_roleId = roleId, rp_permissionId = permissionId\<rparr>]\<rparr>))"

text \<open>\<open>upsert\<close> with an empty update.\<close>

definition role_permission_upsert :: "string \<Rightarrow> string \<Rightarrow> unit auth" where
  "role_permission_upsert roleId permissionId = bind (read_db id) (\<lambda>db.
     if exists_row (\<lambda>rp. rp_roleId rp = roleId \<and> rp_permissionId rp = permissionId) (db_rolePermissions db)
     then ret () else role_permission_create roleId permissionId)"

section \<open>Roles\<close>

definition roles_findOne :: "string \<Rightarrow> role_view auth" where
  "roles_findOne i = bind (find_role i) (\<lambda>role. (case role of
     None \<Rightarrow> throw (NotFoundException (''Role with id '' @ [CHR 0x27] @ i @ [CHR 0x27] @ '' not found''))
   | Some r \<Rightarrow> bind (read_db (\<lambda>db. permissions_of db i)) (\<lambda>ps. ret \<lparr>rv_role = r, rv_permissions = ps\<rparr>)))"

definition name_conflict :: "string \<Rightarrow> exn" where
  "name_conflict n = ConflictException (''Role with name '' @ [CHR 0x27] @ n @ [CHR 0x27] @ '' already exists'')"

record create_role_dto =
  cr_name :: string
  cr_description :: "string option"
  cr_permissionIds :: "string list option"

definition roles_create :: "auth_env \<Rightarrow> create_role_dto \<Rightarrow> role_view auth" where
  "roles_create E dto =
     bind (find_role_name (cr_name dto)) (\<lambda>existing.
     if existing \<noteq> None then throw (name_conflict (cr_name dto))
     else bind (draw E) (\<lambda>rid.
       andthen (write_db (\<lambda>db. db\<lparr>db_roles := db_roles db @
           [\<lparr>ro_id = rid, ro_name = cr_name dto, ro_description = cr_description dto\<rparr>]\<rparr>))
      (andthen
        (let ids = nullish (cr_permissionIds dto) []
         in if ids = [] then ret ()
            else bind (read_db (\<lambda>db. map pe_id (db_permissions db))) (\<lambda>existingIds.
              (let missing = filter (\<lambda>i. i \<notin> set existingIds) ids
               in if missing \<noteq> [] then throw (service_exn NOT_FOUND 400
                       (''Some permissions do not exist: '' @ join '', '' missing))
                  else for_each ids (role_permission_upsert rid))))
        (roles_findOne rid))))"

text \<open>\<open>orderBy\<close>, by the collation \<open>le\<close> of the database.\<close>

definition roles_findAll :: "(string \<Rightarrow> string \<Rightarrow> bool) \<Rightarrow> role_view list auth" where
  "roles_findAll le = read_db (\<lambda>db. map (\<lambda>r. \<lparr>rv_role = r, rv_permissions = permissions_of db (ro_id r)\<rparr>)
     (sort_by (\<lambda>a b. le (ro_name a) (ro_name b)) (db_roles db)))"

text \<open>
  Absent members are \<open>None\<close>. \<open>@IsOptional\<close> lets \<open>null\<close> pass: \<open>Some None\<close> where the code tells
  it from an absent member (for the name it does not).
\<close>

record update_role_dto =
  up_name :: "string option"
  up_description :: "string option option"
  up_permissionIds :: "string list option option"

definition role_row_update :: "string \<Rightarrow> update_role_dto \<Rightarrow> unit auth" where
  "role_row_update i dto = bind (read_db db_roles) (\<lambda>rs.
     if up_name dto \<noteq> None \<and> exists_row (\<lambda>r. ro_id r \<noteq> i \<and> Some (ro_name r) = up_name dto) rs
     then throw unique_violation
     else write_db (\<lambda>db. db\<lparr>db_roles := update_where (\<lambda>r. ro_id r = i)
       (\<lambda>r. r\<lparr>ro_name := nullish (up_name dto) (ro_name r),
              ro_description := nullish (up_description dto) (ro_description r)\<rparr>) (db_roles db)\<rparr>))"

definition roles_update :: "string \<Rightarrow> update_role_dto \<Rightarrow> role_view auth" where
  "roles_update i dto =
     andthen (roles_findOne i)
    (andthen
      (case up_name dto of None \<Rightarrow> ret ()
       | Some n \<Rightarrow> bind (read_db (\<lambda>db. exists_row (\<lambda>r. ro_name r = n \<and> ro_id r \<noteq> i) (db_roles db)))
           (\<lambda>existing. throw_if existing (name_conflict n)))
    (andthen (role_row_update i dto)
    (andthen
      (case up_permissionIds dto of None \<Rightarrow> ret ()
       | Some ids \<Rightarrow> andthen
           (write_db (\<lambda>db. db\<lparr>db_rolePermissions := delete_where (\<lambda>rp. rp_roleId rp = i) (db_rolePermissions db)\<rparr>))
           (case ids of None \<Rightarrow> throw (PlainErr ''dto.permissionIds is not iterable'')
            | Some ps \<Rightarrow> for_each ps (role_permission_create i)))
      (roles_findOne i))))"

text \<open>Deleting a role deletes the rows that refer to it.\<close>

definition roles_remove :: "string \<Rightarrow> string auth" where
  "roles_remove i =
     andthen (roles_findOne i)
    (andthen (write_db (\<lambda>db. db\<lparr>db_roles := delete_where (\<lambda>r. ro_id r = i) (db_roles db),
        db_rolePermissions := delete_where (\<lambda>rp. rp_roleId rp = i) (db_rolePermissions db),
        db_userRoles := delete_where (\<lambda>ur. ur_role ur = i) (db_userRoles db)\<rparr>))
      (ret i))"

section \<open>Assignment\<close>

definition with_cache :: "bool \<Rightarrow> 'a cached \<Rightarrow> 'a auth" where
  "with_cache up m = (\<lambda>s. if \<not> up then (Inl (PlainErr ''Connection is closed.''), s)
     else (let (r, redis) = m (as_redis s) in (r, s\<lparr>as_redis := redis\<rparr>)))"

definition has_role :: "string \<Rightarrow> string \<Rightarrow> user_role \<Rightarrow> bool" where
  "has_role userId roleId ur \<longleftrightarrow> ur_user ur = userId \<and> ur_role ur = roleId"

definition set_permVersion :: "int \<Rightarrow> string \<Rightarrow> int \<Rightarrow> auth_db \<Rightarrow> auth_db" where
  "set_permVersion t userId v db = db\<lparr>db_users := update_where (\<lambda>u. u_id u = userId)
     (\<lambda>u. u\<lparr>u_permVersion := v, u_updatedAt := t\<rparr>) (db_users db)\<rparr>"

definition quoted_role :: "string \<Rightarrow> string" where
  "quoted_role n = [CHR 0x27] @ n @ [CHR 0x27]"

definition find_user :: "string \<Rightarrow> user_row option auth" where
  "find_user userId = read_db (\<lambda>db. find_first (\<lambda>u. u_id u = userId) (db_users db))"

text \<open>\<open>a || b\<close> on a status.\<close>

definition status_or :: "int option \<Rightarrow> int \<Rightarrow> int" where
  "status_or v dflt = (if nullish v 0 = 0 then dflt else nullish v 0)"

definition assign_error :: "exn \<Rightarrow> exn" where
  "assign_error e = ServiceErr (service_error_new
     (Some (or_str (err_code e) (code_str INTERNAL))) (Some (status_or (err_statusCode e) 500))
     (or_str (err_message e) ''Failed to assign role'') None None)"

definition assignRole :: "bool \<Rightarrow> int \<Rightarrow> string \<Rightarrow> string \<Rightarrow> (string \<times> string) auth" where
  "assignRole up t userId roleName =
     catchp
      (bind (find_user userId) (\<lambda>user. (case user of None \<Rightarrow> throw (NotFoundException ''User not found'')
       | Some u \<Rightarrow> bind (find_role_name roleName) (\<lambda>role. (case role of
            None \<Rightarrow> throw (NotFoundException (''Role '' @ quoted_role roleName @ '' not found''))
          | Some r \<Rightarrow>
              bind (read_db (\<lambda>db. exists_row (has_role userId (ro_id r)) (db_userRoles db))) (\<lambda>has.
              andthen (throw_if has (service_exn CONFLICT 400 (''User already has role '' @ quoted_role roleName)))
             (andthen (write_db (\<lambda>db. set_permVersion t userId (u_permVersion u + 1)
                 (db\<lparr>db_userRoles := db_userRoles db @ [\<lparr>ur_user = userId, ur_role = ro_id r\<rparr>]\<rparr>)))
             (andthen (with_cache up (updatePermVersion t userId (u_permVersion u + 1)))
               (ret (userId, roleName))))))))))
      (\<lambda>e. throw (assign_error e))"

definition unassign_error :: "exn \<Rightarrow> exn" where
  "unassign_error e = ServiceErr (service_error_new (Some (code_str INTERNAL))
     (Some (status_or (err_statusCode e) 500)) (or_str (err_message e) ''Failed to unassign role'') None None)"

definition unassignRole :: "bool \<Rightarrow> int \<Rightarrow> string \<Rightarrow> string \<Rightarrow> (string \<times> string) auth" where
  "unassignRole up t userId roleName =
     catchp
      (bind (find_role_name roleName) (\<lambda>role. (case role of None \<Rightarrow> throw (service_exn NOT_FOUND 404 ''Role not found'')
       | Some r \<Rightarrow> bind (find_user userId) (\<lambda>user. (case user of
            None \<Rightarrow> throw (service_exn NOT_FOUND 404 ''User not found'')
          | Some u \<Rightarrow>
              bind (read_db (\<lambda>db. exists_row (has_role userId (ro_id r)) (db_userRoles db))) (\<lambda>has.
              andthen (throw_if (\<not> has) (service_exn NOT_FOUND 400 (''User does not have role '' @ quoted_role roleName)))
             (andthen (write_db (\<lambda>db. set_permVersion t userId (u_permVersion u + 1)
                 (db\<lparr>db_userRoles := delete_where (has_role userId (ro_id r)) (db_userRoles db)\<rparr>)))
             (andthen (with_cache up (updatePermVersion t userId (u_permVersion u + 1)))
               (ret (userId, roleName))))))))))
      (\<lambda>e. throw (unassign_error e))"

section \<open>What a user may do\<close>

definition add_code :: "string \<Rightarrow> string list \<Rightarrow> string list" where
  "add_code c codes = (if c \<in> set codes then codes else codes @ [c])"

definition permission_codes :: "auth_db \<Rightarrow> string \<Rightarrow> string list" where
  "permission_codes db userId = fold (\<lambda>ur codes. fold (\<lambda>p. add_code (pe_code p)) (permissions_of db (ur_role ur)) codes)
     (filter (\<lambda>ur. ur_user ur = userId) (db_userRoles db)) []"

definition getPermissionCodesForUser :: "string \<Rightarrow> string list auth" where
  "getPermissionCodesForUser userId = read_db (\<lambda>db. permission_codes db userId)"

definition getRolesForUser :: "string \<Rightarrow> string list auth" where
  "getRolesForUser userId = read_db (\<lambda>db. concat (map (\<lambda>ur. map ro_name (filter (\<lambda>r. ro_id r = ur_role ur) (db_roles db)))
     (filter (\<lambda>ur. ur_user ur = userId) (db_userRoles db))))"

text \<open>The reply of the route the permission provider calls, \<open>GET roles/users/:userId/permissions\<close>.\<close>

definition permissions_route :: "auth_db \<Rightarrow> string \<Rightarrow> auth_reply" where
  "permissions_route db userId = Reply 200 ''OK'' (Some (JArr (map JStr (permission_codes db userId))))"


section \<open>The codes are those of the user's roles\<close>

lemma add_code_simps [simp]: "set (add_code c cs) = insert c (set cs)" "distinct cs \<Longrightarrow> distinct (add_code c cs)"
  by (auto simp: add_code_def)

lemma fold_add_code:
  "set (fold (\<lambda>p. add_code (f p)) ps cs) = set cs \<union> f ` set ps"
  "distinct cs \<Longrightarrow> distinct (fold (\<lambda>p. add_code (f p)) ps cs)"
  by (induction ps arbitrary: cs) auto

lemma fold_codes:
  "set (fold (\<lambda>ur codes. fold (\<lambda>p. add_code (f p)) (g ur) codes) urs cs) = set cs \<union> (\<Union>ur\<in>set urs. f ` set (g ur))"
  "distinct cs \<Longrightarrow> distinct (fold (\<lambda>ur codes. fold (\<lambda>p. add_code (f p)) (g ur) codes) urs cs)"
  by (induction urs arbitrary: cs) (auto simp: fold_add_code)

lemma set_permissions_of: "set (permissions_of db i) =
    {p \<in> set (db_permissions db). \<exists>rp\<in>set (db_rolePermissions db). rp_roleId rp = i \<and> rp_permissionId rp = pe_id p}"
  by (auto simp: permissions_of_def)

lemma code_in: "c \<in> set (permission_codes db userId) \<longleftrightarrow>
     (\<exists>ur rp p. ur \<in> set (db_userRoles db) \<and> rp \<in> set (db_rolePermissions db) \<and> p \<in> set (db_permissions db)
        \<and> ur_user ur = userId \<and> rp_roleId rp = ur_role ur \<and> pe_id p = rp_permissionId rp \<and> pe_code p = c)"
    (is "?L \<longleftrightarrow> ?R")
proof -
  have "?L \<longleftrightarrow> (\<exists>ur\<in>set (db_userRoles db). ur_user ur = userId \<and> (\<exists>p\<in>set (permissions_of db (ur_role ur)). c = pe_code p))"
    by (auto simp: permission_codes_def fold_codes(1))
  also have "\<dots> \<longleftrightarrow> ?R"
    by (simp add: set_permissions_of Bex_def) metis
  finally show ?thesis .
qed

text \<open>
  C19. The permission codes of a user are exactly those of the permissions linked to the roles
  linked to the user, each listed once.
\<close>
theorem permission_codes_exact:
  "distinct (permission_codes db userId) \<and>
   (c \<in> set (permission_codes db userId) \<longleftrightarrow>
     (\<exists>ur rp p. ur \<in> set (db_userRoles db) \<and> rp \<in> set (db_rolePermissions db) \<and> p \<in> set (db_permissions db)
        \<and> ur_user ur = userId \<and> rp_roleId rp = ur_role ur \<and> pe_id p = rp_permissionId rp \<and> pe_code p = c))"
  using code_in [of c db userId] by (simp add: permission_codes_def fold_codes(2))

lemma fetch_route [simp]: "fetch_permissions (permissions_route db u) = Inr (permission_codes db u)"
  by (simp add: fetch_permissions_def permissions_route_def)

section \<open>A change of a user's roles is seen at once\<close>

lemma catch_rethrow_Inr: "catchp m (\<lambda>e. throw (f e)) s = (Inr x, s') \<longleftrightarrow> m s = (Inr x, s')"
  by (auto simp: catchp_run split: prod.splits sum.splits)

lemma with_cache_Inr: "with_cache up m s = (Inr x, s') \<longleftrightarrow>
    up \<and> (\<exists>r. m (as_redis s) = (Inr x, r) \<and> s' = s\<lparr>as_redis := r\<rparr>)"
  by (auto simp: with_cache_def split: prod.splits)

text \<open>What a successful change did: the tables changed in one step, then the cache entry.\<close>

lemma assignRole_Inr:
  assumes "assignRole up t userId roleName s = (Inr x, s')"
  obtains u r where "find_first (\<lambda>u. u_id u = userId) (db_users (as_db s)) = Some u"
    "find_first (\<lambda>r. ro_name r = roleName) (db_roles (as_db s)) = Some r"
    "\<forall>ur\<in>set (db_userRoles (as_db s)). \<not> has_role userId (ro_id r) ur"
    "as_db s' = set_permVersion t userId (u_permVersion u + 1)
       ((as_db s)\<lparr>db_userRoles := db_userRoles (as_db s) @ [\<lparr>ur_user = userId, ur_role = ro_id r\<rparr>]\<rparr>)"
    "updatePermVersion t userId (u_permVersion u + 1) (as_redis s) = (Inr (), as_redis s')"
  using assms(1) unfolding assignRole_def catch_rethrow_Inr bind_Inr_iff andthen_Inr_iff find_user_def find_role_name_def
  by (force simp: bind_Inr_iff andthen_Inr_iff with_cache_Inr split: option.splits if_splits)

lemma unassignRole_Inr:
  assumes "unassignRole up t userId roleName s = (Inr x, s')"
  obtains u r where "find_first (\<lambda>u. u_id u = userId) (db_users (as_db s)) = Some u"
    "find_first (\<lambda>r. ro_name r = roleName) (db_roles (as_db s)) = Some r"
    "\<exists>ur\<in>set (db_userRoles (as_db s)). has_role userId (ro_id r) ur"
    "as_db s' = set_permVersion t userId (u_permVersion u + 1)
       ((as_db s)\<lparr>db_userRoles := delete_where (has_role userId (ro_id r)) (db_userRoles (as_db s))\<rparr>)"
    "updatePermVersion t userId (u_permVersion u + 1) (as_redis s) = (Inr (), as_redis s')"
proof -
  from assms obtain role s1 where 1: "find_role_name roleName s = (Inr role, s1)" and 2: "(case role of
        None \<Rightarrow> throw (service_exn NOT_FOUND 404 ''Role not found'')
      | Some r \<Rightarrow> bind (find_user userId) (\<lambda>user. (case user of
            None \<Rightarrow> throw (service_exn NOT_FOUND 404 ''User not found'')
          | Some u \<Rightarrow>
              bind (read_db (\<lambda>db. exists_row (has_role userId (ro_id r)) (db_userRoles db))) (\<lambda>has.
              andthen (throw_if (\<not> has) (service_exn NOT_FOUND 400 (''User does not have role '' @ quoted_role roleName)))
             (andthen (write_db (\<lambda>db. set_permVersion t userId (u_permVersion u + 1)
                 (db\<lparr>db_userRoles := delete_where (has_role userId (ro_id r)) (db_userRoles db)\<rparr>)))
             (andthen (with_cache up (updatePermVersion t userId (u_permVersion u + 1)))
               (ret (userId, roleName)))))))) s1 = (Inr x, s')"
    unfolding unassignRole_def catch_rethrow_Inr bind_Inr_iff by blast
  from 1 have s1: "s1 = s" and role: "find_first (\<lambda>r. ro_name r = roleName) (db_roles (as_db s)) = role"
    by (auto simp: find_role_name_def)
  from 2 obtain r where r: "role = Some r" by (cases role) simp_all
  from 2 obtain u where u: "find_first (\<lambda>u. u_id u = userId) (db_users (as_db s)) = Some u"
    by (cases "find_first (\<lambda>u. u_id u = userId) (db_users (as_db s))")
      (simp_all add: s1 r bind_run find_user_def del: find_first_None_iff)
  have has: "\<exists>ur\<in>set (db_userRoles (as_db s)). has_role userId (ro_id r) ur"
    by (rule ccontr, use 2 in \<open>simp add: s1 r u bind_run andthen_run find_user_def\<close>)
  from 2 has obtain z where z: "updatePermVersion t userId (u_permVersion u + 1) (as_redis s) = (Inr (), z)"
    and s': "s\<lparr>as_db := set_permVersion t userId (u_permVersion u + 1)
       ((as_db s)\<lparr>db_userRoles := delete_where (has_role userId (ro_id r)) (db_userRoles (as_db s))\<rparr>), as_redis := z\<rparr> = s'"
    by (auto simp: s1 r u bind_run andthen_run find_user_def with_cache_def split: prod.splits sum.splits if_splits)
  show ?thesis
    by (rule that [of u r]) (use u has role r z in \<open>simp_all flip: s'\<close>)
qed

lemma permission_codes_version [simp]: "permission_codes (set_permVersion t u v db) w = permission_codes db w"
  by (simp add: permission_codes_def permissions_of_def set_permVersion_def)

lemma permVersion_after:
  assumes "u \<in> set (db_users (set_permVersion t userId v db))" "u_id u = userId"
  shows "u_permVersion u = v"
proof -
  have "db_users (set_permVersion t userId v db) = update_where (\<lambda>u. u_id u = userId)
      (\<lambda>u. u\<lparr>u_permVersion := v, u_updatedAt := t\<rparr>) (db_users db)"
    by (simp add: set_permVersion_def)
  then have "u \<in> (\<lambda>u. if u_id u = userId then u\<lparr>u_permVersion := v, u_updatedAt := t\<rparr> else u) ` set (db_users db)"
    using assms(1) by (simp only: set_update_where)
  then obtain w where w: "u = (if u_id w = userId then w\<lparr>u_permVersion := v, u_updatedAt := t\<rparr> else w)"
    by (rule imageE)
  show ?thesis
  proof (cases "u_id w = userId")
    case False
    then have "u = w" using w by (simp only: if_False)
    with False assms(2) show ?thesis by blast
  qed (simp add: w)
qed

text \<open>
  C18. Taking a role away takes effect at once, everywhere: after a successful \<open>unassignRole\<close> the
  user's \<open>permVersion\<close> is one higher, and the guard decides the user's next request, with
  whatever token, by the codes of the roles that are left.
\<close>
theorem unassign_takes_effect:
  assumes "perm_ok (as_redis s)" and "unassignRole up t userId roleName s = (Inr x, s')"
    and "looked_up user req userId v"
  shows "fst (canActivate_perm t' (permissions_route (as_db s')) False (Some req) user (as_redis s')) =
      decision (Inr (permission_codes (as_db s') userId)) req
    \<and> (\<exists>r u. ro_name r = roleName \<and> r \<in> set (db_roles (as_db s)) \<and> u_id u = userId \<and> u \<in> set (db_users (as_db s))
        \<and> (\<forall>ur\<in>set (db_userRoles (as_db s')). \<not> has_role userId (ro_id r) ur)
        \<and> (\<forall>w\<in>set (db_users (as_db s')). u_id w = userId \<longrightarrow> u_permVersion w = u_permVersion u + 1))"
proof (rule unassignRole_Inr [OF assms(2)])
  fix u r
  assume u: "find_first (\<lambda>u. u_id u = userId) (db_users (as_db s)) = Some u"
    and r: "find_first (\<lambda>r. ro_name r = roleName) (db_roles (as_db s)) = Some r"
    and db: "as_db s' = set_permVersion t userId (u_permVersion u + 1)
       ((as_db s)\<lparr>db_userRoles := delete_where (has_role userId (ro_id r)) (db_userRoles (as_db s))\<rparr>)"
    and bump: "updatePermVersion t userId (u_permVersion u + 1) (as_redis s) = (Inr (), as_redis s')"
  have "\<forall>ur\<in>set (db_userRoles (as_db s')). \<not> has_role userId (ro_id r) ur"
    by (simp add: db set_permVersion_def set_delete_where)
  moreover have "\<forall>w\<in>set (db_users (as_db s')). u_id w = userId \<longrightarrow> u_permVersion w = u_permVersion u + 1"
    unfolding db using permVersion_after by blast
  ultimately show ?thesis
    using bump_decision [OF assms(1) bump assms(3), of t' "permissions_route (as_db s')", unfolded fetch_route]
      find_first_SomeD [OF u] find_first_SomeD [OF r] by blast
qed

text \<open>
  Giving a role takes effect at once too: after a successful \<open>assignRole\<close> the guard decides by
  codes that include every permission of the new role, and the role was not assigned before.
\<close>
theorem assign_takes_effect:
  assumes "perm_ok (as_redis s)" and "assignRole up t userId roleName s = (Inr x, s')"
    and "looked_up user req userId v"
  shows "fst (canActivate_perm t' (permissions_route (as_db s')) False (Some req) user (as_redis s')) =
      decision (Inr (permission_codes (as_db s') userId)) req
    \<and> (\<exists>r. ro_name r = roleName \<and> r \<in> set (db_roles (as_db s))
        \<and> (\<forall>ur\<in>set (db_userRoles (as_db s)). \<not> has_role userId (ro_id r) ur)
        \<and> (\<forall>p\<in>set (permissions_of (as_db s) (ro_id r)). pe_code p \<in> set (permission_codes (as_db s') userId)))"
proof (rule assignRole_Inr [OF assms(2)])
  fix u r
  assume r: "find_first (\<lambda>r. ro_name r = roleName) (db_roles (as_db s)) = Some r"
    and new: "\<forall>ur\<in>set (db_userRoles (as_db s)). \<not> has_role userId (ro_id r) ur"
    and db: "as_db s' = set_permVersion t userId (u_permVersion u + 1)
       ((as_db s)\<lparr>db_userRoles := db_userRoles (as_db s) @ [\<lparr>ur_user = userId, ur_role = ro_id r\<rparr>]\<rparr>)"
    and bump: "updatePermVersion t userId (u_permVersion u + 1) (as_redis s) = (Inr (), as_redis s')"
  have "\<forall>p\<in>set (permissions_of (as_db s) (ro_id r)). pe_code p \<in> set (permission_codes (as_db s') userId)"
    unfolding db permission_codes_version by (force simp: code_in set_permissions_of)
  then show ?thesis
    using bump_decision [OF assms(1) bump assms(3), of t' "permissions_route (as_db s')"]
      find_first_SomeD [OF r] new by (intro conjI exI [of _ r]) simp_all
qed

section \<open>A change of a role is not\<close>

definition same_users :: "auth_state \<Rightarrow> auth_state \<Rightarrow> bool" where
  "same_users s w \<longleftrightarrow> as_redis w = as_redis s \<and> db_users (as_db w) = db_users (as_db s)"

lemma same_usersI: "preserves (same_users s) m \<Longrightarrow> same_users s (snd (m s))"
  by (erule preservesD) (simp add: same_users_def)

lemma same_users_steps:
  "preserves (same_users s) (read_db f)"
  "(\<And>db. db_users (f' db) = db_users db) \<Longrightarrow> preserves (same_users s) (write_db f')"
  by (simp_all add: preserves_def same_users_def)

lemmas same_users_intros = preserves_intros preserves_option preserves_if preserves_ret preserves_throw
  preserves_throw_if same_users_steps

lemma same_users_findOne: "preserves (same_users s) (roles_findOne i)"
  unfolding roles_findOne_def find_role_def by (intro same_users_intros)

lemma same_users_link: "preserves (same_users s) (role_permission_create i p)"
  unfolding role_permission_create_def by (intro same_users_intros) simp

lemma same_users_row: "preserves (same_users s) (role_row_update i dto)"
  unfolding role_row_update_def by (intro same_users_intros) simp

lemma roles_update_frame: "same_users s (snd (roles_update i dto s))"
  unfolding roles_update_def
  by (rule same_usersI) (intro same_users_findOne same_users_row same_users_link same_users_intros, simp)

lemma roles_remove_frame: "same_users s (snd (roles_remove i s))"
  unfolding roles_remove_def
  by (rule same_usersI) (intro same_users_findOne same_users_intros, simp)

text \<open>
  Changing or deleting a role reaches no one who is cached: whatever \<open>update\<close> or \<open>remove\<close> does
  to a role, a user whose non-empty list is cached for the version of the token keeps being
  decided by that list, as nothing bumps the version or touches the cache.
\<close>
theorem role_update_unseen:
  assumes "perm_ok (as_redis s)" and "looked_up user req userId v"
    and "fst (cache_get t' userId v (as_redis s)) = Inr ps" and "ps \<noteq> []"
    and "s' = snd (roles_update i dto s) \<or> s' = snd (roles_remove i s)"
  shows "db_users (as_db s') = db_users (as_db s)
    \<and> canActivate_perm t' (permissions_route (as_db s')) False (Some req) user (as_redis s') =
        (decision (Inr ps) req, as_redis s)"
proof -
  have "as_redis s' = as_redis s" "db_users (as_db s') = db_users (as_db s)"
    using assms(5) roles_update_frame [of s i dto] roles_remove_frame [of s i] by (auto simp: same_users_def)
  then show ?thesis
    using pcache.hit [OF assms(1,3,4)]
    by (simp add: canActivate_perm_looked_up [OF assms(2)] getPermissions_read_through bind_run
        decision_def hasPermission_iff)
qed

section \<open>A failed update\<close>

definition linked :: "string \<Rightarrow> string \<Rightarrow> auth_state \<Rightarrow> bool" where
  "linked i p s \<longleftrightarrow> (\<exists>rp\<in>set (db_rolePermissions (as_db s)). rp_roleId rp = i \<and> rp_permissionId rp = p)"

definition is_permission :: "string \<Rightarrow> auth_state \<Rightarrow> bool" where
  "is_permission p s \<longleftrightarrow> (\<exists>x\<in>set (db_permissions (as_db s)). pe_id x = p)"

lemma role_permission_create_run: "role_permission_create i p s =
    (if linked i p s then (Inl unique_violation, s) else if \<not> is_permission p s then (Inl foreign_violation, s)
     else (Inr (), s\<lparr>as_db := (as_db s)\<lparr>db_rolePermissions := db_rolePermissions (as_db s) @
       [\<lparr>rp_roleId = i, rp_permissionId = p\<rparr>]\<rparr>\<rparr>))"
  by (auto simp: role_permission_create_def bind_run linked_def is_permission_def)

lemma links_stop:
  assumes "distinct good" and "\<forall>p\<in>set good. is_permission p s \<and> \<not> linked i p s"
    and "bad \<in> set good \<or> linked i bad s \<or> \<not> is_permission bad s"
  shows "\<exists>e s'. for_each (good @ bad # rest) (role_permission_create i) s = (Inl e, s')
    \<and> db_rolePermissions (as_db s') = db_rolePermissions (as_db s) @ map (\<lambda>p. \<lparr>rp_roleId = i, rp_permissionId = p\<rparr>) good"
  using assms
proof (induction good arbitrary: s)
  case Nil
  then show ?case by (auto simp: andthen_run role_permission_create_run)
next
  case (Cons p good)
  let ?s = "s\<lparr>as_db := (as_db s)\<lparr>db_rolePermissions := db_rolePermissions (as_db s) @ [\<lparr>rp_roleId = i, rp_permissionId = p\<rparr>]\<rparr>\<rparr>"
  have step: "role_permission_create i p s = (Inr (), ?s)"
    using Cons.prems(2) by (simp add: role_permission_create_run)
  have "linked i q ?s \<longleftrightarrow> q = p \<or> linked i q s" "is_permission q ?s = is_permission q s" for q
    by (auto simp: linked_def is_permission_def)
  then have "\<exists>e s'. for_each (good @ bad # rest) (role_permission_create i) ?s = (Inl e, s')
      \<and> db_rolePermissions (as_db s') = db_rolePermissions (as_db ?s) @ map (\<lambda>p. \<lparr>rp_roleId = i, rp_permissionId = p\<rparr>) good"
    using Cons.prems by (intro Cons.IH) auto
  then show ?case by (auto simp: andthen_run step)
qed

text \<open>
  An update that names a permission that does not exist, or one twice, fails half-way: the
  role has lost all its permissions and keeps only those listed before the offending one.
\<close>
theorem role_update_strips:
  assumes "find_first (\<lambda>r. ro_id r = i) (db_roles (as_db s)) \<noteq> None"
    and "distinct good" and "\<forall>p\<in>set good. \<exists>x\<in>set (db_permissions (as_db s)). pe_id x = p"
    and "bad \<in> set good \<or> (\<forall>x\<in>set (db_permissions (as_db s)). pe_id x \<noteq> bad)"
    and "dto = \<lparr>up_name = None, up_description = None, up_permissionIds = Some (Some (good @ bad # rest))\<rparr>"
  shows "\<exists>e s'. roles_update i dto s = (Inl e, s')
    \<and> filter (\<lambda>rp. rp_roleId rp = i) (db_rolePermissions (as_db s')) =
        map (\<lambda>p. \<lparr>rp_roleId = i, rp_permissionId = p\<rparr>) good"
proof -
  let ?s = "s\<lparr>as_db := (as_db s)\<lparr>db_roles := update_where (\<lambda>r. ro_id r = i) id (db_roles (as_db s)),
    db_rolePermissions := delete_where (\<lambda>rp. rp_roleId rp = i) (db_rolePermissions (as_db s))\<rparr>\<rparr>"
  from assms(1) obtain v where find: "roles_findOne i s = (Inr v, s)"
    by (cases "find_first (\<lambda>r. ro_id r = i) (db_roles (as_db s))")
      (simp_all add: roles_findOne_def find_role_def bind_run del: find_first_None_iff)
  have "\<exists>e s'. for_each (good @ bad # rest) (role_permission_create i) ?s = (Inl e, s')
      \<and> db_rolePermissions (as_db s') = db_rolePermissions (as_db ?s) @ map (\<lambda>p. \<lparr>rp_roleId = i, rp_permissionId = p\<rparr>) good"
    using assms(2,3,4) by (intro links_stop) (auto simp: linked_def is_permission_def set_delete_where)
  then obtain e s' where run: "for_each (good @ bad # rest) (role_permission_create i) ?s = (Inl e, s')"
    and rows: "db_rolePermissions (as_db s') = db_rolePermissions (as_db ?s) @ map (\<lambda>p. \<lparr>rp_roleId = i, rp_permissionId = p\<rparr>) good"
    by blast
  have "roles_update i dto s = (Inl e, s')"
    using run by (simp add: roles_update_def assms(5) find andthen_run role_row_update_def bind_run id_def)
  moreover have "filter (\<lambda>rp. rp_roleId rp = i) (db_rolePermissions (as_db s')) =
      map (\<lambda>p. \<lparr>rp_roleId = i, rp_permissionId = p\<rparr>) good"
    by (simp add: rows delete_where_def filter_empty_conv filter_map o_def)
  ultimately show ?thesis by blast
qed

section \<open>Witnesses\<close>

definition roles_state :: auth_state where
  "roles_state = \<lparr>as_db = empty_db\<lparr>
      db_users := [\<lparr>u_id = ''u1'', u_email = ''a@b'', u_passwordHash = ''h'', u_permVersion = 1, u_name = None,
        u_phone = None, u_isActive = True, u_createdAt = 0, u_updatedAt = 0\<rparr>],
      db_roles := [\<lparr>ro_id = ''r1'', ro_name = ''user'', ro_description = None\<rparr>,
        \<lparr>ro_id = ''r2'', ro_name = ''admin'', ro_description = None\<rparr>],
      db_permissions := [\<lparr>pe_id = ''p1'', pe_code = ''NOTIFICATION_READ'', pe_description = None\<rparr>,
        \<lparr>pe_id = ''p2'', pe_code = ''ROLE_READ'', pe_description = None\<rparr>],
      db_rolePermissions := [\<lparr>rp_roleId = ''r1'', rp_permissionId = ''p1''\<rparr>, \<lparr>rp_roleId = ''r2'', rp_permissionId = ''p2''\<rparr>],
      db_userRoles := [\<lparr>ur_user = ''u1'', ur_role = ''r1''\<rparr>]\<rparr>,
    as_redis = Map.empty, as_draws = 0, as_out = []\<rparr>"

lemma roles_state_redis [simp]: "as_redis roles_state = Map.empty"
  by (simp add: roles_state_def)

lemma unassign_takes_effect_witness:
  "fst (canActivate_perm 7 (permissions_route (as_db (snd (unassignRole True 5 ''u1'' ''user'' roles_state)))) False
      (Some [''NOTIFICATION_READ'']) (sample_user 1) (as_redis (snd (unassignRole True 5 ''u1'' ''user'' roles_state)))) =
    Inl (insufficient [''NOTIFICATION_READ''])"
proof -
  have run: "fst (unassignRole True 5 ''u1'' ''user'' roles_state) = Inr (''u1'', ''user'')"
    by code_simp
  have codes: "permission_codes (as_db (snd (unassignRole True 5 ''u1'' ''user'' roles_state))) ''u1'' = []"
    by code_simp
  show ?thesis
    using unassign_takes_effect [of roles_state True 5 "''u1''" "''user''" "(''u1'', ''user'')"
        "snd (unassignRole True 5 ''u1'' ''user'' roles_state)" "sample_user 1" "[''NOTIFICATION_READ'']" 1 7] run codes
    by (simp add: prod_eq_iff decision_def)
qed

lemma assign_takes_effect_witness:
  "fst (canActivate_perm 7 (permissions_route (as_db (snd (assignRole True 5 ''u1'' ''admin'' roles_state)))) False
      (Some [''NOTIFICATION_READ'']) (sample_user 1) (as_redis (snd (assignRole True 5 ''u1'' ''admin'' roles_state)))) =
    Inr (Some [''NOTIFICATION_READ'', ''ROLE_READ''])"
proof -
  have run: "fst (assignRole True 5 ''u1'' ''admin'' roles_state) = Inr (''u1'', ''admin'')"
    by code_simp
  have codes: "permission_codes (as_db (snd (assignRole True 5 ''u1'' ''admin'' roles_state))) ''u1'' =
      [''NOTIFICATION_READ'', ''ROLE_READ'']"
    by code_simp
  show ?thesis
    using assign_takes_effect [of roles_state True 5 "''u1''" "''admin''" "(''u1'', ''admin'')"
        "snd (assignRole True 5 ''u1'' ''admin'' roles_state)" "sample_user 1" "[''NOTIFICATION_READ'']" 1 7] run codes
    by (simp add: prod_eq_iff decision_def)
qed

definition cached_state :: auth_state where
  "cached_state = roles_state\<lparr>as_redis := snd (cache_set 3 ''u1'' 1 [''NOTIFICATION_READ''] Map.empty)\<rparr>"

definition emptying :: update_role_dto where
  "emptying = \<lparr>up_name = None, up_description = None, up_permissionIds = Some (Some [])\<rparr>"

lemma cached_state_facts:
  "perm_ok (as_redis cached_state)" "fst (cache_get 7 ''u1'' 1 (as_redis cached_state)) = Inr [''NOTIFICATION_READ'']"
proof -
  obtain r where r: "cache_set 3 ''u1'' 1 [''NOTIFICATION_READ''] Map.empty = (Inr (), r)" "perm_ok r"
    using pcache.set_total [of Map.empty] by fastforce
  then have "fst (cache_get 3 ''u1'' 1 r) = Inr [''NOTIFICATION_READ'']"
    using pcache.get_set [OF perm_ok_empty r(1), of 1] by simp
  then have "fst (cache_get 7 ''u1'' 1 r) = Inr [''NOTIFICATION_READ'']"
    using r(2) by (simp add: cache_get_slot)
  with r show "perm_ok (as_redis cached_state)"
    "fst (cache_get 7 ''u1'' 1 (as_redis cached_state)) = Inr [''NOTIFICATION_READ'']"
    by (simp_all add: cached_state_def)
qed

lemma role_update_unseen_witness:
  "fst (canActivate_perm 7 (permissions_route (as_db (snd (roles_update ''r1'' emptying cached_state)))) False
      (Some [''NOTIFICATION_READ'']) (sample_user 1) (as_redis (snd (roles_update ''r1'' emptying cached_state))))
    = Inr (Some [''NOTIFICATION_READ''])"
  using role_update_unseen [OF cached_state_facts(1) looked_up_sample [OF one_neq_zero] cached_state_facts(2) _
      disjI1 [OF refl], of "''r1''" emptying]
  by (simp add: decision_def hasPermission_iff)

lemma role_update_strips_witness:
  "\<exists>e s'. roles_update ''r1'' \<lparr>up_name = None, up_description = None, up_permissionIds = Some (Some [''p2'', ''p9'', ''p1''])\<rparr> roles_state
      = (Inl e, s')
    \<and> filter (\<lambda>rp. rp_roleId rp = ''r1'') (db_rolePermissions (as_db s')) = [\<lparr>rp_roleId = ''r1'', rp_permissionId = ''p2''\<rparr>]"
  using role_update_strips [of "''r1''" roles_state "[''p2'']" "''p9''"
      "\<lparr>up_name = None, up_description = None, up_permissionIds = Some (Some [''p2'', ''p9'', ''p1''])\<rparr>" "[''p1'']"]
  by (simp add: roles_state_def)

end
