(* ===== verification/Seeds.thy ===== *)
theory Seeds
  imports Roles Auth
begin

text \<open>
  The seeds of the auth service (\<open>prisma/seed.ts\<close>, \<open>seed/role.seed.ts\<close>, \<open>seed/user.seed.ts\<close>):
  permissions, roles and two users, each created where its unique key finds no row. They are
  written to be run again; the relation \<open>repeats\<close> says what that takes and is proved once for the
  upserts and their composition.
\<close>

section \<open>Upserts with an empty update\<close>

definition permission_upsert :: "auth_env \<Rightarrow> string \<Rightarrow> string \<Rightarrow> permission_row auth" where
  "permission_upsert E code description = bind (read_db (\<lambda>db. find_first (\<lambda>p. pe_code p = code) (db_permissions db))) (\<lambda>found.
     (case found of Some p \<Rightarrow> ret p
      | None \<Rightarrow> bind (draw E) (\<lambda>i. bind (read_db db_permissions) (\<lambda>ps.
          if exists_row (\<lambda>p. pe_id p = i) ps then throw unique_violation
          else (let row = \<lparr>pe_id = i, pe_code = code, pe_description = Some description\<rparr>
                in andthen (write_db (\<lambda>db. db\<lparr>db_permissions := db_permissions db @ [row]\<rparr>)) (ret row))))))"

definition role_upsert :: "auth_env \<Rightarrow> string \<Rightarrow> string \<Rightarrow> role_row auth" where
  "role_upsert E name description = bind (find_role_name name) (\<lambda>found.
     (case found of Some r \<Rightarrow> ret r
      | None \<Rightarrow> bind (draw E) (\<lambda>i. bind (read_db db_roles) (\<lambda>rs.
          if exists_row (\<lambda>r. ro_id r = i) rs then throw unique_violation
          else (let row = \<lparr>ro_id = i, ro_name = name, ro_description = Some description\<rparr>
                in andthen (write_db (\<lambda>db. db\<lparr>db_roles := db_roles db @ [row]\<rparr>)) (ret row))))))"

definition user_upsert :: "auth_env \<Rightarrow> int \<Rightarrow> string \<Rightarrow> string \<Rightarrow> string \<Rightarrow> user_row auth" where
  "user_upsert E t email passwordHash name = bind (read_db (\<lambda>db. find_first (\<lambda>u. u_email u = email) (db_users db))) (\<lambda>found.
     (case found of Some u \<Rightarrow> ret u
      | None \<Rightarrow> bind (draw E) (\<lambda>i.
          (let row = \<lparr>u_id = i, u_email = email, u_passwordHash = passwordHash, u_permVersion = 1, u_name = Some name,
                u_phone = None, u_isActive = True, u_createdAt = t, u_updatedAt = t\<rparr>
           in andthen (user_create row) (ret row)))))"

definition user_role_upsert :: "string \<Rightarrow> string \<Rightarrow> unit auth" where
  "user_role_upsert userId roleId = bind (read_db (\<lambda>db. exists_row (has_role userId roleId) (db_userRoles db))) (\<lambda>found.
     if found then ret ()
     else write_db (\<lambda>db. db\<lparr>db_userRoles := db_userRoles db @ [\<lparr>ur_user = userId, ur_role = roleId\<rparr>]\<rparr>))"

section \<open>The seeds\<close>

text \<open>The descriptions, as UTF-8.\<close>

definition text_read :: string where
  "text_read = ''Xem danh s'' @ [CHR 0xC3, CHR 0xA1] @ ''ch th'' @ [CHR 0xC3, CHR 0xB4] @ ''ng b'' @ [CHR 0xC3, CHR 0xA1] @ ''o v'' @ [CHR 0xC3, CHR 0xA0] @ '' unread count''"

definition text_write :: string where
  "text_write = [CHR 0xC4, CHR 0x90, CHR 0xC3, CHR 0xA1] @ ''nh d'' @ [CHR 0xE1, CHR 0xBA, CHR 0xA5] @ ''u '' @ [CHR 0xC4, CHR 0x91, CHR 0xE1, CHR 0xBB, CHR 0x8D] @ ''c / read-all th'' @ [CHR 0xC3, CHR 0xB4] @ ''ng b'' @ [CHR 0xC3, CHR 0xA1] @ ''o''"

definition text_user :: string where
  "text_user = ''User th'' @ [CHR 0xC6, CHR 0xB0, CHR 0xE1, CHR 0xBB, CHR 0x9D] @ ''ng - ch'' @ [CHR 0xE1, CHR 0xBB, CHR 0x89] @ '' notifications:read''"

definition text_admin :: string where
  "text_admin = ''Admin - '' @ [CHR 0xC4, CHR 0x91, CHR 0xE1, CHR 0xBB, CHR 0xA7] @ '' notifications:read + notifications:write''"

definition runRoleSeed :: "auth_env \<Rightarrow> (role_row \<times> role_row) auth" where
  "runRoleSeed E =
     bind (permission_upsert E ''notifications:read'' text_read) (\<lambda>permRead.
     bind (permission_upsert E ''notifications:write'' text_write) (\<lambda>permWrite.
     bind (role_upsert E ''user'' text_user) (\<lambda>roleUser.
     bind (role_upsert E ''admin'' text_admin) (\<lambda>roleAdmin.
       andthen (role_permission_upsert (ro_id roleUser) (pe_id permRead))
      (andthen (role_permission_upsert (ro_id roleAdmin) (pe_id permRead))
      (andthen (role_permission_upsert (ro_id roleAdmin) (pe_id permWrite))
        (ret (roleUser, roleAdmin))))))))"

definition runUserSeed :: "auth_env \<Rightarrow> int \<Rightarrow> unit auth" where
  "runUserSeed E t =
     bind (hashPassword E ''Admin@123'') (\<lambda>adminHash.
     bind (hashPassword E ''User@123'') (\<lambda>userHash.
     bind (user_upsert E t ''admin@example.com'' adminHash ''Admin Seed'') (\<lambda>admin.
     bind (user_upsert E t ''user@example.com'' userHash ''User Seed'') (\<lambda>user.
     bind (find_role_name ''admin'') (\<lambda>roleAdmin.
     bind (find_role_name ''user'') (\<lambda>roleUser.
       (case (roleAdmin, roleUser) of
          (Some ra, Some ru) \<Rightarrow> andthen (user_role_upsert (u_id admin) (ro_id ra)) (user_role_upsert (u_id user) (ro_id ru))
        | _ \<Rightarrow> throw (PlainErr ''Run role seed first.''))))))))"

definition seed_main :: "auth_env \<Rightarrow> int \<Rightarrow> unit auth" where
  "seed_main E t = andthen (runRoleSeed E) (runUserSeed E t)"

section \<open>Running again\<close>

text \<open>The tables the seeds write only grow, at the end.\<close>

definition grows :: "auth_db \<Rightarrow> auth_db \<Rightarrow> bool" where
  "grows db db' \<longleftrightarrow> (\<exists>us rs ps rps urs. db_users db' = db_users db @ us \<and> db_roles db' = db_roles db @ rs
     \<and> db_permissions db' = db_permissions db @ ps \<and> db_rolePermissions db' = db_rolePermissions db @ rps
     \<and> db_userRoles db' = db_userRoles db @ urs)"

lemma grows_refl [simp]: "grows db db"
  by (simp add: grows_def)

lemma grows_trans [trans]: "grows a b \<Longrightarrow> grows b c \<Longrightarrow> grows a c"
  by (fastforce simp: grows_def)

lemma find_first_grows: "find_first P t = Some r \<Longrightarrow> find_first P (t @ u) = Some r"
  by (simp add: find_first_append)

text \<open>
  \<open>m'\<close> repeats \<open>m\<close>: once \<open>m\<close> has succeeded, in every database that has grown from there \<open>m'\<close> gives the
  same result and writes nothing.
\<close>

definition repeats :: "'a auth \<Rightarrow> 'a auth \<Rightarrow> bool" where
  "repeats m m' \<longleftrightarrow> (\<forall>s x s'. m s = (Inr x, s') \<longrightarrow> grows (as_db s) (as_db s')
     \<and> (\<forall>z. grows (as_db s') (as_db z) \<longrightarrow> (\<exists>z'. m' z = (Inr x, z') \<and> as_db z' = as_db z)))"

lemma repeatsI [intro?]:
  assumes "\<And>s x s'. m s = (Inr x, s') \<Longrightarrow> grows (as_db s) (as_db s')"
    and "\<And>s x s' (z::auth_state). m s = (Inr x, s') \<Longrightarrow> grows (as_db s') (as_db z) \<Longrightarrow> \<exists>z'. m' z = (Inr x, z') \<and> as_db z' = as_db z"
  shows "repeats m m'"
  using assms unfolding repeats_def by blast

lemma repeatsD:
  assumes "repeats m m'" and "m s = (Inr x, s')"
  shows "grows (as_db s) (as_db s')" "grows (as_db s') (as_db z) \<Longrightarrow> \<exists>z'. m' z = (Inr x, z') \<and> as_db z' = as_db z"
  using assms unfolding repeats_def by blast+

lemma repeats_ret [intro]: "repeats (ret x) (ret x)"
  by (rule repeatsI) auto

lemma repeats_throw [intro]: "repeats (throw e) (throw e)"
  by (rule repeatsI) auto

lemma repeats_bind:
  assumes "repeats m m'" and "\<And>x. repeats (f x) (f' x)"
  shows "repeats (bind m f) (bind m' f')"
proof
  fix s y s'
  assume "bind m f s = (Inr y, s')"
  then obtain x u where run: "m s = (Inr x, u)" "f x u = (Inr y, s')" by (auto simp: bind_Inr_iff)
  show "grows (as_db s) (as_db s')"
    using repeatsD(1) [OF assms(1) run(1)] repeatsD(1) [OF assms(2) run(2)] by (rule grows_trans)
  fix z :: auth_state assume z: "grows (as_db s') (as_db z)"
  with repeatsD(1) [OF assms(2) run(2)] have "grows (as_db u) (as_db z)" by (rule grows_trans)
  with repeatsD(2) [OF assms(1) run(1)] obtain z1 where z1: "m' z = (Inr x, z1)" "as_db z1 = as_db z" by blast
  with z have "grows (as_db s') (as_db z1)" by simp
  with repeatsD(2) [OF assms(2) run(2)] obtain z2 where "f' x z1 = (Inr y, z2)" "as_db z2 = as_db z1" by blast
  then show "\<exists>z'. bind m' f' z = (Inr y, z') \<and> as_db z' = as_db z" using z1 by (simp add: bind_run)
qed

lemma repeats_andthen: "repeats m m' \<Longrightarrow> repeats n n' \<Longrightarrow> repeats (andthen m n) (andthen m' n')"
  unfolding andthen_def by (rule repeats_bind)

text \<open>The value of a draw may differ when it only goes into a row that exists.\<close>

lemma repeats_hash:
  assumes "\<And>h h'. repeats (f h) (f' h')"
  shows "repeats (bind (hashPassword E p) f) (bind (hashPassword E' p') f')"
proof
  fix s y s'
  assume "bind (hashPassword E p) f s = (Inr y, s')"
  then obtain h u where run: "f h u = (Inr y, s')" "as_db u = as_db s" by (auto simp: bind_run)
  show "grows (as_db s) (as_db s')" using repeatsD(1) [OF assms run(1)] run(2) by simp
  fix z :: auth_state assume "grows (as_db s') (as_db z)"
  then show "\<exists>z'. bind (hashPassword E' p') f' z = (Inr y, z') \<and> as_db z' = as_db z"
    using repeatsD(2) [OF assms run(1), of "z\<lparr>as_draws := as_draws z + 1\<rparr>"] by (simp add: bind_run)
qed

lemma repeats_permission: "repeats (permission_upsert E code d) (permission_upsert E' code d')"
proof
  fix s x s' assume run: "permission_upsert E code d s = (Inr x, s')"
  then show "grows (as_db s) (as_db s')"
    by (auto simp: permission_upsert_def bind_run andthen_run grows_def Let_def split: option.splits if_splits)
  have found: "find_first (\<lambda>p. pe_code p = code) (db_permissions (as_db s')) = Some x"
    using run by (auto simp: permission_upsert_def bind_run andthen_run find_first_append Let_def
        simp del: find_first_None_iff split: option.splits if_splits)
  fix z :: auth_state assume "grows (as_db s') (as_db z)"
  with found show "\<exists>z'. permission_upsert E' code d' z = (Inr x, z') \<and> as_db z' = as_db z"
    by (auto simp: permission_upsert_def bind_run grows_def find_first_grows)
qed

lemma repeats_role: "repeats (role_upsert E name d) (role_upsert E' name d')"
proof
  fix s x s' assume run: "role_upsert E name d s = (Inr x, s')"
  then show "grows (as_db s) (as_db s')"
    by (auto simp: role_upsert_def find_role_name_def bind_run andthen_run grows_def Let_def split: option.splits if_splits)
  have found: "find_first (\<lambda>r. ro_name r = name) (db_roles (as_db s')) = Some x"
    using run by (auto simp: role_upsert_def find_role_name_def bind_run andthen_run find_first_append Let_def
        simp del: find_first_None_iff split: option.splits if_splits)
  fix z :: auth_state assume "grows (as_db s') (as_db z)"
  with found show "\<exists>z'. role_upsert E' name d' z = (Inr x, z') \<and> as_db z' = as_db z"
    by (auto simp: role_upsert_def find_role_name_def bind_run grows_def find_first_grows)
qed

lemma repeats_user: "repeats (user_upsert E t email h name) (user_upsert E' t' email h' name')"
proof
  fix s x s' assume run: "user_upsert E t email h name s = (Inr x, s')"
  then show "grows (as_db s) (as_db s')"
    by (auto simp: user_upsert_def user_create_def bind_run andthen_run grows_def Let_def split: option.splits if_splits)
  have found: "find_first (\<lambda>u. u_email u = email) (db_users (as_db s')) = Some x"
    using run by (auto simp: user_upsert_def user_create_def bind_run andthen_run find_first_append Let_def
        simp del: find_first_None_iff split: option.splits if_splits)
  fix z :: auth_state assume "grows (as_db s') (as_db z)"
  with found show "\<exists>z'. user_upsert E' t' email h' name' z = (Inr x, z') \<and> as_db z' = as_db z"
    by (auto simp: user_upsert_def bind_run grows_def find_first_grows)
qed

lemma repeats_role_permission: "repeats (role_permission_upsert r p) (role_permission_upsert r p)"
  by (rule repeatsI) (auto simp: role_permission_upsert_def role_permission_create_def bind_run grows_def split: if_splits)

lemma repeats_user_role: "repeats (user_role_upsert u r) (user_role_upsert u r)"
  by (rule repeatsI) (auto simp: user_role_upsert_def bind_run grows_def has_role_def split: if_splits)

text \<open>A lookup that found its row is repeated; one that found none is not, so it stands with what follows it.\<close>

lemma repeats_find_role:
  assumes "\<And>r. repeats (f (Some r)) (f' (Some r))" and "\<And>s x s'. f None s \<noteq> (Inr x, s')"
  shows "repeats (bind (find_role_name n) f) (bind (find_role_name n) f')"
proof
  fix s y s' assume "bind (find_role_name n) f s = (Inr y, s')"
  then obtain r where r: "find_first (\<lambda>r. ro_name r = n) (db_roles (as_db s)) = Some r" and run: "f (Some r) s = (Inr y, s')"
    using assms(2) by (cases "find_first (\<lambda>r. ro_name r = n) (db_roles (as_db s))")
      (auto simp: bind_run find_role_name_def simp del: find_first_None_iff)
  show grow: "grows (as_db s) (as_db s')" by (rule repeatsD(1) [OF assms(1) run])
  fix z :: auth_state assume z: "grows (as_db s') (as_db z)"
  have "find_first (\<lambda>r. ro_name r = n) (db_roles (as_db z)) = Some r"
    using grows_trans [OF grow z] r by (auto simp: grows_def find_first_grows)
  then show "\<exists>z'. bind (find_role_name n) f' z = (Inr y, z') \<and> as_db z' = as_db z"
    using repeatsD(2) [OF assms(1) run z] by (simp add: bind_run find_role_name_def)
qed

lemmas repeats_intros = repeats_ret repeats_throw repeats_andthen repeats_permission repeats_role repeats_user
  repeats_role_permission repeats_user_role

lemma repeats_role_seed: "repeats (runRoleSeed E) (runRoleSeed E)"
  unfolding runRoleSeed_def by (intro repeats_bind repeats_intros)

lemma repeats_user_seed: "repeats (runUserSeed E t) (runUserSeed E t')"
  unfolding runUserSeed_def
  by (intro repeats_hash; rule repeats_bind [OF repeats_user]; rule repeats_bind [OF repeats_user];
      intro repeats_find_role)
    (auto simp: bind_run find_role_name_def intro: repeats_intros split: option.splits)

text \<open>
  Seeding is idempotent: once the seeds have succeeded, running them again, at any time and on any
  database that only grew since, succeeds again and writes nothing, although the passwords are
  hashed anew.
\<close>
theorem seeds_idempotent:
  assumes "seed_main E t s = (Inr (), s')" and "grows (as_db s') (as_db z)"
  shows "\<exists>z'. seed_main E t' z = (Inr (), z') \<and> as_db z' = as_db z"
proof -
  have "repeats (seed_main E t) (seed_main E t')"
    unfolding seed_main_def by (intro repeats_andthen repeats_role_seed repeats_user_seed)
  from repeatsD(2) [OF this assms] show ?thesis .
qed

section \<open>Witness\<close>

definition fresh_state :: auth_state where
  "fresh_state = \<lparr>as_db = empty_db, as_redis = Map.empty, as_draws = 0, as_out = []\<rparr>"

text \<open>From empty tables: both users, with the codes of their roles.\<close>

theorem seeds_idempotent_witness:
  "(\<exists>z'. seed_main demo_env 9 (snd (seed_main demo_env 5 fresh_state)) = (Inr (), z')
      \<and> as_db z' = as_db (snd (seed_main demo_env 5 fresh_state)))
   \<and> map (\<lambda>u. (u_email u, permission_codes (as_db (snd (seed_main demo_env 5 fresh_state))) (u_id u)))
        (db_users (as_db (snd (seed_main demo_env 5 fresh_state)))) =
      [(''admin@example.com'', [''notifications:read'', ''notifications:write'']), (''user@example.com'', [''notifications:read''])]"
proof -
  have "fst (seed_main demo_env 5 fresh_state) = Inr ()" by code_simp
  then have run: "seed_main demo_env 5 fresh_state = (Inr (), snd (seed_main demo_env 5 fresh_state))"
    by (simp add: prod_eq_iff)
  have "map (\<lambda>u. (u_email u, permission_codes (as_db (snd (seed_main demo_env 5 fresh_state))) (u_id u)))
      (db_users (as_db (snd (seed_main demo_env 5 fresh_state)))) =
    [(''admin@example.com'', [''notifications:read'', ''notifications:write'']), (''user@example.com'', [''notifications:read''])]"
    by code_simp
  with seeds_idempotent [OF run grows_refl, of 9] show ?thesis by simp
qed

end
