(* ===== verification/ServiceJwt.thy ===== *)
theory ServiceJwt
  imports Jwt Http
begin

text \<open>
  The notification service has its own copy of the strategies of the auth service
  (\<open>apps/notification-service/src/modules/jwt\<close>): here the copy is translated on its own, the
  two services are compared on every token, and the tokens the services sign for each other
  (\<open>jwt.service.ts\<close> of both) are given.
\<close>

section \<open>The strategy of the notification service\<close>

record noti_config =
  nc_internalSecret :: string
  nc_internalAudience :: string
  nc_userSecret :: string
  nc_userIssuer :: string
  nc_userAudience :: string

definition noti_strategy_new ::
  "string option \<Rightarrow> string option \<Rightarrow> string option \<Rightarrow> string option \<Rightarrow> string option \<Rightarrow> exn + noti_config" where
  "noti_strategy_new internalSecret userSecret internalAudience userAudience userIssuer =
     (if \<not> truthy internalSecret then Inl (PlainErr ''INTERNAL_JWT_SECRET is required'')
      else if \<not> truthy userSecret then Inl (PlainErr ''JWT_SECRET is required'')
      else Inr \<lparr>nc_internalSecret = nullish internalSecret [], nc_internalAudience = or_str internalAudience ''internal'',
             nc_userSecret = nullish userSecret [], nc_userIssuer = or_str userIssuer ''auth-service'',
             nc_userAudience = or_str userAudience ''api''\<rparr>)"

definition noti_secret :: "noti_config \<Rightarrow> jwt_lib \<Rightarrow> string \<Rightarrow> exn + string" where
  "noti_secret C L rawJwtToken = (case jl_decode L rawJwtToken of
     None \<Rightarrow> Inl (UnauthorizedException ''Invalid token format'')
   | Some decoded \<Rightarrow>
      (case jget ''aud'' decoded of
         Some (JStr audience) \<Rightarrow>
           if audience = nc_internalAudience C then Inr (nc_internalSecret C)
           else if audience = nc_userAudience C then Inr (nc_userSecret C)
           else Inl (UnauthorizedException (''Unknown token audience: '' @ audience))
       | a \<Rightarrow> Inl (UnauthorizedException (''Unknown token audience: '' @ aud_text a))))"

definition noti_identity :: "noti_config \<Rightarrow> json \<Rightarrow> exn + req_user" where
  "noti_identity C payload = (case jget ''aud'' payload of
     Some (JStr audience) \<Rightarrow>
       if audience = nc_internalAudience C then Inr (internal_user payload)
       else if audience = nc_userAudience C then
         Inr (no_user\<lparr>usr_type := Some ''user'', usr_userId := jstr (jget ''sub'' payload),
           usr_permVersion := jnum (jget ''permVersion'' payload)\<rparr>)
       else Inl (UnauthorizedException ''Invalid token type'')
   | _ \<Rightarrow> Inl (UnauthorizedException ''Invalid token type''))"

definition noti_passport :: "noti_config \<Rightarrow> jwt_lib \<Rightarrow> int \<Rightarrow> string option \<Rightarrow> exn + req_user" where
  "noti_passport C L t authorization = (case jl_bearer L authorization of
     None \<Rightarrow> Inl unauthorized
   | Some tok \<Rightarrow> (case noti_secret C L tok of
        Inl _ \<Rightarrow> Inl unauthorized
      | Inr secret \<Rightarrow> (case jl_verify L \<lparr>vo_secret = secret, vo_issuer = None, vo_audience = None\<rparr> t tok of
          None \<Rightarrow> Inl unauthorized
        | Some payload \<Rightarrow> noti_identity C payload)))"

text \<open>\<open>InternalJwtStrategy\<close> and its validation.\<close>

definition noti_internal_strategy :: "string option \<Rightarrow> string option \<Rightarrow> exn + verify_opts" where
  "noti_internal_strategy secret audience =
     (if \<not> truthy secret then Inl (PlainErr ''INTERNAL_JWT_SECRET is required'')
      else Inr \<lparr>vo_secret = nullish secret [], vo_issuer = None, vo_audience = Some (or_str audience ''internal'')\<rparr>)"

definition noti_internal_validate :: "json \<Rightarrow> req_user" where
  "noti_internal_validate payload = no_user\<lparr>usr_type := Some ''internal'', usr_caller := jstr (jget ''sub'' payload),
     usr_data_userId := jstr (Option.bind (jget ''data'' payload) (jget ''userId'')),
     usr_data_permVersion := jnum (Option.bind (jget ''data'' payload) (jget ''permVersion''))\<rparr>"

text \<open>The guard for user tokens alone, whose strategy this service does not register either.\<close>

definition noti_user_canActivate :: "(string \<Rightarrow> (string option \<Rightarrow> exn + req_user) option) \<Rightarrow> bool \<Rightarrow> string option \<Rightarrow> exn + authenticated" where
  "noti_user_canActivate strategies isPublic authorization =
     (if isPublic then Inr (None, None)
      else (case strategies ''user-jwt'' of
          None \<Rightarrow> Inl (PlainErr ''Unknown authentication strategy \"user-jwt\"'')
        | Some passport \<Rightarrow> map_sum id (\<lambda>user. (Some user, None)) (passport authorization)))"

section \<open>The tokens of the services\<close>

definition auth_signInternalToken :: "jwt_sign \<Rightarrow> string option \<Rightarrow> string option \<Rightarrow> string option \<Rightarrow> json \<Rightarrow> string" where
  "auth_signInternalToken jwt_sign secret issuer audience data =
     jwt_sign (JObj [(''sub'', JStr ''auth-service''), (''data'', data)])
       (or_str secret ''change-internal'') (or_str issuer ''auth-service'') (or_str audience ''internal'') ''5m''"

definition noti_signInternalToken :: "jwt_sign \<Rightarrow> string option \<Rightarrow> string option \<Rightarrow> string option \<Rightarrow> json \<Rightarrow> string" where
  "noti_signInternalToken jwt_sign secret issuer audience data =
     jwt_sign (JObj [(''sub'', JStr ''notification-service''), (''data'', data)])
       (or_str secret ''change-internal'') (or_str issuer ''auth-service'') (or_str audience ''internal'') ''5m''"

section \<open>The two services agree\<close>

definition config_of :: "noti_config \<Rightarrow> combined_config" where
  "config_of C = \<lparr>cc_internalSecret = nc_internalSecret C, cc_userSecret = nc_userSecret C,
     cc_internalAudience = nc_internalAudience C, cc_userAudience = nc_userAudience C\<rparr>"

lemma strategies_start_alike:
  "map_sum id config_of (noti_strategy_new is us ia ua iss) = combined_new is us ia ua"
  by (simp add: noti_strategy_new_def combined_new_def config_of_def)

lemma noti_secret_alike: "noti_secret C L tok = secretOrKeyProvider (config_of C) L tok"
proof (cases "jl_decode L tok")
  case (Some d)
  then show ?thesis
    by (cases "jget ''aud'' d"; cases "the (jget ''aud'' d)")
      (auto simp: noti_secret_def secretOrKeyProvider_def config_of_def Let_def aud_text_def)
qed (simp add: noti_secret_def secretOrKeyProvider_def)

lemma noti_identity_alike: "noti_identity C payload = noti_validate (config_of C) payload"
  by (auto simp: noti_identity_def noti_validate_def config_of_def split: option.split json.split)

lemma noti_copies:
  "noti_internal_strategy = internal_strategy" "noti_internal_validate = internal_user" "noti_user_canActivate = user_canActivate"
  by (intro ext; auto simp: noti_internal_strategy_def internal_strategy_def noti_internal_validate_def internal_user_def
      noti_user_canActivate_def user_canActivate_def split: option.split sum.split)+

lemma noti_passport_alike: "noti_passport C L t a = passport_combined (config_of C) L (noti_validate (config_of C)) t a"
  unfolding noti_passport_def passport_combined_def noti_secret_alike noti_identity_alike ..

text \<open>
  C33. The copied authentication has not drifted: started from the same environment, the auth and the
  notification service accept the same tokens, refuse the others with the same error, agree on
  which requests are internal, and their permission guards check the same user id and the same
  version, where a version 0 counts as none.
\<close>
theorem services_agree:
  assumes "noti_strategy_new is us ia ua iss = Inr N" and "combined_new is us ia ua = Inr C"
  shows "(case (noti_passport N L t a, passport_combined C L (auth_validate C) t a) of
      (Inr n, Inr u) \<Rightarrow> (usr_type n = Some ''internal'') = (usr_type u = Some ''internal'')
        \<and> guard_userId n = guard_userId u
        \<and> (usr_type n \<noteq> Some ''internal'' \<longrightarrow> nullish (guard_permVersion n) 0 = nullish (guard_permVersion u) 0)
    | (Inl e, Inl e') \<Rightarrow> e = e' | _ \<Rightarrow> False)"
proof -
  have C: "C = config_of N" using strategies_start_alike [of "is" us ia ua iss] assms by simp
  show ?thesis
    unfolding C noti_passport_alike
    by (auto simp: passport_combined_def noti_validate_def auth_validate_def guard_userId_def guard_permVersion_def
        internal_user_def no_user_def split: option.split sum.split)
qed

text \<open>Tokens of the two services differ in their subject only, and the notification service names the auth service as issuer.\<close>

lemma internal_tokens:
  "auth_signInternalToken sg s i a d = sg (JObj [(''sub'', JStr ''auth-service''), (''data'', d)])
      (or_str s ''change-internal'') (or_str i ''auth-service'') (or_str a ''internal'') ''5m''"
  "noti_signInternalToken sg s None a d = sg (JObj [(''sub'', JStr ''notification-service''), (''data'', d)])
      (or_str s ''change-internal'') ''auth-service'' (or_str a ''internal'') ''5m''"
  by (simp_all add: auth_signInternalToken_def noti_signInternalToken_def)

section \<open>Witness\<close>

theorem services_agree_witness:
  "\<exists>n u. noti_passport \<lparr>nc_internalSecret = ''is'', nc_internalAudience = ''internal'', nc_userSecret = ''us'',
        nc_userIssuer = ''auth-service'', nc_userAudience = ''api''\<rparr> sample_lib 0 (Some ''u'') = Inr n
     \<and> passport_combined sample_cc sample_lib (auth_validate sample_cc) 0 (Some ''u'') = Inr u \<and> guard_userId n = guard_userId u"
proof -
  let ?N = "\<lparr>nc_internalSecret = ''is'', nc_internalAudience = ''internal'', nc_userSecret = ''us'',
        nc_userIssuer = ''auth-service'', nc_userAudience = ''api''\<rparr>"
  let ?n = "no_user\<lparr>usr_type := Some ''user'', usr_userId := Some ''u1'', usr_permVersion := Some 1\<rparr>"
  have N: "noti_strategy_new (Some ''is'') (Some ''us'') None None None = Inr ?N" by code_simp
  have C: "combined_new (Some ''is'') (Some ''us'') None None = Inr sample_cc" by code_simp
  have n: "noti_passport ?N sample_lib 0 (Some ''u'') = Inr ?n" by code_simp
  from services_agree [OF N C, of sample_lib 0 "Some ''u''"] show ?thesis
    unfolding n by (auto split: sum.splits)
qed

end
