(* ===== verification/RateLimiter.thy ===== *)
theory RateLimiter
  imports FixedWindow Redis Errors
begin

text \<open>
  \<open>packages/common/src/rate-limiter\<close>: the Lua script (\<open>lua_script\<close>), the service around it
  (\<open>check\<close>, \<open>reset\<close>) and the guard that applies the rules of a route to a request
  (\<open>canActivate_rate\<close>, with \<open>buildKey\<close> and \<open>extractIp\<close>). The script of one key is an instance
  of the fixed-window contract (\<open>interpretation lua\<close>), from which the bounds on the traffic of a
  key follow. SHA-256 is a parameter of \<open>buildKey\<close>.
\<close>

section \<open>The script\<close>

text \<open>\<open>Inl\<close> is an error raised by a command; the clock does not move while a script runs.\<close>

definition lua_script :: "int \<Rightarrow> string \<Rightarrow> int \<Rightarrow> int \<Rightarrow> redis \<Rightarrow> string + (int \<times> int \<times> int) \<times> redis" where
  "lua_script t key limit window r = (case redis_get t key r of
     Inl e \<Rightarrow> Inl e
   | Inr got \<Rightarrow>
      (let current = nullish got 0 in
       if limit \<le> current then
         (let ttl = redis_pttl t key r
          in Inr ((0, current, if ttl < 0 then window else ttl), r))
       else (case redis_incr t key r of
          Inl e \<Rightarrow> Inl e
        | Inr (count, r1) \<Rightarrow>
           (let r2 = (if count = 1 then redis_pexpire t key window r1 else r1)
            in Inr ((1, count, redis_pttl t key r2), r2)))))"

section \<open>The service\<close>

record rate_result =
  rr_allowed :: bool
  rr_count :: int
  rr_remaining :: int
  rr_retryAfterMs :: int

record rl_config =
  rl_keyPrefix :: string
  rl_disabled :: bool

text \<open>The constructor's defaults for \<open>keyPrefix\<close> and \<open>disabled\<close>.\<close>

definition rate_limiter_new :: "string option \<Rightarrow> bool option \<Rightarrow> rl_config" where
  "rate_limiter_new keyPrefix disabled =
     \<lparr>rl_keyPrefix = nullish keyPrefix ''rl'', rl_disabled = nullish disabled False\<rparr>"

definition full_key :: "rl_config \<Rightarrow> string \<Rightarrow> string" where
  "full_key cfg key = rl_keyPrefix cfg @ '':'' @ key"

definition fail_open :: "int \<Rightarrow> rate_result" where
  "fail_open limit = \<lparr>rr_allowed = True, rr_count = 0, rr_remaining = limit, rr_retryAfterMs = 0\<rparr>"

text \<open>\<open>up\<close>: whether the server answered; without an answer \<open>eval\<close> rejects.\<close>

definition check ::
  "rl_config \<Rightarrow> bool \<Rightarrow> int \<Rightarrow> string \<Rightarrow> int \<Rightarrow> int \<Rightarrow> redis \<Rightarrow> rate_result \<times> redis" where
  "check cfg up t key limit windowSeconds r =
     (if rl_disabled cfg then (fail_open limit, r)
      else if \<not> up then (fail_open limit, r)
      else (case lua_script t (full_key cfg key) limit (windowSeconds * 1000) r of
          Inl _ \<Rightarrow> (fail_open limit, r)
        | Inr ((allowed, count, ttlMs), r') \<Rightarrow>
            (\<lparr>rr_allowed = (allowed = 1), rr_count = count, rr_remaining = max 0 (limit - count),
              rr_retryAfterMs = (if allowed = 1 then 0 else max 0 ttlMs)\<rparr>, r')))"

definition reset :: "rl_config \<Rightarrow> string \<Rightarrow> redis \<Rightarrow> redis" where
  "reset cfg key r = redis_del (full_key cfg key) r"

section \<open>The guard\<close>

record rate_rule =
  ru_prefix :: string
  ru_limit :: int
  ru_window :: int
  ru_keySource :: string
  ru_message :: "string option"

datatype forwarded = NoForwarded | ForwardedStr string | ForwardedList "string list"

record rate_request =
  rq_forwarded :: forwarded
  rq_ip :: "string option"
  rq_remoteAddress :: "string option"
  rq_userId :: "string option"
  rq_sub :: "string option"
  rq_body :: "json option"

definition extractIp :: "rate_request \<Rightarrow> string" where
  "extractIp req = (case rq_forwarded req of
     ForwardedStr s \<Rightarrow> trim (hd (split_on CHR '','' s))
   | ForwardedList xs \<Rightarrow> (case xs of [] \<Rightarrow> ''unknown'' | x # _ \<Rightarrow> or_str (Some (trim x)) ''unknown'')
   | NoForwarded \<Rightarrow> or_str (rq_ip req) (or_str (rq_remoteAddress req) ''unknown''))"

definition body_identifier :: "(string \<Rightarrow> string) \<Rightarrow> json option \<Rightarrow> string" where
  "body_identifier sha256_hex v = (case v of None \<Rightarrow> ''empty''
     | Some j \<Rightarrow> if json_truthy j then take 16 (sha256_hex (trim (toLowerCase (to_str j)))) else ''empty'')"

definition buildKey :: "(string \<Rightarrow> string) \<Rightarrow> rate_request \<Rightarrow> rate_rule \<Rightarrow> string" where
  "buildKey sha256_hex req rule =
     (let source = ru_keySource rule;
          identifier =
            (if source = ''ip'' then extractIp req
             else if source = ''userId'' then or_str (rq_userId req) (or_str (rq_sub req) ''anonymous'')
             else if starts_with ''body.'' source then
               body_identifier sha256_hex (Option.bind (rq_body req) (jget (drop 5 source)))
             else ''unknown'')
      in ru_prefix rule @ '':'' @ identifier)"

record rate_headers =
  rh_limit :: int
  rh_remaining :: int
  rh_retryAfter :: "int option"

text \<open>\<open>Math.ceil(ms / 1000)\<close>.\<close>

definition ceil_seconds :: "int \<Rightarrow> int" where
  "ceil_seconds ms = (ms + 999) div 1000"

definition setHeaders :: "int \<Rightarrow> int \<Rightarrow> int \<Rightarrow> rate_headers" where
  "setHeaders limit remaining retryAfterMs =
     \<lparr>rh_limit = limit, rh_remaining = remaining,
      rh_retryAfter = (if 0 < retryAfterMs then Some (ceil_seconds retryAfterMs) else None)\<rparr>"

text \<open>The state of one pass of the guard: the server, and the headers set on the response.\<close>

record guard_state =
  gs_redis :: redis
  gs_headers :: "rate_headers option"

definition check_rule ::
  "rl_config \<Rightarrow> bool \<Rightarrow> int \<Rightarrow> string \<Rightarrow> rate_rule \<Rightarrow> (guard_state, exn, rate_result) prog" where
  "check_rule cfg up t key rule = (\<lambda>s.
     let (res, r') = check cfg up t key (ru_limit rule) (ru_window rule) (gs_redis s)
     in (Inr res, s\<lparr>gs_redis := r'\<rparr>))"

definition put_headers :: "rate_headers \<Rightarrow> (guard_state, exn, unit) prog" where
  "put_headers h = modify (\<lambda>s. s\<lparr>gs_headers := Some h\<rparr>)"

definition too_many :: "rate_rule \<Rightarrow> exn" where
  "too_many rule = service_exn TOO_MANY_REQUESTS 429
     (or_str (ru_message rule) ''Too many requests, please try again later'')"

text \<open>The loop over the rules; \<open>best\<close> is the most restrictive result so far.\<close>

fun guard_loop ::
  "(string \<Rightarrow> string) \<Rightarrow> rl_config \<Rightarrow> bool \<Rightarrow> int \<Rightarrow> rate_request \<Rightarrow> rate_rule list
     \<Rightarrow> (rate_rule \<times> rate_result) option
     \<Rightarrow> (guard_state, exn, (rate_rule \<times> rate_result) option) prog" where
  "guard_loop sha cfg up t req [] best = ret best"
| "guard_loop sha cfg up t req (rule # rules) best =
     bind (check_rule cfg up t (buildKey sha req rule) rule) (\<lambda>res.
       let best' = (case best of None \<Rightarrow> Some (rule, res)
             | Some (_, b) \<Rightarrow> if rr_remaining res < rr_remaining b then Some (rule, res) else best)
       in if \<not> rr_allowed res then
            andthen (put_headers (setHeaders (ru_limit rule) 0 (rr_retryAfterMs res)))
                    (throw (too_many rule))
          else guard_loop sha cfg up t req rules best')"

definition canActivate_rate ::
  "(string \<Rightarrow> string) \<Rightarrow> rl_config \<Rightarrow> bool \<Rightarrow> int \<Rightarrow> rate_request \<Rightarrow> rate_rule list option
     \<Rightarrow> (guard_state, exn, bool) prog" where
  "canActivate_rate sha cfg up t req rules =
     (case rules of None \<Rightarrow> ret True
      | Some rs \<Rightarrow>
         if rs = [] then ret True
         else bind (guard_loop sha cfg up t req rs None) (\<lambda>best.
           (case best of None \<Rightarrow> ret True
            | Some (rule, res) \<Rightarrow>
               andthen (put_headers (setHeaders (ru_limit rule) (rr_remaining res) (rr_retryAfterMs res)))
                       (ret True))))"

section \<open>The script keeps the fixed-window contract\<close>

definition key_window :: "string \<Rightarrow> redis \<Rightarrow> (int \<times> int) option" where
  "key_window k r = (case r k of Some (RCount c, Some e) \<Rightarrow> Some (c, e) | _ \<Rightarrow> None)"

definition key_ok :: "string \<Rightarrow> redis \<Rightarrow> bool" where
  "key_ok k r = (case r k of None \<Rightarrow> True | Some (RCount c, Some e) \<Rightarrow> 1 \<le> c | _ \<Rightarrow> False)"

definition script_hit :: "string \<Rightarrow> nat \<Rightarrow> int \<Rightarrow> int \<Rightarrow> redis \<Rightarrow> bool \<times> redis" where
  "script_hit k limit window t r = (case lua_script t k (int limit) window r of
     Inl _ \<Rightarrow> (True, r) | Inr ((a, c, ttl), r') \<Rightarrow> (a = 1, r'))"

lemma key_ok_cases:
  assumes "key_ok k r"
  obtains (absent) "r k = None" | (counter) c e where "r k = Some (RCount c, Some e)" "1 \<le> c"
  using assms that by (auto simp: key_ok_def split: option.splits prod.splits rval.splits)

lemmas script_defs = script_hit_def lua_script_def redis_get_def redis_incr_def redis_pexpire_def
  key_window_def rlive_def live_def

lemma script_key_ok: "key_ok k r \<Longrightarrow> key_ok k (snd (script_hit k limit window t r))"
  by (erule key_ok_cases) (auto simp: script_defs key_ok_def Let_def)

interpretation lua: window_limiter "key_ok k" "key_window k" "script_hit k limit window" limit window
  for k limit window
proof
  fix s t
  show "key_ok k s \<Longrightarrow> key_ok k (snd (script_hit k limit window t s))"
    by (rule script_key_ok)
next
  fix s t
  assume "key_ok k s" "0 < limit" "0 < window" "live (key_window k s) t = None"
  then show "fst (script_hit k limit window t s) \<and>
      key_window k (snd (script_hit k limit window t s)) = Some (1, t + window)"
    by (auto elim!: key_ok_cases simp: script_defs Let_def split: if_splits)
next
  fix s t c e
  assume "key_ok k s" "0 < limit" "0 < window" "live (key_window k s) t = Some (c, e)" "c < int limit"
  then show "fst (script_hit k limit window t s) \<and>
      key_window k (snd (script_hit k limit window t s)) = Some (c + 1, e)"
    by (auto elim!: key_ok_cases simp: script_defs Let_def split: if_splits)
next
  fix s t c e
  assume "key_ok k s" "0 < limit" "0 < window" "live (key_window k s) t = Some (c, e)" "int limit \<le> c"
  then show "\<not> fst (script_hit k limit window t s) \<and>
      key_window k (snd (script_hit k limit window t s)) = key_window k s"
    by (auto elim!: key_ok_cases simp: script_defs Let_def split: if_splits)
qed

section \<open>Traffic on many keys\<close>

text \<open>A call of \<open>check\<close>: its instant, its key, and the limit and window (in seconds) of its rule.\<close>

type_synonym call = "int \<times> string \<times> nat \<times> int"

primrec traffic :: "rl_config \<Rightarrow> redis \<Rightarrow> call list \<Rightarrow> (int \<times> string \<times> bool) list" where
  "traffic cfg r [] = []"
| "traffic cfg r (c # cs) = (case c of (t, key, limit, window) \<Rightarrow>
     (let (res, r') = check cfg True t key (int limit) window r
      in (t, key, rr_allowed res) # traffic cfg r' cs))"

definition times_of :: "string \<Rightarrow> call list \<Rightarrow> int list" where
  "times_of k cs = map fst (filter (\<lambda>(t, key, l, w). key = k) cs)"

definition outcomes_of :: "string \<Rightarrow> (int \<times> string \<times> bool) list \<Rightarrow> (int \<times> bool) list" where
  "outcomes_of k tr = map (\<lambda>(t, key, ok). (t, ok)) (filter (\<lambda>(t, key, ok). key = k) tr)"

definition rule_of_key :: "string \<Rightarrow> nat \<Rightarrow> int \<Rightarrow> call list \<Rightarrow> bool" where
  "rule_of_key k limit window cs \<longleftrightarrow> list_all (\<lambda>(t, key, l, w). key = k \<longrightarrow> l = limit \<and> w = window) cs"

lemma full_key_inject [simp]: "full_key cfg k = full_key cfg k' \<longleftrightarrow> k = k'"
  by (simp add: full_key_def)

lemma check_script:
  assumes "\<not> rl_disabled cfg"
  obtains res where
    "check cfg True t key (int limit) window r =
       (res, snd (script_hit (full_key cfg key) limit (window * 1000) t r))"
    "rr_allowed res = fst (script_hit (full_key cfg key) limit (window * 1000) t r)"
proof (cases "lua_script t (full_key cfg key) (int limit) (window * 1000) r")
  case (Inl e)
  show thesis
    by (rule that [of "fail_open (int limit)"])
      (simp_all add: assms Inl check_def script_hit_def fail_open_def)
next
  case (Inr p)
  obtain a c ttl r' where "p = ((a, c, ttl), r')" by (metis prod.exhaust)
  with Inr show thesis
    by (intro that [of "fst (check cfg True t key (int limit) window r)"])
      (simp_all add: assms check_def script_hit_def)
qed

text \<open>The script is an operation on one slot of the keyspace.\<close>

lemma script_slot:
  "script_hit k limit window t r =
     (fst (script_hit k limit window t (Map.empty(k := r k))),
      r(k := snd (script_hit k limit window t (Map.empty(k := r k))) k))"
proof (cases "r k")
  case None
  then show ?thesis by (auto simp: script_defs Let_def fun_eq_iff)
next
  case (Some vx)
  obtain v x where vx: "vx = (v, x)" by (cases vx)
  show ?thesis
  proof (cases v)
    case (RCount c)
    with Some vx show ?thesis by (cases x) (auto simp: script_defs Let_def fun_eq_iff)
  next
    case (RHash h)
    with Some vx show ?thesis by (cases x) (auto simp: script_defs Let_def fun_eq_iff)
  qed
qed

lemma script_cong:
  assumes "r k = r' k"
  shows "fst (script_hit k limit window t r) = fst (script_hit k limit window t r') \<and>
    snd (script_hit k limit window t r) k = snd (script_hit k limit window t r') k"
proof -
  let ?q = "script_hit k limit window t (Map.empty(k := r' k))"
  have "script_hit k limit window t r = (fst ?q, r(k := snd ?q k))"
    using script_slot [of k limit window t r] assms by simp
  moreover have "script_hit k limit window t r' = (fst ?q, r'(k := snd ?q k))"
    by (rule script_slot)
  ultimately show ?thesis by (simp only: fst_conv snd_conv fun_upd_same simp_thms)
qed

lemma script_frame: "k \<noteq> k' \<Longrightarrow> snd (script_hit k' limit window t r) k = r k"
  using script_slot [of k' limit window t r] by (metis fun_upd_other snd_conv)

lemma run_hits_cong:
  "r k = r' k \<Longrightarrow> run_hits (script_hit k limit window) r ts = run_hits (script_hit k limit window) r' ts"
proof (induction ts arbitrary: r r')
  case (Cons t ts)
  note same = script_cong [of r k r', OF Cons.prems, of limit window t]
  have "run_hits (script_hit k limit window) (snd (script_hit k limit window t r)) ts =
      run_hits (script_hit k limit window) (snd (script_hit k limit window t r')) ts"
    by (rule Cons.IH) (rule conjunct2 [OF same])
  with conjunct1 [OF same] show ?case by (simp only: run_hits.simps)
qed simp

text \<open>The calls on one key do not see the calls on the others.\<close>

lemma traffic_projection:
  assumes "\<not> rl_disabled cfg" and "rule_of_key k limit window cs"
  shows "outcomes_of k (traffic cfg r cs) =
    run_hits (script_hit (full_key cfg k) limit (window * 1000)) r (times_of k cs)"
  using assms(2)
proof (induction cs arbitrary: r)
  case Nil
  then show ?case by (simp add: outcomes_of_def times_of_def)
next
  case (Cons c cs)
  obtain t key l w where c: "c = (t, key, l, w)" by (cases c) auto
  have rule: "rule_of_key k limit window cs" using Cons.prems by (simp add: rule_of_key_def)
  obtain res where res: "check cfg True t key (int l) w r =
      (res, snd (script_hit (full_key cfg key) l (w * 1000) t r))"
    "rr_allowed res = fst (script_hit (full_key cfg key) l (w * 1000) t r)"
    using check_script [OF assms(1)] by blast
  show ?case
  proof (cases "key = k")
    case True
    with Cons.prems c have "l = limit" "w = window" by (simp_all add: rule_of_key_def)
    with True c res Cons.IH [OF rule] show ?thesis
      by (simp add: outcomes_of_def times_of_def)
  next
    case False
    have "run_hits (script_hit (full_key cfg k) limit (window * 1000))
        (snd (script_hit (full_key cfg key) l (w * 1000) t r)) (times_of k cs) =
      run_hits (script_hit (full_key cfg k) limit (window * 1000)) r (times_of k cs)"
      using False by (intro run_hits_cong script_frame) simp
    with False c res Cons.IH [OF rule] show ?thesis
      by (simp add: outcomes_of_def times_of_def)
  qed
qed

lemma sorted_times: "sorted (map fst cs) \<Longrightarrow> sorted (times_of k cs)"
  unfolding times_of_def by (rule sorted_filter)

text \<open>
  C8. The limit holds under any traffic: however the calls of \<open>check\<close> on all keys interleave, no
  interval as long as the window of a key's rule (its two ends included) has more than twice the
  rule's limit of allowed calls on that key.
\<close>
theorem rate_burst_bound:
  assumes "\<not> rl_disabled cfg" and "0 < limit" and "0 < window"
    and "sorted (map fst cs)" and "rule_of_key k limit window cs" and "r (full_key cfg k) = None"
  shows "allowed_in a (a + window * 1000) (outcomes_of k (traffic cfg r cs)) \<le> 2 * limit"
  unfolding traffic_projection [OF assms(1,5)]
  by (rule lua.burst_bound)
    (use assms sorted_times in \<open>auto simp: key_ok_def key_window_def lua.room_def\<close>)

theorem rate_burst_bound_witness:
  "allowed_in 0 60000 (outcomes_of ''a'' (traffic (rate_limiter_new None None) Map.empty
     [(0, ''a'', 1, 60), (5, ''b'', 1, 60), (10, ''a'', 1, 60)])) \<le> 2 * 1"
  using rate_burst_bound [of "rate_limiter_new None None" 1 60
      "[(0, ''a'', 1, 60), (5, ''b'', 1, 60), (10, ''a'', 1, 60)]" "''a''" Map.empty 0]
  by (simp add: rate_limiter_new_def rule_of_key_def)

text \<open>
  A refusal is always justified: when \<open>check\<close> refuses a call on a key whose history started
  empty, the limit's number of calls on that key were allowed within the window before it.
\<close>
theorem rate_refusal_justified:
  assumes "\<not> rl_disabled cfg" and "0 < limit" and "0 < window"
    and "sorted (map fst cs @ [t])" and "rule_of_key k limit window (cs @ [(t, k, limit, window)])"
    and "r (full_key cfg k) = None"
    and "last (traffic cfg r (cs @ [(t, k, limit, window)])) = (t, k, False)"
  shows "limit \<le> allowed_in (t - window * 1000) t (outcomes_of k (traffic cfg r cs))"
proof -
  let ?h = "script_hit (full_key cfg k) limit (window * 1000)"
  have rule: "rule_of_key k limit window cs" using assms(5) by (simp add: rule_of_key_def)
  have times: "times_of k (cs @ [(t, k, limit, window)]) = times_of k cs @ [t]"
    by (simp add: times_of_def)
  have sorted: "sorted (times_of k cs @ [t])"
    using sorted_times [of "cs @ [(t, k, limit, window)]" k] assms(4) times by simp
  have ne: "traffic cfg r (cs @ [c]) \<noteq> []" for c r by (cases cs) (auto simp: split_def Let_def)
  have "last (outcomes_of k (traffic cfg r (cs @ [(t, k, limit, window)]))) = (t, False)"
    using assms(7) ne [of r "(t, k, limit, window)"]
    by (subst append_butlast_last_id [symmetric, OF ne]) (simp add: outcomes_of_def)
  then have "\<not> fst (?h t (after_hits ?h r (times_of k cs)))"
    unfolding traffic_projection [OF assms(1,5)] times by (simp add: lua.outcomes_append)
  from lua.refusal_justified [OF _ _ _ sorted _ this] assms(2,3,6)
  show ?thesis by (simp add: traffic_projection [OF assms(1) rule] key_ok_def key_window_def)
qed

theorem rate_refusal_justified_witness:
  "1 \<le> allowed_in (10 - 60 * 1000) 10
     (outcomes_of ''a'' (traffic (rate_limiter_new None None) Map.empty [(0, ''a'', 1, 60)]))"
  by (rule rate_refusal_justified [of "rate_limiter_new None None" 1 60 "[(0, ''a'', 1, 60)]" 10 "''a''" Map.empty])
    (simp_all add: rate_limiter_new_def rule_of_key_def check_def full_key_def lua_script_def redis_get_def
      redis_incr_def redis_pexpire_def redis_pttl_def rlive_def Let_def)

text \<open>What the answer to a refused call announces: the end of the window, which stays as it is.\<close>

lemma refused_state:
  assumes "\<not> rl_disabled cfg" and "0 < limit" and "0 < window" and "key_ok (full_key cfg k) r"
    and "check cfg True t k (int limit) window r = (res, r')" and "\<not> rr_allowed res"
  obtains c where "r' = r" "key_window (full_key cfg k) r = Some (c, t + rr_retryAfterMs res)" "int limit \<le> c"
  using assms(4)
proof (cases rule: key_ok_cases)
  case absent
  then have "rr_allowed res"
    using assms(1,2,5) by (auto simp: check_def lua_script_def redis_get_def redis_incr_def redis_pexpire_def Let_def
        split: if_splits)
  with assms(6) show thesis by simp
next
  case (counter c e)
  then show thesis
    using assms(1-3,5,6) that
    by (auto simp: check_def lua_script_def redis_get_def redis_incr_def redis_pexpire_def redis_pttl_def rlive_def key_window_def
        Let_def max_def split: if_splits)
qed

text \<open>
  C29. A refused client is served again, and exactly when it was told: after a refusal, however often
  the key is tried in between, every call up to the announced instant is refused without pushing
  that instant away, and the first call after it is allowed.
\<close>
theorem rate_recovers:
  assumes "\<not> rl_disabled cfg" and "0 < limit" and "0 < window" and "key_ok (full_key cfg k) r"
    and "check cfg True t k (int limit) window r = (res, r')" and "\<not> rr_allowed res"
    and "rule_of_key k limit window cs" and "x \<in> set (times_of k cs)" and "t + rr_retryAfterMs res < x"
  shows "\<exists>early y late. outcomes_of k (traffic cfg r' cs) = map (\<lambda>z. (z, False)) early @ (y, True) # late
    \<and> (\<forall>z\<in>set early. z \<le> t + rr_retryAfterMs res) \<and> t + rr_retryAfterMs res < y"
proof (rule refused_state [OF assms(1-6)])
  fix c assume c: "r' = r" "key_window (full_key cfg k) r = Some (c, t + rr_retryAfterMs res)" "int limit \<le> c"
  have "0 < window * 1000" using assms(3) by simp
  from lua.recovers [OF assms(4,2) this c(2,3) assms(8,9)] show ?thesis
    by (simp add: traffic_projection [OF assms(1,7)] c(1))
qed

theorem rate_recovers_witness:
  "\<exists>early y late. outcomes_of ''a'' (traffic (rate_limiter_new None None) [''rl:a'' \<mapsto> (RCount 1, Some 60000)]
      [(40, ''a'', 1, 60), (60001, ''a'', 1, 60)]) = map (\<lambda>z. (z, False)) early @ (y, True) # late \<and> 60000 < y"
proof -
  let ?cfg = "rate_limiter_new None None" and ?r = "[''rl:a'' \<mapsto> (RCount 1, Some 60000)]"
  let ?res = "\<lparr>rr_allowed = False, rr_count = 1, rr_remaining = 0, rr_retryAfterMs = 59970\<rparr>"
  have key: "full_key ?cfg ''a'' = ''rl:a''" by (simp add: full_key_def rate_limiter_new_def)
  have cfg: "\<not> rl_disabled ?cfg" "0 < (1::nat)" "0 < (60::int)" "key_ok (full_key ?cfg ''a'') ?r"
    by (simp_all add: key) (simp_all add: rate_limiter_new_def key_ok_def)
  have refused: "check ?cfg True 30 ''a'' (int 1) 60 ?r = (?res, ?r)"
    using cfg(1) by (simp add: check_def key lua_script_def redis_get_def rlive_def redis_pttl_def)
  have later: "\<not> rr_allowed ?res" "rule_of_key ''a'' 1 60 [(40, ''a'', 1, 60), (60001, ''a'', 1, 60)]"
    "60001 \<in> set (times_of ''a'' [(40, ''a'', 1, 60), (60001, ''a'', 1, 60)])" "30 + rr_retryAfterMs ?res < 60001"
    by (simp_all add: rule_of_key_def times_of_def)
  from rate_recovers [OF cfg refused later] show ?thesis by auto
qed

section \<open>The guard over several rules\<close>

text \<open>The checks of a list of rules, one after the other, on one server.\<close>

primrec run_rules ::
  "(string \<Rightarrow> string) \<Rightarrow> rl_config \<Rightarrow> bool \<Rightarrow> int \<Rightarrow> rate_request \<Rightarrow> rate_rule list \<Rightarrow> redis
     \<Rightarrow> rate_result list \<times> redis" where
  "run_rules sha cfg up t req [] r = ([], r)"
| "run_rules sha cfg up t req (rule # rules) r =
     (let (res, r') = check cfg up t (buildKey sha req rule) (ru_limit rule) (ru_window rule) r;
          (results, r'') = run_rules sha cfg up t req rules r'
      in (res # results, r''))"

definition pick_best ::
  "(rate_rule \<times> rate_result) option \<Rightarrow> rate_rule \<Rightarrow> rate_result \<Rightarrow> (rate_rule \<times> rate_result) option" where
  "pick_best best rule res = (case best of None \<Rightarrow> Some (rule, res)
     | Some (_, b) \<Rightarrow> if rr_remaining res < rr_remaining b then Some (rule, res) else best)"

lemma guard_loop_Cons:
  "guard_loop sha cfg up t req (rule # rules) best s =
     (case check cfg up t (buildKey sha req rule) (ru_limit rule) (ru_window rule) (gs_redis s) of
       (res, r') \<Rightarrow>
         if rr_allowed res then guard_loop sha cfg up t req rules (pick_best best rule res) (s\<lparr>gs_redis := r'\<rparr>)
         else (Inl (too_many rule),
           s\<lparr>gs_redis := r', gs_headers := Some (setHeaders (ru_limit rule) 0 (rr_retryAfterMs res))\<rparr>))"
  by (simp add: bind_run andthen_run check_rule_def put_headers_def pick_best_def Let_def
      split: prod.splits)

declare guard_loop.simps(2) [simp del]

lemma pick_best_remaining:
  "pick_best best rule res = Some (ru, b) \<Longrightarrow>
   rr_remaining b = (case best of None \<Rightarrow> rr_remaining res | Some (_, b0) \<Rightarrow> min (rr_remaining b0) (rr_remaining res))"
  by (auto simp: pick_best_def split: option.splits if_splits)

lemma pick_best_Some: "\<exists>ru b. pick_best best rule res = Some (ru, b)"
  by (auto simp: pick_best_def split: option.splits)

lemma check_allowed_retry: "rr_allowed (fst (check cfg up t k l w r)) \<Longrightarrow> rr_retryAfterMs (fst (check cfg up t k l w r)) = 0"
  by (auto simp: check_def fail_open_def split: sum.splits prod.splits)

text \<open>When every check allows, the loop returns the rule with the least remaining room.\<close>

lemma guard_loop_allowed:
  assumes "run_rules sha cfg up t req rules (gs_redis s) = (results, r')" and "\<forall>x\<in>set results. rr_allowed x"
    and "\<forall>ru b. best = Some (ru, b) \<longrightarrow> rr_retryAfterMs b = 0"
  shows "\<exists>best'. guard_loop sha cfg up t req rules best s = (Inr best', s\<lparr>gs_redis := r'\<rparr>) \<and>
    (\<forall>ru b. best' = Some (ru, b) \<longrightarrow> rr_retryAfterMs b = 0 \<and>
       rr_remaining b = Min (set (map rr_remaining results) \<union> (case best of None \<Rightarrow> {} | Some (_, b0) \<Rightarrow> {rr_remaining b0}))) \<and>
    (best' = None \<longleftrightarrow> best = None \<and> rules = [])"
  using assms
proof (induction rules arbitrary: best s results)
  case Nil
  then show ?case by (auto split: option.splits)
next
  case (Cons rule rules)
  obtain res r1 where c: "check cfg up t (buildKey sha req rule) (ru_limit rule) (ru_window rule) (gs_redis s) = (res, r1)"
    by fastforce
  obtain rest r2 where rr: "run_rules sha cfg up t req rules r1 = (rest, r2)" by fastforce
  from Cons.prems(1) c rr have [simp]: "results = res # rest" "r' = r2" by auto
  have ok: "rr_allowed res" using Cons.prems(2) by simp
  with check_allowed_retry [of cfg up t "buildKey sha req rule"] c have retry: "rr_retryAfterMs res = 0"
    by (metis fst_conv)
  obtain ru0 b0 where pb: "pick_best best rule res = Some (ru0, b0)" using pick_best_Some by blast
  have "rr_retryAfterMs b0 = 0"
    using pb retry Cons.prems(3) by (auto simp: pick_best_def split: option.splits if_splits)
  with Cons.IH [of "s\<lparr>gs_redis := r1\<rparr>" rest "pick_best best rule res"] rr Cons.prems(2) pb
  obtain best' where b: "guard_loop sha cfg up t req rules (Some (ru0, b0)) (s\<lparr>gs_redis := r1\<rparr>) =
      (Inr best', s\<lparr>gs_redis := r2\<rparr>)"
    "\<forall>ru b. best' = Some (ru, b) \<longrightarrow> rr_retryAfterMs b = 0 \<and>
       rr_remaining b = Min (insert (rr_remaining b0) (set (map rr_remaining rest)))" "best' \<noteq> None"
    by auto
  have min: "Min (insert (rr_remaining b0) (set (map rr_remaining rest))) =
      Min (set (map rr_remaining results) \<union> (case best of None \<Rightarrow> {} | Some (_, b1) \<Rightarrow> {rr_remaining b1}))"
  proof (cases best)
    case None
    with pick_best_remaining [OF pb] show ?thesis by simp
  next
    case (Some rb)
    then have "rr_remaining b0 = min (rr_remaining (snd rb)) (rr_remaining res)"
      using pick_best_remaining [OF pb] by (cases rb) simp
    with Some show ?thesis
      by (cases rb; cases "rest = []") (simp_all add: Min_insert insert_commute min.left_commute min.assoc)
  qed
  from b min c ok pb show ?case by (auto simp: guard_loop_Cons)
qed

text \<open>
  A request the guard admits has passed the check of every rule, in the order of the
  decorator, and the headers report the least room any of the rules left, without
  \<open>Retry-After\<close>.
\<close>
theorem guard_admits:
  assumes "rules \<noteq> []" and "run_rules sha cfg up t req rules (gs_redis s) = (results, r')"
    and "\<forall>x\<in>set results. rr_allowed x"
  shows "\<exists>h. canActivate_rate sha cfg up t req (Some rules) s =
      (Inr True, s\<lparr>gs_redis := r', gs_headers := Some h\<rparr>) \<and>
      rh_remaining h = Min (set (map rr_remaining results)) \<and> rh_retryAfter h = None"
proof -
  obtain best where b: "guard_loop sha cfg up t req rules None s = (Inr best, s\<lparr>gs_redis := r'\<rparr>)"
    "\<forall>ru b. best = Some (ru, b) \<longrightarrow> rr_retryAfterMs b = 0 \<and> rr_remaining b = Min (set (map rr_remaining results))"
    "best \<noteq> None"
    using guard_loop_allowed [OF assms(2,3), of None] assms(1) by auto
  then obtain ru res where "best = Some (ru, res)" by auto
  with b show ?thesis
    by (intro exI [of _ "setHeaders (ru_limit ru) (rr_remaining res) 0"])
      (simp add: canActivate_rate_def assms(1) bind_run andthen_run put_headers_def setHeaders_def)
qed

text \<open>A login request under the two rules of the route, on an empty server.\<close>

definition login_request :: rate_request where
  "login_request = \<lparr>rq_forwarded = ForwardedStr ''10.0.0.1, 10.0.0.2'', rq_ip = None, rq_remoteAddress = None,
     rq_userId = None, rq_sub = None, rq_body = Some (JObj [(''email'', JStr ''A@b.c'')])\<rparr>"

definition login_rules :: "rate_rule list" where
  "login_rules =
     [\<lparr>ru_prefix = ''login:ip'', ru_limit = 10, ru_window = 60, ru_keySource = ''ip'', ru_message = None\<rparr>,
      \<lparr>ru_prefix = ''login:email'', ru_limit = 5, ru_window = 60, ru_keySource = ''body.email'', ru_message = None\<rparr>]"

lemmas login_example = login_request_def login_rules_def buildKey_def extractIp_def body_identifier_def
  starts_with_def jget_def json_truthy_def toLowerCase_def lower_char_def trim_def ws_char_def Let_def
  check_def rate_limiter_new_def full_key_def lua_script_def redis_get_def redis_incr_def
  redis_pexpire_def redis_pttl_def rlive_def

theorem guard_admits_witness:
  "\<exists>h r'. canActivate_rate id (rate_limiter_new None None) True 0 login_request (Some login_rules)
      \<lparr>gs_redis = Map.empty, gs_headers = None\<rparr> = (Inr True, \<lparr>gs_redis = r', gs_headers = Some h\<rparr>) \<and>
     rh_remaining h = 4"
proof -
  let ?s = "\<lparr>gs_redis = Map.empty, gs_headers = None\<rparr>"
  let ?run = "run_rules id (rate_limiter_new None None) True 0 login_request login_rules Map.empty"
  have run: "fst ?run = [\<lparr>rr_allowed = True, rr_count = 1, rr_remaining = 9, rr_retryAfterMs = 0\<rparr>,
      \<lparr>rr_allowed = True, rr_count = 1, rr_remaining = 4, rr_retryAfterMs = 0\<rparr>]"
    by (simp add: login_example)
  have "run_rules id (rate_limiter_new None None) True 0 login_request login_rules (gs_redis ?s) =
      (fst ?run, snd ?run)" by simp
  from guard_admits [OF _ this] run show ?thesis
    by (fastforce simp: login_rules_def)
qed

text \<open>
  A refusal stops at the first rule whose check refuses: the rules before it have been
  counted, the rules after it have not been touched, the response carries the refusing rule's
  limit with nothing remaining, and the error is a 429.
\<close>
theorem guard_refuses:
  assumes "run_rules sha cfg up t req (pre @ [rule]) (gs_redis s) = (oks @ [res], r')"
    and "\<forall>x\<in>set oks. rr_allowed x" and "\<not> rr_allowed res" and "length oks = length pre"
  shows "canActivate_rate sha cfg up t req (Some (pre @ rule # post)) s =
    (Inl (too_many rule),
     s\<lparr>gs_redis := r', gs_headers := Some (setHeaders (ru_limit rule) 0 (rr_retryAfterMs res))\<rparr>)"
proof -
  have "guard_loop sha cfg up t req (pre @ rule # post) best s =
    (Inl (too_many rule),
     s\<lparr>gs_redis := r', gs_headers := Some (setHeaders (ru_limit rule) 0 (rr_retryAfterMs res))\<rparr>)" for best
    using assms
  proof (induction pre arbitrary: s best oks)
    case Nil
    then show ?case by (auto simp: guard_loop_Cons split: prod.splits)
  next
    case (Cons p pre)
    then obtain ok oks' where [simp]: "oks = ok # oks'" by (cases oks) auto
    obtain r1 where c: "check cfg up t (buildKey sha req p) (ru_limit p) (ru_window p) (gs_redis s) = (ok, r1)"
      "run_rules sha cfg up t req (pre @ [rule]) r1 = (oks' @ [res], r')"
      using Cons.prems(1) by (auto split: prod.splits)
    with Cons.IH [of "s\<lparr>gs_redis := r1\<rparr>" oks'] Cons.prems(2-4) show ?case
      by (simp add: guard_loop_Cons)
  qed
  then show ?thesis by (simp add: canActivate_rate_def bind_run)
qed

theorem guard_refuses_witness:
  "canActivate_rate id (rate_limiter_new None None) True 0 login_request
      (Some ([] @ \<lparr>ru_prefix = ''p'', ru_limit = 0, ru_window = 60, ru_keySource = ''ip'', ru_message = None\<rparr> # login_rules))
      \<lparr>gs_redis = Map.empty, gs_headers = None\<rparr> =
    (Inl (service_exn TOO_MANY_REQUESTS 429 ''Too many requests, please try again later''),
     \<lparr>gs_redis = Map.empty, gs_headers = Some \<lparr>rh_limit = 0, rh_remaining = 0, rh_retryAfter = Some 60\<rparr>\<rparr>)"
  by (subst guard_refuses [where oks = "[]"
        and res = "\<lparr>rr_allowed = False, rr_count = 0, rr_remaining = 0, rr_retryAfterMs = 60000\<rparr>"
        and r' = Map.empty])
    (simp_all add: login_example too_many_def setHeaders_def ceil_seconds_def)

text \<open>
  Fail-open: while the server does not answer, or the limiter is disabled, the guard admits
  every request and changes nothing on the server.
\<close>
theorem guard_fails_open:
  assumes "rl_disabled cfg \<or> \<not> up"
  shows "\<exists>h. canActivate_rate sha cfg up t req rules s = (Inr True, s\<lparr>gs_headers := h\<rparr>)"
proof -
  have check: "check cfg up t k l w r = (fail_open l, r)" for k l w r
    using assms by (auto simp: check_def)
  have run: "\<exists>results. run_rules sha cfg up t req rs r = (results, r) \<and> (\<forall>x\<in>set results. rr_allowed x)" for rs r
    by (induction rs) (auto simp: check fail_open_def)
  show ?thesis
  proof (cases rules)
    case None
    then show ?thesis by (intro exI [of _ "gs_headers s"]) (simp add: canActivate_rate_def)
  next
    case (Some rs)
    show ?thesis
    proof (cases "rs = []")
      case True
      with Some show ?thesis by (intro exI [of _ "gs_headers s"]) (simp add: canActivate_rate_def)
    next
      case False
      from guard_loop_allowed [of sha cfg up t req rs s] run [of rs "gs_redis s"]
      obtain best where "guard_loop sha cfg up t req rs None s = (Inr best, s)" by fastforce
      then show ?thesis using Some False
        by (auto simp: canActivate_rate_def bind_run andthen_run put_headers_def
            split: option.splits prod.splits intro: exI [of _ "gs_headers s"])
    qed
  qed
qed

theorem guard_fails_open_witness:
  "\<exists>h. canActivate_rate id (rate_limiter_new None None) False 0 login_request (Some login_rules)
     \<lparr>gs_redis = Map.empty, gs_headers = None\<rparr> = (Inr True, \<lparr>gs_redis = Map.empty, gs_headers = h\<rparr>)"
  using guard_fails_open [of "rate_limiter_new None None" False id 0 login_request "Some login_rules"
      "\<lparr>gs_redis = Map.empty, gs_headers = None\<rparr>"] by simp

end
