(* ===== verification/Validation.thy ===== *)
theory Validation
  imports Auth Roles
begin

text \<open>
  The bodies of the auth service: the DTO classes with their decorators
  (\<open>modules/*/dto\<close>), the global \<open>ValidationPipe\<close> of \<open>main.ts\<close> that checks a body against its class,
  and the values the handlers read from a body that passed. What a decorator of \<open>class-validator\<close>
  checks, and its message, are parameters; \<open>validator_ok\<close> states what is documented of the ones
  the theorems need. A body is a JSON object.
\<close>

section \<open>Decorators and classes\<close>

datatype rule = IsString | IsNotEmpty | IsEmail | IsUUID | EachUUID4 | IsArray | MinLength nat | MaxLength nat
  | Matches "string \<Rightarrow> bool"

record dto_field =
  df_name :: string
  df_optional :: bool
  df_transform :: "(json \<Rightarrow> exn + json) option"
  df_rules :: "rule list"

record class_validator =
  cl_holds :: "rule \<Rightarrow> json option \<Rightarrow> bool"
  cl_message :: "string \<Rightarrow> rule \<Rightarrow> string"

definition field_of :: "string \<Rightarrow> rule list \<Rightarrow> dto_field" where
  "field_of n rs = \<lparr>df_name = n, df_optional = False, df_transform = None, df_rules = rs\<rparr>"

definition optional_field :: "string \<Rightarrow> rule list \<Rightarrow> dto_field" where
  "optional_field n rs = \<lparr>df_name = n, df_optional = True, df_transform = None, df_rules = rs\<rparr>"

text \<open>\<open>/^(?=.*[a-z])(?=.*[A-Z])(?=.*\d)/\<close>: the dot stops at a line terminator.\<close>

definition in_range :: "nat \<Rightarrow> nat \<Rightarrow> char \<Rightarrow> bool" where
  "in_range a b c \<longleftrightarrow> a \<le> (of_char c :: nat) \<and> (of_char c :: nat) \<le> b"

definition strong_password :: "string \<Rightarrow> bool" where
  "strong_password p = (let l = takeWhile (\<lambda>c. c \<noteq> CHR 0x0A \<and> c \<noteq> CHR 0x0D) p
     in list_ex (in_range 97 122) l \<and> list_ex (in_range 65 90) l \<and> list_ex is_digit l)"

definition RegisterDto :: "dto_field list" where
  "RegisterDto = [field_of ''email'' [IsEmail], field_of ''password'' [IsString, MinLength 8, Matches strong_password],
     optional_field ''name'' [IsString], optional_field ''phone'' [IsString]]"

text \<open>\<open>value.toLowerCase().trim()\<close> throws on a value that is not a string.\<close>

definition lower_trim :: "json \<Rightarrow> exn + json" where
  "lower_trim v = (case v of JStr s \<Rightarrow> Inr (JStr (trim (toLowerCase s)))
     | _ \<Rightarrow> Inl (PlainErr ''value.toLowerCase is not a function''))"

definition VerifyRegisterDto :: "dto_field list" where
  "VerifyRegisterDto = [(field_of ''email'' [IsEmail, IsNotEmpty])\<lparr>df_transform := Some lower_trim\<rparr>,
     field_of ''code'' [IsString, IsNotEmpty]]"

definition CreateRoleDto :: "dto_field list" where
  "CreateRoleDto = [field_of ''name'' [IsString, MaxLength 100], optional_field ''description'' [IsString, MaxLength 500],
     optional_field ''permissionIds'' [IsArray, EachUUID4]]"

text \<open>\<open>PartialType\<close>.\<close>

definition UpdateRoleDto :: "dto_field list" where
  "UpdateRoleDto = map (\<lambda>f. f\<lparr>df_optional := True\<rparr>) CreateRoleDto"

definition AssignRoleDto :: "dto_field list" where
  "AssignRoleDto = [field_of ''userId'' [IsUUID], field_of ''roleName'' [IsString, IsNotEmpty, MaxLength 64]]"

section \<open>The pipe\<close>

definition members :: "json \<Rightarrow> (string \<times> json) list" where
  "members j = (case j of JObj kvs \<Rightarrow> kvs | _ \<Rightarrow> [])"

definition transform_of :: "dto_field list \<Rightarrow> string \<Rightarrow> json \<Rightarrow> exn + json" where
  "transform_of fs k v = (case List.find (\<lambda>f. df_name f = k) fs of None \<Rightarrow> Inr v
     | Some f \<Rightarrow> (case df_transform f of None \<Rightarrow> Inr v | Some g \<Rightarrow> g v))"

fun transform_members :: "dto_field list \<Rightarrow> (string \<times> json) list \<Rightarrow> exn + (string \<times> json) list" where
  "transform_members fs [] = Inr []"
| "transform_members fs ((k, v) # kvs) = (case transform_of fs k v of Inl e \<Rightarrow> Inl e
     | Inr w \<Rightarrow> (case transform_members fs kvs of Inl e \<Rightarrow> Inl e | Inr r \<Rightarrow> Inr ((k, w) # r)))"

text \<open>\<open>forbidNonWhitelisted\<close>, and \<open>IsOptional\<close>: no rule is checked on \<open>undefined\<close> and \<open>null\<close>.\<close>

definition unknown_members :: "dto_field list \<Rightarrow> json \<Rightarrow> string list" where
  "unknown_members fs j = filter (\<lambda>k. k \<notin> df_name ` set fs) (map fst (members j))"

definition broken :: "class_validator \<Rightarrow> dto_field list \<Rightarrow> json \<Rightarrow> (string \<times> rule) list" where
  "broken cv fs j = concat (map (\<lambda>f. let v = jget (df_name f) j in
     if df_optional f \<and> (v = None \<or> v = Some JNull) then []
     else map (\<lambda>r. (df_name f, r)) (filter (\<lambda>r. \<not> cl_holds cv r v) (rev (df_rules f)))) fs)"

definition validation_failed :: "string list \<Rightarrow> exn" where
  "validation_failed msgs = HttpExc \<lparr>he_badRequest = True, he_status = 400,
     he_response = JObj [(''message'', JArr (map JStr msgs)), (''error'', JStr ''Bad Request''), (''statusCode'', JNum 400)],
     he_message = ''Bad Request Exception''\<rparr>"

definition validate_body :: "class_validator \<Rightarrow> dto_field list \<Rightarrow> json \<Rightarrow> exn + json" where
  "validate_body cv fs body = (case transform_members fs (members body) of Inl e \<Rightarrow> Inl e
     | Inr kvs \<Rightarrow>
        (let j = JObj kvs; unknown = unknown_members fs j; bad = broken cv fs j
         in if unknown = [] \<and> bad = [] then Inr j
            else Inl (validation_failed (map (\<lambda>k. ''property '' @ k @ '' should not exist'') unknown
              @ map (\<lambda>(k, r). cl_message cv k r) bad))))"

section \<open>The values the handlers read\<close>

definition str_member :: "string \<Rightarrow> json \<Rightarrow> string" where
  "str_member k j = (case jget k j of Some (JStr s) \<Rightarrow> s | _ \<Rightarrow> [])"

definition opt_str :: "string \<Rightarrow> json \<Rightarrow> string option" where
  "opt_str k j = (case jget k j of Some (JStr s) \<Rightarrow> Some s | _ \<Rightarrow> None)"

definition strings_of :: "json \<Rightarrow> string list" where
  "strings_of j = (case j of JArr xs \<Rightarrow> map to_str xs | _ \<Rightarrow> [])"

definition register_of :: "json \<Rightarrow> create_dto" where
  "register_of j = \<lparr>cd_email = str_member ''email'' j, cd_password = str_member ''password'' j,
     cd_name = opt_str ''name'' j, cd_phone = opt_str ''phone'' j\<rparr>"

definition verify_of :: "json \<Rightarrow> string \<times> string" where
  "verify_of j = (str_member ''email'' j, str_member ''code'' j)"

definition create_role_of :: "json \<Rightarrow> create_role_dto" where
  "create_role_of j = \<lparr>cr_name = str_member ''name'' j, cr_description = opt_str ''description'' j,
     cr_permissionIds = (case jget ''permissionIds'' j of Some (JArr xs) \<Rightarrow> Some (strings_of (JArr xs)) | _ \<Rightarrow> None)\<rparr>"

definition update_role_of :: "json \<Rightarrow> update_role_dto" where
  "update_role_of j = \<lparr>up_name = opt_str ''name'' j,
     up_description = map_option (\<lambda>v. case v of JStr s \<Rightarrow> Some s | _ \<Rightarrow> None) (jget ''description'' j),
     up_permissionIds = map_option (\<lambda>v. case v of JArr xs \<Rightarrow> Some (strings_of v) | _ \<Rightarrow> None) (jget ''permissionIds'' j)\<rparr>"

definition assign_of :: "json \<Rightarrow> string \<times> string" where
  "assign_of j = (str_member ''userId'' j, str_member ''roleName'' j)"

section \<open>What passes\<close>

text \<open>Documented of \<open>class-validator\<close>, for the decorators in use; the formats of emails and UUIDs stay open.\<close>

definition validator_ok :: "class_validator \<Rightarrow> bool" where
  "validator_ok cv \<longleftrightarrow> (\<forall>v. cl_holds cv IsString v \<longleftrightarrow> (\<exists>s. v = Some (JStr s)))
     \<and> (\<forall>v. cl_holds cv IsEmail v \<longrightarrow> (\<exists>s. v = Some (JStr s)))
     \<and> (\<forall>v. cl_holds cv IsUUID v \<longrightarrow> (\<exists>s. v = Some (JStr s)))
     \<and> (\<forall>v. cl_holds cv IsNotEmpty v \<longleftrightarrow> v \<noteq> None \<and> v \<noteq> Some JNull \<and> v \<noteq> Some (JStr []))
     \<and> (\<forall>s n. cl_holds cv (MinLength n) (Some (JStr s)) \<longleftrightarrow> n \<le> length s)
     \<and> (\<forall>s n. cl_holds cv (MaxLength n) (Some (JStr s)) \<longleftrightarrow> length s \<le> n)
     \<and> (\<forall>s P. cl_holds cv (Matches P) (Some (JStr s)) \<longleftrightarrow> P s)"

lemma validator_okD:
  assumes "validator_ok cv"
  shows "cl_holds cv IsString v \<longleftrightarrow> (\<exists>s. v = Some (JStr s))"
    and "cl_holds cv IsEmail v \<Longrightarrow> \<exists>s. v = Some (JStr s)"
    and "cl_holds cv IsUUID v \<Longrightarrow> \<exists>s. v = Some (JStr s)"
    and "cl_holds cv (MinLength n) (Some (JStr s)) \<longleftrightarrow> n \<le> length s"
    and "cl_holds cv (Matches P) (Some (JStr s)) \<longleftrightarrow> P s"
  using assms unfolding validator_ok_def by simp_all

lemma transform_plain:
  assumes "\<forall>f\<in>set fs. df_transform f = None"
  shows "transform_members fs kvs = Inr kvs"
proof (induction kvs)
  case (Cons kv kvs)
  have "transform_of fs k v = Inr v" for k v
    using assms by (auto simp: transform_of_def find_Some_iff split: option.split)
  with Cons show ?case by (cases kv) simp
qed simp

lemma broken_Nil_iff: "broken cv fs j = [] \<longleftrightarrow> (\<forall>f\<in>set fs.
    df_optional f \<and> (jget (df_name f) j = None \<or> jget (df_name f) j = Some JNull)
    \<or> (\<forall>r\<in>set (df_rules f). cl_holds cv r (jget (df_name f) j)))"
  by (induction fs) (auto simp: broken_def Let_def filter_empty_conv)

lemma validate_plain:
  assumes "\<forall>f\<in>set fs. df_transform f = None" and "validate_body cv fs body = Inr j"
  shows "j = JObj (members body)" "fst ` set (members body) \<subseteq> df_name ` set fs"
    and "f \<in> set fs \<Longrightarrow> \<not> df_optional f \<Longrightarrow> r \<in> set (df_rules f) \<Longrightarrow> cl_holds cv r (jget (df_name f) j)"
    and "f \<in> set fs \<Longrightarrow> jget (df_name f) j = Some v \<Longrightarrow> v \<noteq> JNull \<Longrightarrow> r \<in> set (df_rules f) \<Longrightarrow> cl_holds cv r (Some v)"
proof -
  from assms have j: "j = JObj (members body)" and u: "unknown_members fs j = []" and b: "broken cv fs j = []"
    by (auto simp: validate_body_def transform_plain [OF assms(1)] Let_def split: if_splits)
  show "j = JObj (members body)" by (rule j)
  show "fst ` set (members body) \<subseteq> df_name ` set fs"
    using u by (auto simp: unknown_members_def j members_def filter_empty_conv split: json.splits) blast+
  show "cl_holds cv r (jget (df_name f) j)" if "f \<in> set fs" "\<not> df_optional f" "r \<in> set (df_rules f)"
    using b that unfolding broken_Nil_iff by blast
  show "cl_holds cv r (Some v)" if "f \<in> set fs" "jget (df_name f) j = Some v" "v \<noteq> JNull" "r \<in> set (df_rules f)"
    using b that unfolding broken_Nil_iff by (metis option.distinct(1) option.inject)
qed

text \<open>
  C32. The handler of a registration only ever sees a well-typed body: what the pipe lets through is
  the body itself, it has no member but the four of the class, its email is a string that the email
  check accepts, its password a string of at least 8 characters with a lower-case letter, an
  upper-case letter and a digit, and the other two are strings, \<open>null\<close> or absent.
\<close>
theorem register_typed:
  assumes "validator_ok cv" and "validate_body cv RegisterDto body = Inr j"
  shows "\<exists>e p. jget ''email'' body = Some (JStr e) \<and> jget ''password'' body = Some (JStr p)
    \<and> cl_holds cv IsEmail (Some (JStr e)) \<and> 8 \<le> length p \<and> strong_password p
    \<and> (\<forall>k\<in>{''name'', ''phone''}. jget k body = None \<or> jget k body = Some JNull \<or> (\<exists>s. jget k body = Some (JStr s)))
    \<and> fst ` set (members body) \<subseteq> {''email'', ''password'', ''name'', ''phone''}
    \<and> register_of j = \<lparr>cd_email = e, cd_password = p, cd_name = opt_str ''name'' body, cd_phone = opt_str ''phone'' body\<rparr>"
proof -
  have plain: "\<forall>f\<in>set RegisterDto. df_transform f = None"
    by (simp add: RegisterDto_def field_of_def optional_field_def)
  note v = validate_plain [OF plain assms(2)]
  have fields: "field_of ''email'' [IsEmail] \<in> set RegisterDto"
    "field_of ''password'' [IsString, MinLength 8, Matches strong_password] \<in> set RegisterDto"
    "optional_field ''name'' [IsString] \<in> set RegisterDto" "optional_field ''phone'' [IsString] \<in> set RegisterDto"
    by (simp_all add: RegisterDto_def)
  have same: "jget k j = jget k body" for k
    by (cases body) (simp_all add: v(1) members_def jget_def)
  have email: "cl_holds cv IsEmail (jget ''email'' j)"
    using v(3) [OF fields(1), of IsEmail] by (simp add: field_of_def)
  have password: "cl_holds cv r (jget ''password'' j)" if "r \<in> {IsString, MinLength 8, Matches strong_password}" for r
    using v(3) [OF fields(2), of r] that by (auto simp: field_of_def)
  obtain e where e: "jget ''email'' j = Some (JStr e)" using validator_okD(2) [OF assms(1) email] by blast
  obtain p where p: "jget ''password'' j = Some (JStr p)"
    using password [of IsString] validator_okD(1) [OF assms(1)] by auto
  have opt: "x = None \<or> x = Some JNull \<or> (\<exists>s. x = Some (JStr s))" if "x = jget k j" "k \<in> {''name'', ''phone''}" for x k
  proof (cases x)
    case (Some y)
    from that(2) have "y \<noteq> JNull \<Longrightarrow> cl_holds cv IsString (Some y)"
    proof (elim insertE emptyE)
      assume "y \<noteq> JNull" "k = ''name''"
      then show ?thesis using v(4) [OF fields(3), of y IsString] that(1) Some by (simp add: optional_field_def)
    next
      assume "y \<noteq> JNull" "k = ''phone''"
      then show ?thesis using v(4) [OF fields(4), of y IsString] that(1) Some by (simp add: optional_field_def)
    qed
    with Some assms(1) show ?thesis by (cases "y = JNull") (simp_all add: validator_okD(1))
  qed simp
  have "8 \<le> length p" "strong_password p"
    using password [of "MinLength 8"] password [of "Matches strong_password"] by (simp_all add: p validator_okD(4,5) [OF assms(1)])
  then show ?thesis
    using e p email v(2) opt [OF refl]
    by (intro exI [of _ e] exI [of _ p])
      (auto simp: same register_of_def str_member_def opt_str_def RegisterDto_def field_of_def optional_field_def)
qed

text \<open>A \<open>verify\<close> with an email that is no string is a \<open>TypeError\<close> of the transformation, answered with 500, not 400.\<close>

lemma verify_email_number:
  "validate_body cv VerifyRegisterDto (JObj [(''email'', JNum n), (''code'', JStr c)]) =
     Inl (PlainErr ''value.toLowerCase is not a function'')"
  by (simp add: validate_body_def members_def transform_of_def VerifyRegisterDto_def field_of_def lower_trim_def)

section \<open>Witness\<close>

text \<open>A validator as documented, with the crudest formats: an email has an at sign.\<close>

fun plain_holds :: "rule \<Rightarrow> json option \<Rightarrow> bool" where
  "plain_holds IsNotEmpty v = (v \<noteq> None \<and> v \<noteq> Some JNull \<and> v \<noteq> Some (JStr []))"
| "plain_holds IsEmail v = (case v of Some (JStr s) \<Rightarrow> CHR ''@'' \<in> set s | _ \<Rightarrow> False)"
| "plain_holds (MinLength n) v = (case v of Some (JStr s) \<Rightarrow> n \<le> length s | _ \<Rightarrow> False)"
| "plain_holds (MaxLength n) v = (case v of Some (JStr s) \<Rightarrow> length s \<le> n | _ \<Rightarrow> False)"
| "plain_holds (Matches P) v = (case v of Some (JStr s) \<Rightarrow> P s | _ \<Rightarrow> False)"
| "plain_holds IsArray v = (case v of Some (JArr _) \<Rightarrow> True | _ \<Rightarrow> False)"
| "plain_holds EachUUID4 v = (case v of Some (JArr xs) \<Rightarrow> list_all (\<lambda>x. case x of JStr _ \<Rightarrow> True | _ \<Rightarrow> False) xs | _ \<Rightarrow> False)"
| "plain_holds _ v = (case v of Some (JStr s) \<Rightarrow> True | _ \<Rightarrow> False)"

definition plain_validator :: class_validator where
  "plain_validator = \<lparr>cl_holds = plain_holds, cl_message = (\<lambda>k r. k @ '' is invalid'')\<rparr>"

lemma plain_validator_ok [simp]: "validator_ok plain_validator"
  by (auto simp: validator_ok_def plain_validator_def split: option.splits json.splits)

definition good_body :: json where
  "good_body = JObj [(''email'', JStr ''a@b.io''), (''password'', JStr ''Passw0rd'')]"

theorem register_typed_witness:
  "\<exists>e p. jget ''email'' good_body = Some (JStr e) \<and> jget ''password'' good_body = Some (JStr p) \<and> strong_password p"
proof -
  have "validate_body plain_validator RegisterDto good_body = Inr good_body" by code_simp
  from register_typed [OF plain_validator_ok this] show ?thesis by blast
qed

end
