(* ===== verification/Access.thy ===== *)
theory Access
  imports Jwt RateLimiter Validation
begin

text \<open>
  The routes of the auth service, end to end: the four global guards of \<open>app.module.ts\<close> in their
  order (authentication, rate limits, permissions, token type) under the decorators of each route
  of \<open>roles.controller.ts\<close> and \<open>auth.controller.ts\<close>, then the handler. The provider of
  permissions asks the auth service itself, so its reply is computed from the same tables. A handler
  with a body takes the outcome of the \<open>ValidationPipe\<close> on it, which runs after the guards.
\<close>

section \<open>Routes\<close>

text \<open>The decorators: \<open>@Public\<close>, \<open>@RateLimit\<close>, \<open>@RequirePermission\<close>, \<open>@UserOnly\<close>/\<open>@InternalOnly\<close>.\<close>

record route =
  ro_public :: bool
  ro_rate :: "rate_rule list option"
  ro_permissions :: "string list option"
  ro_tokenType :: "string option"

definition plain_route :: route where
  "plain_route = \<lparr>ro_public = False, ro_rate = None, ro_permissions = None, ro_tokenType = None\<rparr>"

definition rule_ip :: "string \<Rightarrow> int \<Rightarrow> int \<Rightarrow> rate_rule" where
  "rule_ip prefix l w = \<lparr>ru_prefix = prefix, ru_limit = l, ru_window = w, ru_keySource = ''ip'', ru_message = None\<rparr>"

definition rule_email :: "string \<Rightarrow> int \<Rightarrow> int \<Rightarrow> rate_rule" where
  "rule_email prefix l w = \<lparr>ru_prefix = prefix, ru_limit = l, ru_window = w, ru_keySource = ''body.email'', ru_message = None\<rparr>"

definition ADMIN_MANAGE_ROLES :: string where "ADMIN_MANAGE_ROLES = ''admin:manage-roles''"

definition create_role_route :: route where
  "create_role_route = plain_route\<lparr>ro_permissions := Some [ADMIN_MANAGE_ROLES], ro_tokenType := Some ''internal''\<rparr>"

section \<open>The guards\<close>

record access_env =
  ax_config :: combined_config
  ax_lib :: jwt_lib
  ax_sha :: "string \<Rightarrow> string"
  ax_rl :: rl_config
  ax_up :: bool

definition on_redis :: "'a cached \<Rightarrow> (guard_state, exn, 'a) prog" where
  "on_redis m = (\<lambda>g. let (r, redis) = m (gs_redis g) in (r, g\<lparr>gs_redis := redis\<rparr>))"

text \<open>The user a handler sees; on a public route the property is absent.\<close>

definition guards ::
  "access_env \<Rightarrow> int \<Rightarrow> (string \<Rightarrow> auth_reply) \<Rightarrow> route \<Rightarrow> string option \<Rightarrow> rate_request \<Rightarrow> (guard_state, exn, req_user) prog" where
  "guards X t reply rt authorization rq =
     bind (lift (auth_canActivate (ax_config X) (ax_lib X) t (ro_public rt) authorization)) (\<lambda>(user, info).
       (let u = nullish user no_user
        in andthen (canActivate_rate (ax_sha X) (ax_rl X) (ax_up X) t (rq\<lparr>rq_userId := usr_userId u, rq_sub := None\<rparr>) (ro_rate rt))
          (andthen (on_redis (canActivate_perm t reply (ro_public rt) (ro_permissions rt) u))
          (andthen (lift (canActivate_token_type (ro_public rt) (ro_tokenType rt) (usr_type u)))
            (ret u)))))"

definition serve ::
  "access_env \<Rightarrow> int \<Rightarrow> route \<Rightarrow> string option \<Rightarrow> rate_request \<Rightarrow> (req_user \<Rightarrow> 'a auth) \<Rightarrow> 'a auth" where
  "serve X t rt authorization rq handler = (\<lambda>s.
     (case guards X t (permissions_route (as_db s)) rt authorization rq \<lparr>gs_redis = as_redis s, gs_headers = None\<rparr> of
        (Inl e, g) \<Rightarrow> (Inl e, s\<lparr>as_redis := gs_redis g\<rparr>)
      | (Inr u, g) \<Rightarrow> handler u (s\<lparr>as_redis := gs_redis g\<rparr>)))"

section \<open>\<open>roles.controller.ts\<close>\<close>

definition http_roles_create :: "access_env \<Rightarrow> auth_env \<Rightarrow> int \<Rightarrow> string option \<Rightarrow> rate_request \<Rightarrow> exn + create_role_dto
    \<Rightarrow> role_view auth" where
  "http_roles_create X E t a rq body = serve X t create_role_route a rq (\<lambda>_. bind (lift body) (roles_create E))"

definition http_roles_findAll :: "access_env \<Rightarrow> (string \<Rightarrow> string \<Rightarrow> bool) \<Rightarrow> int \<Rightarrow> string option \<Rightarrow> rate_request \<Rightarrow> role_view list auth" where
  "http_roles_findAll X le t a rq = serve X t plain_route a rq (\<lambda>_. roles_findAll le)"

definition http_roles_findOne :: "access_env \<Rightarrow> int \<Rightarrow> string option \<Rightarrow> rate_request \<Rightarrow> string \<Rightarrow> role_view auth" where
  "http_roles_findOne X t a rq i = serve X t plain_route a rq (\<lambda>_. roles_findOne i)"

definition http_getRolesForUser :: "access_env \<Rightarrow> int \<Rightarrow> string option \<Rightarrow> rate_request \<Rightarrow> string \<Rightarrow> string list auth" where
  "http_getRolesForUser X t a rq userId = serve X t plain_route a rq (\<lambda>_. getRolesForUser userId)"

definition http_getPermissionsForUser :: "access_env \<Rightarrow> int \<Rightarrow> string option \<Rightarrow> rate_request \<Rightarrow> string \<Rightarrow> string list auth" where
  "http_getPermissionsForUser X t a rq userId = serve X t plain_route a rq (\<lambda>_. getPermissionCodesForUser userId)"

definition http_roles_update :: "access_env \<Rightarrow> int \<Rightarrow> string option \<Rightarrow> rate_request \<Rightarrow> string \<Rightarrow> exn + update_role_dto
    \<Rightarrow> role_view auth" where
  "http_roles_update X t a rq i body = serve X t plain_route a rq (\<lambda>_. bind (lift body) (roles_update i))"

definition http_roles_remove :: "access_env \<Rightarrow> int \<Rightarrow> string option \<Rightarrow> rate_request \<Rightarrow> string \<Rightarrow> string auth" where
  "http_roles_remove X t a rq i = serve X t plain_route a rq (\<lambda>_. roles_remove i)"

definition http_assignRole ::
  "access_env \<Rightarrow> int \<Rightarrow> string option \<Rightarrow> rate_request \<Rightarrow> exn + string \<times> string \<Rightarrow> (string \<times> string) auth" where
  "http_assignRole X t a rq body = serve X t plain_route a rq
     (\<lambda>_. bind (lift body) (\<lambda>(userId, roleName). assignRole (ax_up X) t userId roleName))"

definition http_unassignRole ::
  "access_env \<Rightarrow> int \<Rightarrow> string option \<Rightarrow> rate_request \<Rightarrow> exn + string \<times> string \<Rightarrow> (string \<times> string) auth" where
  "http_unassignRole X t a rq body = serve X t plain_route a rq
     (\<lambda>_. bind (lift body) (\<lambda>(userId, roleName). unassignRole (ax_up X) t userId roleName))"

section \<open>\<open>auth.controller.ts\<close>\<close>

definition http_register ::
  "access_env \<Rightarrow> auth_env \<Rightarrow> int \<Rightarrow> string option \<Rightarrow> rate_request \<Rightarrow> exn + create_dto \<Rightarrow> string option \<Rightarrow> register_response auth" where
  "http_register X E t a rq body requestId =
     serve X t (plain_route\<lparr>ro_rate := Some [rule_ip ''auth:register:ip'' 5 60]\<rparr>) a rq
       (\<lambda>_. bind (lift body) (\<lambda>dto. auth_register E t dto requestId))"

definition http_verify :: "access_env \<Rightarrow> int \<Rightarrow> string option \<Rightarrow> rate_request \<Rightarrow> exn + string \<times> string \<Rightarrow> bool auth" where
  "http_verify X t a rq body = serve X t plain_route a rq (\<lambda>_. bind (lift body) (\<lambda>(email, code). auth_verify t email code))"

definition http_confirmPage :: "access_env \<Rightarrow> int \<Rightarrow> string option \<Rightarrow> rate_request \<Rightarrow> exn + string \<times> string \<Rightarrow> string auth" where
  "http_confirmPage X t a rq body =
     serve X t plain_route a rq (\<lambda>_. bind (lift body) (\<lambda>(email, code). ret (verifyConfirmHtml email code)))"

definition public_route :: "rate_rule list \<Rightarrow> route" where
  "public_route rules = plain_route\<lparr>ro_public := True, ro_rate := Some rules\<rparr>"

definition http_resend :: "access_env \<Rightarrow> auth_env \<Rightarrow> int \<Rightarrow> string option \<Rightarrow> rate_request \<Rightarrow> string option \<Rightarrow> string auth" where
  "http_resend X E t a rq email =
     serve X t (public_route [rule_ip ''auth:resend:ip'' 5 60, rule_email ''auth:resend:email'' 2 60]) a rq (\<lambda>_. resendCode E t email)"

definition http_login :: "access_env \<Rightarrow> auth_env \<Rightarrow> int \<Rightarrow> string option \<Rightarrow> rate_request \<Rightarrow> string option \<Rightarrow> string option
    \<Rightarrow> auth_request \<Rightarrow> login_response auth" where
  "http_login X E t a rq email password req =
     serve X t (public_route [rule_ip ''auth:login:ip'' 10 60, rule_email ''auth:login:email'' 5 60]) a rq
       (\<lambda>_. login_route E t email password req)"

definition http_refresh :: "access_env \<Rightarrow> auth_env \<Rightarrow> int \<Rightarrow> string option \<Rightarrow> rate_request \<Rightarrow> string option \<Rightarrow> string option
    \<Rightarrow> auth_request \<Rightarrow> login_response auth" where
  "http_refresh X E t a rq refreshToken deviceId req =
     serve X t (public_route [rule_ip ''auth:refresh:ip'' 20 60]) a rq (\<lambda>_. auth_refresh E t refreshToken deviceId req)"

text \<open>\<open>info.userId\<close> of \<open>request.info.data\<close>; every token is signed with a member \<open>data\<close> or is a user's.\<close>

definition http_me :: "access_env \<Rightarrow> int \<Rightarrow> string option \<Rightarrow> rate_request \<Rightarrow> info_user option auth" where
  "http_me X t a rq = serve X t plain_route a rq (\<lambda>user. auth_info (usr_data_userId user))"

definition http_logoutDevice :: "access_env \<Rightarrow> auth_env \<Rightarrow> int \<Rightarrow> string option \<Rightarrow> rate_request \<Rightarrow> string option \<Rightarrow> string option \<Rightarrow> string auth" where
  "http_logoutDevice X E t a rq deviceId refreshToken =
     serve X t plain_route a rq (\<lambda>user. auth_logoutDevice E t deviceId (usr_id user) refreshToken)"

definition http_logoutAll :: "access_env \<Rightarrow> int \<Rightarrow> string option \<Rightarrow> rate_request \<Rightarrow> string auth" where
  "http_logoutAll X t a rq = serve X t plain_route a rq (\<lambda>user. logoutAll t (usr_id user))"

definition http_forgotPassword :: "access_env \<Rightarrow> auth_env \<Rightarrow> int \<Rightarrow> string option \<Rightarrow> rate_request \<Rightarrow> string option \<Rightarrow> string auth" where
  "http_forgotPassword X E t a rq email =
     serve X t (plain_route\<lparr>ro_rate := Some [rule_ip ''auth:forgot:ip'' 5 600, rule_email ''auth:forgot:email'' 2 600]\<rparr>) a rq
       (\<lambda>_. forgotPassword E t email)"

definition http_forgotPasswordVerify ::
  "access_env \<Rightarrow> auth_env \<Rightarrow> int \<Rightarrow> string option \<Rightarrow> rate_request \<Rightarrow> string option \<Rightarrow> string option \<Rightarrow> string auth" where
  "http_forgotPasswordVerify X E t a rq email code =
     serve X t (plain_route\<lparr>ro_rate := Some [rule_ip ''auth:forgot-verify:ip'' 10 600]\<rparr>) a rq
       (\<lambda>_. forgotPasswordVerify E t email code)"

definition http_forgotPasswordReset ::
  "access_env \<Rightarrow> auth_env \<Rightarrow> int \<Rightarrow> string option \<Rightarrow> rate_request \<Rightarrow> string option \<Rightarrow> string option \<Rightarrow> string \<Rightarrow> string auth" where
  "http_forgotPasswordReset X E t a rq email code password =
     serve X t (plain_route\<lparr>ro_rate := Some [rule_ip ''auth:forgot-reset:ip'' 5 600]\<rparr>) a rq
       (\<lambda>_. forgotPasswordReset E t email code password)"

section \<open>Passing the guards\<close>

abbreviation authenticate :: "access_env \<Rightarrow> int \<Rightarrow> string option \<Rightarrow> exn + req_user" where
  "authenticate X t a \<equiv> passport_combined (ax_config X) (ax_lib X) (auth_validate (ax_config X)) t a"

lemma serve_plain: "authenticate X t a = Inr user \<Longrightarrow> serve X t plain_route a rq h s = h user s"
  by (simp add: serve_def guards_def plain_route_def auth_canActivate_def bind_run andthen_run canActivate_rate_def
      canActivate_perm_def canActivate_token_type_def on_redis_def)

lemma serve_rejected: "authenticate X t a = Inl e \<Longrightarrow> \<not> ro_public rt \<Longrightarrow> serve X t rt a rq h s = (Inl e, s)"
  by (simp add: serve_def guards_def auth_canActivate_def bind_run)

text \<open>A request with a valid token of the user \<open>uid\<close>.\<close>

definition signed_in :: "access_env \<Rightarrow> int \<Rightarrow> string option \<Rightarrow> string \<Rightarrow> bool" where
  "signed_in X t a uid \<longleftrightarrow> (\<exists>payload. verified (ax_lib X) (cc_userSecret (ax_config X)) t a payload
     \<and> jget ''aud'' payload = Some (JStr (cc_userAudience (ax_config X))) \<and> jget ''sub'' payload = Some (JStr uid))"

definition access_ok :: "access_env \<Rightarrow> bool" where
  "access_ok X \<longleftrightarrow> jwt_lib_ok (ax_lib X) \<and> cc_userAudience (ax_config X) \<noteq> cc_internalAudience (ax_config X)"

lemma signed_in_user:
  assumes "access_ok X" and "signed_in X t a uid"
  obtains u where "authenticate X t a = Inr u" "usr_type u = Some ''api''" "usr_id u = None" "usr_userId u = None"
    "usr_data_userId u = Some uid"
proof -
  note result = that
  from assms obtain payload where v: "verified (ax_lib X) (cc_userSecret (ax_config X)) t a payload"
    and aud: "jget ''aud'' payload = Some (JStr (cc_userAudience (ax_config X)))" and sub: "jget ''sub'' payload = Some (JStr uid)"
    unfolding signed_in_def by blast
  have "authenticate X t a = auth_validate (ax_config X) payload"
    using passport_combined_user [OF _ v aud] assms(1) unfolding access_ok_def by blast
  then show thesis
    using assms(1) aud sub
    by (intro result [of "no_user\<lparr>usr_type := Some ''api'', usr_caller := Some ''User'', usr_data_userId := Some uid,
        usr_data_permVersion := jnum (jget ''permVersion'' payload)\<rparr>"])
      (simp_all add: auth_validate_def access_ok_def no_user_def jstr_def)
qed

text \<open>
  The administration of roles is open to every account: any signed-in user who asks for a role
  that exists and that the named user does not have gets it assigned, whoever that user is; the
  named user then has every permission of the role.
\<close>
theorem assign_role_open:
  assumes "access_ok X" and "signed_in X t a uid" and "ax_up X" and "perm_ok (as_redis s)"
    and "find_first (\<lambda>u. u_id u = target) (db_users (as_db s)) = Some w"
    and "find_first (\<lambda>r. ro_name r = roleName) (db_roles (as_db s)) = Some r"
    and "\<forall>ur\<in>set (db_userRoles (as_db s)). \<not> has_role target (ro_id r) ur"
  shows "\<exists>s'. http_assignRole X t a rq (Inr (target, roleName)) s = (Inr (target, roleName), s')
    \<and> (\<forall>p\<in>set (permissions_of (as_db s) (ro_id r)). pe_code p \<in> set (permission_codes (as_db s') target))"
proof (rule signed_in_user [OF assms(1,2)])
  fix u assume u: "authenticate X t a = Inr u"
  obtain z where z: "updatePermVersion t target (u_permVersion w + 1) (as_redis s) = (Inr (), z)"
    using pcache.bump_total [OF assms(4)] by blast
  let ?db = "(as_db s)\<lparr>db_userRoles := db_userRoles (as_db s) @ [\<lparr>ur_user = target, ur_role = ro_id r\<rparr>]\<rparr>"
  let ?s' = "s\<lparr>as_db := set_permVersion t target (u_permVersion w + 1) ?db, as_redis := z\<rparr>"
  have run: "assignRole (ax_up X) t target roleName s = (Inr (target, roleName), ?s')"
    using assms(3,5-7) z
    by (simp add: assignRole_def catchp_run bind_run andthen_run find_user_def find_role_name_def with_cache_def)
  have "\<forall>p\<in>set (permissions_of (as_db s) (ro_id r)). pe_code p \<in> set (permission_codes ?db target)"
    by (force simp: code_in set_permissions_of)
  then show ?thesis
    by (intro exI [of _ ?s']) (simp add: http_assignRole_def serve_plain [OF u] bind_run run)
qed

text \<open>
  One user signs everyone out: the request \<open>logout-all\<close> of any signed-in user revokes every open
  session in the table, of all users, because the validated user has no member \<open>id\<close> and a filter
  that is undefined selects every row.
\<close>
theorem logout_all_everyone:
  assumes "access_ok X" and "signed_in X t a uid"
  shows "\<exists>s'. http_logoutAll X t a rq s = (Inr ''logout success'', s')
    \<and> (\<forall>r\<in>set (db_tokens (as_db s')). rt_revokedAt r \<noteq> None)"
proof (rule signed_in_user [OF assms])
  fix u assume u: "authenticate X t a = Inr u" "usr_id u = None"
  show ?thesis
    by (auto simp: http_logoutAll_def serve_plain [OF u(1)] u(2) logoutAll_def logoutAllDevices_def andthen_run tokens_revoke_run
        clearCookie_def set_update_where split: if_splits)
qed

text \<open>
  A user never creates a role, whatever permissions the user has: the permission asked for and the
  internal token asked for exclude each other, and the tables stay as they are.
\<close>
theorem create_role_shut:
  assumes "access_ok X" and "signed_in X t a uid"
  shows "\<exists>e s'. http_roles_create X E t a rq body s = (Inl e, s') \<and> as_db s' = as_db s \<and> as_out s' = as_out s"
proof (rule signed_in_user [OF assms])
  fix u assume u: "authenticate X t a = Inr u" "usr_type u = Some ''api''"
  obtain x r where p: "canActivate_perm t (permissions_route (as_db s)) False (Some [ADMIN_MANAGE_ROLES]) u (as_redis s) = (x, r)"
    by fastforce
  show ?thesis
    by (cases x) (simp_all add: http_roles_create_def serve_def guards_def create_role_route_def plain_route_def u p
        auth_canActivate_def bind_run andthen_run canActivate_rate_def on_redis_def canActivate_token_type_def)
qed

section \<open>Witnesses\<close>

definition sample_access :: access_env where
  "sample_access = \<lparr>ax_config = sample_cc, ax_lib = sample_lib, ax_sha = id, ax_rl = rate_limiter_new None None, ax_up = True\<rparr>"

definition sample_rq :: rate_request where
  "sample_rq = \<lparr>rq_forwarded = NoForwarded, rq_ip = Some ''10.0.0.1'', rq_remoteAddress = None, rq_userId = None,
     rq_sub = None, rq_body = None\<rparr>"

lemma sample_access_ok [simp]: "access_ok sample_access" "signed_in sample_access t (Some ''u'') ''u1''"
proof -
  show "access_ok sample_access" by (simp add: access_ok_def sample_access_def sample_cc_def)
  show "signed_in sample_access t (Some ''u'') ''u1''"
    by (simp add: signed_in_def verified_def sample_access_def sample_cc_def sample_lib_def user_payload_def jget_Cons)
qed

lemma assign_role_open_witness:
  "\<exists>s'. http_assignRole sample_access 5 (Some ''u'') sample_rq (Inr (''u1'', ''admin'')) roles_state = (Inr (''u1'', ''admin''), s')
    \<and> ''ROLE_READ'' \<in> set (permission_codes (as_db s') ''u1'')"
proof -
  let ?r = "\<lparr>ro_id = ''r2'', ro_name = ''admin'', ro_description = None\<rparr>"
  have user: "find_first (\<lambda>u. u_id u = ''u1'') (db_users (as_db roles_state)) = Some (hd (db_users (as_db roles_state)))"
    and role: "find_first (\<lambda>r. ro_name r = ''admin'') (db_roles (as_db roles_state)) = Some ?r"
    and none: "\<forall>ur\<in>set (db_userRoles (as_db roles_state)). \<not> has_role ''u1'' (ro_id ?r) ur"
    and perms: "permissions_of (as_db roles_state) (ro_id ?r) = [\<lparr>pe_id = ''p2'', pe_code = ''ROLE_READ'', pe_description = None\<rparr>]"
    by (simp_all add: roles_state_def has_role_def permissions_of_def)
  have up: "ax_up sample_access" "perm_ok (as_redis roles_state)" by (simp_all add: sample_access_def)
  from assign_role_open [OF sample_access_ok up user role none, of 5 sample_rq] show ?thesis
    unfolding perms by auto
qed

lemma logout_all_everyone_witness:
  "\<exists>s'. http_logoutAll sample_access 5 (Some ''u'') sample_rq
      (demo_state\<lparr>as_db := (as_db demo_state)\<lparr>db_tokens := [demo_session\<lparr>rt_userId := ''u9''\<rparr>]\<rparr>\<rparr>) = (Inr ''logout success'', s')
    \<and> filter (\<lambda>r. rt_revokedAt r = None) (db_tokens (as_db s')) = []"
  using logout_all_everyone [OF sample_access_ok, where rq = sample_rq and t = 5
      and s = "demo_state\<lparr>as_db := (as_db demo_state)\<lparr>db_tokens := [demo_session\<lparr>rt_userId := ''u9''\<rparr>]\<rparr>\<rparr>"]
  by (auto simp: filter_empty_conv)

lemma create_role_shut_witness:
  "\<exists>e s'. http_roles_create sample_access demo_env 5 (Some ''u'') sample_rq
      (Inr \<lparr>cr_name = ''x'', cr_description = None, cr_permissionIds = None\<rparr>) roles_state = (Inl e, s')
    \<and> as_db s' = as_db roles_state"
  using create_role_shut [OF sample_access_ok] by blast

end
