(* ===== verification/NotiRoutes.thy ===== *)
theory NotiRoutes
  imports Notification Access
begin

text \<open>
  The routes of the notification service, end to end: the two global guards of its \<open>app.module.ts\<close>
  (authentication, permissions) under the decorators of \<open>notification.controller.ts\<close>, the user the
  controller resolves from the token or the header \<open>x-user-id\<close>, then the handler. The reply of the
  auth service to the provider of permissions is a parameter.
\<close>

section \<open>The controller\<close>

datatype noti_get = GetList "string option" "string option" "string option" "string option" | GetUnread | PostRead string | PostReadAll

datatype noti_answer = Page noti_page | Number nat | Marked string string

definition NOTIFICATIONS_READ :: string where "NOTIFICATIONS_READ = ''notifications:read''"

fun required_codes :: "noti_get \<Rightarrow> string list option" where
  "required_codes (GetList _ _ _ _) = Some [NOTIFICATIONS_READ]"
| "required_codes GetUnread = Some [NOTIFICATIONS_READ]"
| "required_codes (PostRead _) = None"
| "required_codes PostReadAll = None"

fun noti_controller :: "noti_env \<Rightarrow> int \<Rightarrow> string \<Rightarrow> noti_get \<Rightarrow> noti_answer noti" where
  "noti_controller E t userId (GetList page l sortBy sortOrder) =
     bind (listByUser E userId page l sortBy sortOrder) (\<lambda>p. ret (Page p))"
| "noti_controller E t userId GetUnread = bind (unreadCount userId) (\<lambda>n. ret (Number n))"
| "noti_controller E t userId (PostRead i) = bind (markRead E t userId i) (\<lambda>(k, d). ret (Marked k d))"
| "noti_controller E t userId PostReadAll = bind (readAll t userId) (\<lambda>n. ret (Number n))"

section \<open>The guards and a request\<close>

record noti_site =
  nz_redis :: redis
  nz_noti :: noti_state

definition noti_guards :: "access_env \<Rightarrow> int \<Rightarrow> (string \<Rightarrow> auth_reply) \<Rightarrow> string option \<Rightarrow> noti_get \<Rightarrow> authenticated cached" where
  "noti_guards X t reply a c = bind (lift (noti_canActivate (ax_config X) (ax_lib X) t False a)) (\<lambda>au.
     andthen (canActivate_perm t reply False (required_codes c) (nullish (fst au) no_user)) (ret au))"

definition http_noti ::
  "access_env \<Rightarrow> noti_env \<Rightarrow> int \<Rightarrow> (string \<Rightarrow> auth_reply) \<Rightarrow> string option \<Rightarrow> string option \<Rightarrow> noti_get
     \<Rightarrow> (noti_site, exn, noti_answer) prog" where
  "http_noti X E t reply a header c = (\<lambda>z. case noti_guards X t reply a c (nz_redis z) of
     (Inl e, r) \<Rightarrow> (Inl e, z\<lparr>nz_redis := r\<rparr>)
   | (Inr au, r) \<Rightarrow>
       (let (x, s) = noti_controller E t (request_userId au header) c (nz_noti z)
        in (x, \<lparr>nz_redis = r, nz_noti = s\<rparr>)))"

section \<open>What a user reaches\<close>

lemma signed_in_noti:
  assumes "access_ok X" and "signed_in X t a uid"
  obtains u where "noti_canActivate (ax_config X) (ax_lib X) t False a = Inr (Some u, None)" "usr_userId u = Some uid"
    "usr_type u = Some ''user''"
proof -
  from assms obtain payload where v: "verified (ax_lib X) (cc_userSecret (ax_config X)) t a payload"
    and aud: "jget ''aud'' payload = Some (JStr (cc_userAudience (ax_config X)))" and sub: "jget ''sub'' payload = Some (JStr uid)"
    unfolding signed_in_def by blast
  have "passport_combined (ax_config X) (ax_lib X) (noti_validate (ax_config X)) t a = noti_validate (ax_config X) payload"
    using passport_combined_user [OF _ v aud] assms(1) unfolding access_ok_def by blast
  then show thesis
    using assms(1) aud sub
    by (intro that [of "no_user\<lparr>usr_type := Some ''user'', usr_userId := Some uid,
        usr_permVersion := jnum (jget ''permVersion'' payload)\<rparr>"])
      (simp_all add: noti_canActivate_def noti_validate_def access_ok_def no_user_def jstr_def)
qed

lemma http_noti_run:
  assumes "access_ok X" and "signed_in X t a uid" and "http_noti X E t reply a header c z = (r, z')"
  shows "(nz_noti z' = nz_noti z \<and> (\<exists>e. r = Inl e)) \<or> noti_controller E t uid c (nz_noti z) = (r, nz_noti z')"
proof (rule signed_in_noti [OF assms(1,2)])
  fix u assume u: "noti_canActivate (ax_config X) (ax_lib X) t False a = Inr (Some u, None)" "usr_userId u = Some uid"
  show ?thesis
    using assms(3) u
    by (auto simp: http_noti_def noti_guards_def bind_run andthen_run request_userId_def resolveUserId_def
        split: prod.splits sum.splits)
qed

text \<open>The rows of all users but one.\<close>

definition others :: "string \<Rightarrow> noti_state \<Rightarrow> noti_row list" where
  "others uid s = filter (\<lambda>r. no_userId r \<noteq> uid) (ns_rows s)"

text \<open>Ids are unique.\<close>

definition ids_unique :: "noti_state \<Rightarrow> bool" where
  "ids_unique s \<longleftrightarrow> distinct (map no_id (ns_rows s))"

lemma filter_update_where_set:
  "\<forall>q\<in>set t. P q \<longrightarrow> \<not> Q q \<and> \<not> Q (f q) \<Longrightarrow> filter Q (update_where P f t) = filter Q t"
  by (induction t) auto

lemma controller_others:
  assumes "ids_unique s" and "noti_controller E t uid c s = (r, s')"
  shows "others uid s' = others uid s"
proof (cases c)
  case (GetList p l b o')
  then show ?thesis using assms by (auto simp: listByUser_def bind_run rows_where_def Let_def split: if_splits option.splits)
next
  case GetUnread
  then show ?thesis using assms by (auto simp: unreadCount_def bind_run split: if_splits)
next
  case PostReadAll
  then show ?thesis using assms
    by (auto simp: readAll_def bind_run andthen_run others_def split: if_splits intro!: filter_update_where_set)
next
  case (PostRead i)
  let ?f = "\<lambda>q. q\<lparr>no_readAt := Some t\<rparr>"
  consider "s' = s" | (marked) q where "find_first (\<lambda>r. no_id r = i \<and> no_userId r = uid) (ns_rows s) = Some q"
      "s' = s\<lparr>ns_rows := update_where (\<lambda>p. no_id p = no_id q) ?f (ns_rows s)\<rparr>"
    using assms(2) PostRead by (cases "find_first (\<lambda>r. no_id r = i \<and> no_userId r = uid) (ns_rows s)")
      (auto simp: markRead_def bind_run andthen_run simp del: find_first_None_iff split: if_splits option.splits)
  then show ?thesis
  proof cases
    case marked
    from find_first_SomeD [OF marked(1)] have q: "q \<in> set (ns_rows s)" "no_userId q = uid" by simp_all
    have same: "\<forall>p\<in>set (ns_rows s). no_id p = no_id q \<longrightarrow> p = q"
      using unique_key_eq [OF assms(1) [unfolded ids_unique_def] _ q(1)] by blast
    show ?thesis
      unfolding marked(2) others_def by simp (rule filter_update_where_set, use same q in auto)
  qed simp
qed

text \<open>
  A user reaches nobody else's notifications: a request with a user's token, whatever the header
  \<open>x-user-id\<close> and the ids it names, returns only notifications of that user and leaves every
  notification of the others as it is.
\<close>
theorem noti_isolated:
  assumes "access_ok X" and "signed_in X t a uid" and "ids_unique (nz_noti z)"
    and "http_noti X E t reply a header c z = (r, z')"
  shows "others uid (nz_noti z') = others uid (nz_noti z) \<and> (\<forall>p. r = Inr (Page p) \<longrightarrow> (\<forall>x\<in>set (np_items p). no_userId x = uid))"
  using http_noti_run [OF assms(1,2,4)]
proof (elim disjE)
  assume run: "noti_controller E t uid c (nz_noti z) = (r, nz_noti z')"
  have "no_userId x = uid" if p: "r = Inr (Page p)" "x \<in> set (np_items p)" for p x
    using run p by (cases c) (auto simp: listByUser_def unreadCount_def markRead_def readAll_def bind_run andthen_run rows_where_def
        Let_def dest!: in_set_takeD in_set_dropD split: if_splits option.splits)
  with controller_others [OF assms(3) run] show ?thesis by blast
qed auto

section \<open>Permissions\<close>

text \<open>
  Marking asks for no permission: for a signed-in user, whatever the auth service replies about the
  permissions, or even if it does not answer, \<open>POST read-all\<close> marks every notification of the
  user as read, where \<open>GET list\<close> and \<open>GET unread-count\<close> without the code are refused.
\<close>

lemma mark_without_permission:
  assumes "access_ok X" and "signed_in X t a uid" and "uid \<noteq> []"
  shows "\<exists>n z'. http_noti X E t reply a header PostReadAll z = (Inr (Number n), z') \<and> unread uid (ns_rows (nz_noti z')) = 0"
proof (rule signed_in_noti [OF assms(1,2)])
  fix u assume u: "noti_canActivate (ax_config X) (ax_lib X) t False a = Inr (Some u, None)" "usr_userId u = Some uid"
  have "count_where (\<lambda>r. no_userId r = uid \<and> no_readAt r = None)
      (update_where (\<lambda>r. no_userId r = uid \<and> no_readAt r = None) (\<lambda>r. r\<lparr>no_readAt := Some t\<rparr>) rows) = 0" for rows
    by (rule count_where_update_all) simp
  then show ?thesis
    using u assms(3)
    by (simp add: http_noti_def noti_guards_def bind_run andthen_run canActivate_perm_def request_userId_def resolveUserId_def
        readAll_def)
qed

text \<open>
  An internal token speaks for whatever user the header names: where the token's \<open>data\<close> holds no
  user id, as in the token the gateway signs, the controller acts for the user of \<open>x-user-id\<close>.
\<close>

lemma internal_speaks_for_header:
  assumes "noti_canActivate (ax_config X) (ax_lib X) t False a = Inr (Some u, Some (u\<lparr>usr_type := None\<rparr>))"
    and "usr_type u = Some ''internal''"
    and "usr_userId u = None" and "usr_data_userId u = None"
  shows "http_noti X E t reply a (Some uid) c z =
    (let (x, s) = noti_controller E t uid c (nz_noti z) in (x, z\<lparr>nz_noti := s\<rparr>))"
  using assms
  by (cases c) (simp_all add: http_noti_def noti_guards_def bind_run andthen_run canActivate_perm_def request_userId_def
      resolveUserId_def split: prod.split)

section \<open>Witness\<close>

theorem noti_isolated_witness:
  "\<exists>r z'. http_noti sample_access Notification.sample_env 5 (\<lambda>_. NoResponse ''down'') (Some ''u'') (Some ''x'') PostReadAll
      \<lparr>nz_redis = Map.empty, nz_noti = sample_notis\<rparr> = (r, z') \<and> others ''u1'' (nz_noti z') = ns_rows sample_notis"
proof -
  let ?z = "\<lparr>nz_redis = Map.empty, nz_noti = sample_notis\<rparr>"
  have unique: "ids_unique (nz_noti ?z)" by code_simp
  obtain r z' where run: "http_noti sample_access Notification.sample_env 5 (\<lambda>_. NoResponse ''down'') (Some ''u'') (Some ''x'')
      PostReadAll ?z = (r, z')" by fastforce
  have "others ''u1'' sample_notis = ns_rows sample_notis" by code_simp
  with noti_isolated [OF sample_access_ok unique run] run show ?thesis by simp
qed

end
