(* ===== verification/Response.thy ===== *)
theory Response
  imports Errors
begin

text \<open>
  The envelope of a success (\<open>packages/common/src/response\<close>): the table of messages
  (\<open>messages.ts\<close>), the placeholders \<open>formatMessage\<close> fills with \<open>String.prototype.replace\<close>, the
  three wrappers of \<open>response.ts\<close> and the interceptor that applies the first to every result. The
  Vietnamese texts are written as UTF-8; a timestamp is given as its ISO string.
\<close>

section \<open>\<open>replace\<close>\<close>

text \<open>The parts before and after the first occurrence.\<close>

fun split_first :: "string \<Rightarrow> string \<Rightarrow> (string \<times> string) option" where
  "split_first pat [] = (if pat = [] then Some ([], []) else None)"
| "split_first pat (c # s) = (if starts_with pat (c # s) then Some ([], drop (length pat) (c # s))
     else map_option (\<lambda>(a, b). (c # a, b)) (split_first pat s))"

text \<open>A replacement string is a template itself: \<open>$$\<close>, \<open>$&\<close>, and the parts before and after the match.\<close>

fun expand :: "string \<Rightarrow> string \<Rightarrow> string \<Rightarrow> string \<Rightarrow> string" where
  "expand before m after (c # d # r) =
     (if c = CHR ''$'' \<and> d = CHR ''$'' then CHR ''$'' # expand before m after r
      else if c = CHR ''$'' \<and> d = CHR ''&'' then m @ expand before m after r
      else if c = CHR ''$'' \<and> d = CHR 0x60 then before @ expand before m after r
      else if c = CHR ''$'' \<and> d = CHR 0x27 then after @ expand before m after r
      else c # expand before m after (d # r))"
| "expand before m after r = r"

definition replace_first :: "string \<Rightarrow> string \<Rightarrow> string \<Rightarrow> string" where
  "replace_first pat repl s = (case split_first pat s of None \<Rightarrow> s
     | Some (before, after) \<Rightarrow> before @ expand before pat after repl @ after)"

section \<open>Messages\<close>

text \<open>The leaves of \<open>MESSAGE_KEYS\<close> in the order of the source.\<close>

definition MESSAGE_KEYS :: "string list" where
  "MESSAGE_KEYS =
    [''EMAIL_SUBSCRIPTION.SUBSCRIBED'', ''EMAIL_SUBSCRIPTION.EXAMPLE_EMAIL'', ''EMAIL_SUBSCRIPTION.INVALID_EMAIL_FORMAT'',
     ''COMMON.SUCCESS'', ''COMMON.OPERATION_COMPLETED'', ''COMMON.LIST_FOUND'',
     ''COMMON.CREATED'', ''COMMON.UPDATED'', ''COMMON.DELETED'',
     ''COMMON.INTERNAL_ERROR'', ''COMMON.VALIDATION_ERROR'', ''COMMON.UNAUTHORIZED'',
     ''COMMON.FORBIDDEN'', ''COMMON.BAD_REQUEST'', ''COMMON.NOT_FOUND'',
     ''COMMON.ALREADY_EXISTS'', ''COMMON.CANNOT_BE_CREATED'', ''COMMON.CANNOT_BE_UPDATED'',
     ''COMMON.CANNOT_BE_DELETED'', ''COMMON.INVALID_DATA'', ''VALIDATION.REQUIRED'',
     ''VALIDATION.INVALID_EMAIL'', ''VALIDATION.INVALID_PHONE'', ''VALIDATION.INVALID_ROLE'',
     ''VALIDATION.MIN_LENGTH'', ''VALIDATION.MAX_LENGTH'', ''FILTER_AND_SORT.ONLY_ONE_SORT_PARAM'',
     ''FILTER_AND_SORT.INVALID_MIN_MAX_PRICE'', ''FILTER_AND_SORT.MIN_PRICE_LESS_THAN_MAX'', ''FILTER_AND_SORT.INVALID_CATEGORY_ID'',
     ''FILTER_AND_SORT.INVALID_TAG_ID'']"

definition MESSAGE_TEMPLATES :: "(string \<times> string) list" where
  "MESSAGE_TEMPLATES =
    [(''EMAIL_SUBSCRIPTION.SUBSCRIBED'', [CHR 0xC4, CHR 0x90, CHR 0xC4, CHR 0x83] @ ''ng k'' @ [CHR 0xC3, CHR 0xBD] @ '' email th'' @ [CHR 0xC3, CHR 0xA0] @ ''nh c'' @ [CHR 0xC3, CHR 0xB4] @ ''ng''),
     (''EMAIL_SUBSCRIPTION.INVALID_EMAIL_FORMAT'', [CHR 0xC4, CHR 0x90, CHR 0xE1, CHR 0xBB, CHR 0x8B] @ ''nh d'' @ [CHR 0xE1, CHR 0xBA, CHR 0xA1] @ ''ng email kh'' @ [CHR 0xC3, CHR 0xB4] @ ''ng h'' @ [CHR 0xE1, CHR 0xBB, CHR 0xA3] @ ''p l'' @ [CHR 0xE1, CHR 0xBB, CHR 0x87]),
     (''EMAIL_SUBSCRIPTION.EXAMPLE_EMAIL'', ''user@example.com''),
     (''COMMON.SUCCESS'', ''Thao t'' @ [CHR 0xC3, CHR 0xA1] @ ''c ho'' @ [CHR 0xC3, CHR 0xA0] @ ''n th'' @ [CHR 0xC3, CHR 0xA0] @ ''nh th'' @ [CHR 0xC3, CHR 0xA0] @ ''nh c'' @ [CHR 0xC3, CHR 0xB4] @ ''ng''),
     (''COMMON.OPERATION_COMPLETED'', ''Thao t'' @ [CHR 0xC3, CHR 0xA1] @ ''c ho'' @ [CHR 0xC3, CHR 0xA0] @ ''n th'' @ [CHR 0xC3, CHR 0xA0] @ ''nh''),
     (''COMMON.LIST_FOUND'', ''L'' @ [CHR 0xE1, CHR 0xBA, CHR 0xA5] @ ''y danh s'' @ [CHR 0xC3, CHR 0xA1] @ ''ch th'' @ [CHR 0xC3, CHR 0xA0] @ ''nh c'' @ [CHR 0xC3, CHR 0xB4] @ ''ng''),
     (''COMMON.CREATED'', ''T'' @ [CHR 0xE1, CHR 0xBA, CHR 0xA1] @ ''o m'' @ [CHR 0xE1, CHR 0xBB, CHR 0x9B] @ ''i th'' @ [CHR 0xC3, CHR 0xA0] @ ''nh c'' @ [CHR 0xC3, CHR 0xB4] @ ''ng''),
     (''COMMON.UPDATED'', ''C'' @ [CHR 0xE1, CHR 0xBA, CHR 0xAD] @ ''p nh'' @ [CHR 0xE1, CHR 0xBA, CHR 0xAD] @ ''t th'' @ [CHR 0xC3, CHR 0xA0] @ ''nh c'' @ [CHR 0xC3, CHR 0xB4] @ ''ng''),
     (''COMMON.DELETED'', ''X'' @ [CHR 0xC3, CHR 0xB3] @ ''a th'' @ [CHR 0xC3, CHR 0xA0] @ ''nh c'' @ [CHR 0xC3, CHR 0xB4] @ ''ng''),
     (''COMMON.INTERNAL_ERROR'', ''L'' @ [CHR 0xE1, CHR 0xBB, CHR 0x97] @ ''i m'' @ [CHR 0xC3, CHR 0xA1] @ ''y ch'' @ [CHR 0xE1, CHR 0xBB, CHR 0xA7]),
     (''COMMON.VALIDATION_ERROR'', ''L'' @ [CHR 0xE1, CHR 0xBB, CHR 0x97] @ ''i x'' @ [CHR 0xC3, CHR 0xA1] @ ''c th'' @ [CHR 0xE1, CHR 0xBB, CHR 0xB1] @ ''c d'' @ [CHR 0xE1, CHR 0xBB, CHR 0xAF] @ '' li'' @ [CHR 0xE1, CHR 0xBB, CHR 0x87] @ ''u''),
     (''COMMON.UNAUTHORIZED'', ''Truy c'' @ [CHR 0xE1, CHR 0xBA, CHR 0xAD] @ ''p kh'' @ [CHR 0xC3, CHR 0xB4] @ ''ng '' @ [CHR 0xC4, CHR 0x91, CHR 0xC6, CHR 0xB0, CHR 0xE1, CHR 0xBB, CHR 0xA3] @ ''c ph'' @ [CHR 0xC3, CHR 0xA9] @ ''p''),
     (''COMMON.FORBIDDEN'', ''Truy c'' @ [CHR 0xE1, CHR 0xBA, CHR 0xAD] @ ''p b'' @ [CHR 0xE1, CHR 0xBB, CHR 0x8B] @ '' c'' @ [CHR 0xE1, CHR 0xBA, CHR 0xA5] @ ''m''),
     (''COMMON.BAD_REQUEST'', ''Y'' @ [CHR 0xC3, CHR 0xAA] @ ''u c'' @ [CHR 0xE1, CHR 0xBA, CHR 0xA7] @ ''u kh'' @ [CHR 0xC3, CHR 0xB4] @ ''ng h'' @ [CHR 0xE1, CHR 0xBB, CHR 0xA3] @ ''p l'' @ [CHR 0xE1, CHR 0xBB, CHR 0x87]),
     (''COMMON.NOT_FOUND'', ''Kh'' @ [CHR 0xC3, CHR 0xB4] @ ''ng t'' @ [CHR 0xC3, CHR 0xAC] @ ''m th'' @ [CHR 0xE1, CHR 0xBA, CHR 0xA5] @ ''y d'' @ [CHR 0xE1, CHR 0xBB, CHR 0xAF] @ '' li'' @ [CHR 0xE1, CHR 0xBB, CHR 0x87] @ ''u''),
     (''COMMON.ALREADY_EXISTS'', ''D'' @ [CHR 0xE1, CHR 0xBB, CHR 0xAF] @ '' li'' @ [CHR 0xE1, CHR 0xBB, CHR 0x87] @ ''u '' @ [CHR 0xC4, CHR 0x91, CHR 0xC3, CHR 0xA3] @ '' t'' @ [CHR 0xE1, CHR 0xBB, CHR 0x93] @ ''n t'' @ [CHR 0xE1, CHR 0xBA, CHR 0xA1] @ ''i''),
     (''COMMON.CANNOT_BE_CREATED'', ''Kh'' @ [CHR 0xC3, CHR 0xB4] @ ''ng th'' @ [CHR 0xE1, CHR 0xBB, CHR 0x83] @ '' t'' @ [CHR 0xE1, CHR 0xBA, CHR 0xA1] @ ''o''),
     (''COMMON.CANNOT_BE_UPDATED'', ''Kh'' @ [CHR 0xC3, CHR 0xB4] @ ''ng th'' @ [CHR 0xE1, CHR 0xBB, CHR 0x83] @ '' c'' @ [CHR 0xE1, CHR 0xBA, CHR 0xAD] @ ''p nh'' @ [CHR 0xE1, CHR 0xBA, CHR 0xAD] @ ''t''),
     (''COMMON.CANNOT_BE_DELETED'', ''Kh'' @ [CHR 0xC3, CHR 0xB4] @ ''ng th'' @ [CHR 0xE1, CHR 0xBB, CHR 0x83] @ '' x'' @ [CHR 0xC3, CHR 0xB3] @ ''a''),
     (''COMMON.INVALID_DATA'', ''D'' @ [CHR 0xE1, CHR 0xBB, CHR 0xAF] @ '' li'' @ [CHR 0xE1, CHR 0xBB, CHR 0x87] @ ''u kh'' @ [CHR 0xC3, CHR 0xB4] @ ''ng h'' @ [CHR 0xE1, CHR 0xBB, CHR 0xA3] @ ''p l'' @ [CHR 0xE1, CHR 0xBB, CHR 0x87]),
     (''VALIDATION.REQUIRED'', ''{field} l'' @ [CHR 0xC3, CHR 0xA0] @ '' b'' @ [CHR 0xE1, CHR 0xBA, CHR 0xAF] @ ''t bu'' @ [CHR 0xE1, CHR 0xBB, CHR 0x99] @ ''c''),
     (''VALIDATION.INVALID_EMAIL'', [CHR 0xC4, CHR 0x90, CHR 0xE1, CHR 0xBB, CHR 0x8B] @ ''nh d'' @ [CHR 0xE1, CHR 0xBA, CHR 0xA1] @ ''ng email kh'' @ [CHR 0xC3, CHR 0xB4] @ ''ng h'' @ [CHR 0xE1, CHR 0xBB, CHR 0xA3] @ ''p l'' @ [CHR 0xE1, CHR 0xBB, CHR 0x87]),
     (''VALIDATION.INVALID_PHONE'', [CHR 0xC4, CHR 0x90, CHR 0xE1, CHR 0xBB, CHR 0x8B] @ ''nh d'' @ [CHR 0xE1, CHR 0xBA, CHR 0xA1] @ ''ng s'' @ [CHR 0xE1, CHR 0xBB, CHR 0x91] @ '' '' @ [CHR 0xC4, CHR 0x91] @ ''i'' @ [CHR 0xE1, CHR 0xBB, CHR 0x87] @ ''n tho'' @ [CHR 0xE1, CHR 0xBA, CHR 0xA1] @ ''i kh'' @ [CHR 0xC3, CHR 0xB4] @ ''ng h'' @ [CHR 0xE1, CHR 0xBB, CHR 0xA3] @ ''p l'' @ [CHR 0xE1, CHR 0xBB, CHR 0x87]),
     (''VALIDATION.INVALID_ROLE'', ''Vai tr'' @ [CHR 0xC3, CHR 0xB2] @ '' kh'' @ [CHR 0xC3, CHR 0xB4] @ ''ng h'' @ [CHR 0xE1, CHR 0xBB, CHR 0xA3] @ ''p l'' @ [CHR 0xE1, CHR 0xBB, CHR 0x87]),
     (''VALIDATION.MIN_LENGTH'', ''{field} ph'' @ [CHR 0xE1, CHR 0xBA, CHR 0xA3] @ ''i c'' @ [CHR 0xC3, CHR 0xB3] @ '' '' @ [CHR 0xC3, CHR 0xAD] @ ''t nh'' @ [CHR 0xE1, CHR 0xBA, CHR 0xA5] @ ''t {min} k'' @ [CHR 0xC3, CHR 0xBD] @ '' t'' @ [CHR 0xE1, CHR 0xBB, CHR 0xB1]),
     (''VALIDATION.MAX_LENGTH'', ''{field} kh'' @ [CHR 0xC3, CHR 0xB4] @ ''ng '' @ [CHR 0xC4, CHR 0x91, CHR 0xC6, CHR 0xB0, CHR 0xE1, CHR 0xBB, CHR 0xA3] @ ''c v'' @ [CHR 0xC6, CHR 0xB0, CHR 0xE1, CHR 0xBB, CHR 0xA3] @ ''t qu'' @ [CHR 0xC3, CHR 0xA1] @ '' {max} k'' @ [CHR 0xC3, CHR 0xBD] @ '' t'' @ [CHR 0xE1, CHR 0xBB, CHR 0xB1]),
     (''FILTER_AND_SORT.ONLY_ONE_SORT_PARAM'', ''Ch'' @ [CHR 0xE1, CHR 0xBB, CHR 0x89] @ '' '' @ [CHR 0xC4, CHR 0x91, CHR 0xC6, CHR 0xB0, CHR 0xE1, CHR 0xBB, CHR 0xA3] @ ''c ph'' @ [CHR 0xC3, CHR 0xA9] @ ''p s'' @ [CHR 0xE1, CHR 0xBB, CHR 0xAD] @ '' d'' @ [CHR 0xE1, CHR 0xBB, CHR 0xA5] @ ''ng m'' @ [CHR 0xE1, CHR 0xBB, CHR 0x99] @ ''t trong hai tham s'' @ [CHR 0xE1, CHR 0xBB, CHR 0x91] @ '' s'' @ [CHR 0xE1, CHR 0xBA, CHR 0xAF] @ ''p x'' @ [CHR 0xE1, CHR 0xBA, CHR 0xBF] @ ''p: sortAz ho'' @ [CHR 0xE1, CHR 0xBA, CHR 0xB7] @ ''c sortPrice''),
     (''FILTER_AND_SORT.INVALID_MIN_MAX_PRICE'', ''Gi'' @ [CHR 0xC3, CHR 0xA1] @ '' tr'' @ [CHR 0xE1, CHR 0xBB, CHR 0x8B] @ '' minPrice v'' @ [CHR 0xC3, CHR 0xA0] @ '' maxPrice ph'' @ [CHR 0xE1, CHR 0xBA, CHR 0xA3] @ ''i l'' @ [CHR 0xC3, CHR 0xA0] @ '' s'' @ [CHR 0xE1, CHR 0xBB, CHR 0x91] @ '' h'' @ [CHR 0xE1, CHR 0xBB, CHR 0xA3] @ ''p l'' @ [CHR 0xE1, CHR 0xBB, CHR 0x87]),
     (''FILTER_AND_SORT.MIN_PRICE_LESS_THAN_MAX'', ''Gi'' @ [CHR 0xC3, CHR 0xA1] @ '' t'' @ [CHR 0xE1, CHR 0xBB, CHR 0x91] @ ''i thi'' @ [CHR 0xE1, CHR 0xBB, CHR 0x83] @ ''u ph'' @ [CHR 0xE1, CHR 0xBA, CHR 0xA3] @ ''i nh'' @ [CHR 0xE1, CHR 0xBB, CHR 0x8F] @ '' h'' @ [CHR 0xC6, CHR 0xA1] @ ''n ho'' @ [CHR 0xE1, CHR 0xBA, CHR 0xB7] @ ''c b'' @ [CHR 0xE1, CHR 0xBA, CHR 0xB1] @ ''ng gi'' @ [CHR 0xC3, CHR 0xA1] @ '' t'' @ [CHR 0xE1, CHR 0xBB, CHR 0x91] @ ''i '' @ [CHR 0xC4, CHR 0x91] @ ''a''),
     (''FILTER_AND_SORT.INVALID_CATEGORY_ID'', ''ID danh m'' @ [CHR 0xE1, CHR 0xBB, CHR 0xA5] @ ''c kh'' @ [CHR 0xC3, CHR 0xB4] @ ''ng h'' @ [CHR 0xE1, CHR 0xBB, CHR 0xA3] @ ''p l'' @ [CHR 0xE1, CHR 0xBB, CHR 0x87]),
     (''FILTER_AND_SORT.INVALID_TAG_ID'', ''ID th'' @ [CHR 0xE1, CHR 0xBA, CHR 0xBB] @ '' kh'' @ [CHR 0xC3, CHR 0xB4] @ ''ng h'' @ [CHR 0xE1, CHR 0xBB, CHR 0xA3] @ ''p l'' @ [CHR 0xE1, CHR 0xBB, CHR 0x87])]"

text \<open>
  \<open>params\<close>: the entries of the object in order, each value after \<open>String\<close>. A key is not one of the
  names every JavaScript object inherits.
\<close>

definition formatMessage :: "string \<Rightarrow> (string \<times> string) list \<Rightarrow> string" where
  "formatMessage key params = fold (\<lambda>(p, v) message. replace_first (''{'' @ p @ ''}'') v message) params
     (or_str (map_of MESSAGE_TEMPLATES key) key)"

section \<open>The wrappers\<close>

definition COMMON_SUCCESS :: string where "COMMON_SUCCESS = ''COMMON.SUCCESS''"
definition COMMON_LIST_FOUND :: string where "COMMON_LIST_FOUND = ''COMMON.LIST_FOUND''"

definition successResponse :: "json option \<Rightarrow> string option \<Rightarrow> (string \<times> string) list \<Rightarrow> string \<Rightarrow> api_response" where
  "successResponse data messageKey params now =
     \<lparr>ar_success = True, ar_messageKey = nullish messageKey COMMON_SUCCESS,
      ar_message = formatMessage (nullish messageKey COMMON_SUCCESS) params, ar_data = data, ar_errors = None, ar_timestamp = now\<rparr>"

definition errorResponse :: "string \<Rightarrow> (string \<times> string) list \<Rightarrow> string list option \<Rightarrow> string \<Rightarrow> api_response" where
  "errorResponse messageKey params errors now =
     \<lparr>ar_success = False, ar_messageKey = messageKey, ar_message = formatMessage messageKey params, ar_data = None,
      ar_errors = errors, ar_timestamp = now\<rparr>"

definition listResponse :: "json list \<Rightarrow> int \<Rightarrow> int option \<Rightarrow> int option \<Rightarrow> string option \<Rightarrow> string \<Rightarrow> api_response" where
  "listResponse data count page l messageKey now =
     \<lparr>ar_success = True, ar_messageKey = nullish messageKey COMMON_LIST_FOUND,
      ar_message = formatMessage (nullish messageKey COMMON_LIST_FOUND) [],
      ar_data = Some (JObj ([(''items'', JArr data), (''total'', JNum count)]
        @ opt_member ''page'' (map_option JNum page) @ opt_member ''limit'' (map_option JNum l))),
      ar_errors = None, ar_timestamp = now\<rparr>"

text \<open>\<open>TransformInterceptor\<close>.\<close>

definition transform :: "json option \<Rightarrow> string \<Rightarrow> api_response" where
  "transform data now = successResponse data None [] now"

section \<open>Every key has its text\<close>

lemma template_keys: "distinct (map fst MESSAGE_TEMPLATES)" "set (map fst MESSAGE_TEMPLATES) = set MESSAGE_KEYS"
  by code_simp+

text \<open>
  No message falls back to its key: for each of the keys there is exactly one text, and it is not
  empty (a template that is the empty string would be replaced by the key).
\<close>

lemma every_key_has_text: "k \<in> set MESSAGE_KEYS \<Longrightarrow> \<exists>m. map_of MESSAGE_TEMPLATES k = Some m \<and> m \<noteq> [] \<and> formatMessage k [] = m"
proof -
  have all: "\<forall>(k, m) \<in> set MESSAGE_TEMPLATES. m \<noteq> []" by code_simp
  assume "k \<in> set MESSAGE_KEYS"
  then obtain m where m: "map_of MESSAGE_TEMPLATES k = Some m"
    using template_keys(2) by (metis list.set_map map_of_eq_None_iff option.exhaust)
  then have "m \<noteq> []" using all map_of_SomeD by fastforce
  with m show ?thesis by (simp add: formatMessage_def or_str_def truthy_def)
qed

section \<open>Filling a placeholder\<close>

lemma split_first_Some: "split_first pat s = Some (a, b) \<Longrightarrow> s = a @ pat @ b"
proof (induction s arbitrary: a b)
  case (Cons c s)
  then show ?case
    by (auto simp: starts_with_def split: if_splits option.splits) (metis append_take_drop_id)
qed (simp split: if_splits)

lemma expand_plain: "CHR ''$'' \<notin> set r \<Longrightarrow> expand before m after r = r"
  by (induction before m after r rule: expand.induct) auto

text \<open>
  A value without a dollar sign goes in literally, in place of the first occurrence of the
  placeholder; one with a pattern of \<open>replace\<close> does not: \<open>$&\<close> puts the placeholder back.
\<close>

lemma replace_first_plain:
  assumes "CHR ''$'' \<notin> set v" and "split_first pat s = Some (a, b)"
  shows "s = a @ pat @ b \<and> replace_first pat v s = a @ v @ b"
  using split_first_Some [OF assms(2)] assms expand_plain by (simp add: replace_first_def)

lemma dollar_value_breaks:
  "formatMessage ''VALIDATION.REQUIRED'' [(''field'', ''$&'')] = formatMessage ''VALIDATION.REQUIRED'' []"
  by code_simp

end
