(* ===== verification/Gateway.thy ===== *)
theory Gateway
  imports Access AuthClient WsGateway Response
begin

text \<open>
  The HTTP side of the gateway: the request id (\<open>request-id.middleware.ts\<close>), the three global
  guards of \<open>app.module.ts\<close> in their order with the second \<open>JwtAuthGuard\<close> of the controllers that
  ask for it, and the routes of \<open>auth-client.controller.ts\<close>, \<open>role-client.controller.ts\<close>,
  \<open>notification.controller.ts\<close> and \<open>app.controller.ts\<close>: a constructor per handler, its decorators,
  and the call it makes of its service.
\<close>

section \<open>The state and the environment\<close>

record 'w gate =
  gt_redis :: redis
  gt_gw :: "'w gw"

record gate_env =
  gx_verify :: verify_opts
  gx_lib :: jwt_lib
  gx_sha :: "string \<Rightarrow> string"
  gx_rl :: rl_config
  gx_up :: bool
  gx_gw :: gw_env
  gx_permissions :: "string \<Rightarrow> auth_reply"

text \<open>\<open>gq_header\<close> is the header \<open>x-request-id\<close> as it came in, \<open>gq_uuid\<close> the fresh one.\<close>

record gate_request =
  gq_authorization :: "string option"
  gq_header :: "string option"
  gq_uuid :: string
  gq_path :: string
  gq_rate :: rate_request

definition requestIdMiddleware :: "gate_request \<Rightarrow> string" where
  "requestIdMiddleware q = or_str (gq_header q) (gq_uuid q)"

definition getRequestId :: "string option \<Rightarrow> string option \<Rightarrow> string" where
  "getRequestId requestId header = nullish requestId (nullish header [])"

section \<open>\<open>auth-client.controller.ts\<close>\<close>

datatype auth_op = Me | Login json | RegisterUser json "string option" | VerifyCode json | ConfirmCode json
  | ResendCode string | Refresh "string option" "string option" | LogoutDevice "string option" "string option"
  | LogoutAll | ForgotPassword json | ForgotVerify json | ForgotReset json

fun auth_route :: "auth_op \<Rightarrow> route" where
  "auth_route Me = plain_route"
| "auth_route (Login _) = public_route [rule_ip ''login:ip'' 10 60, rule_email ''login:email'' 5 60]"
| "auth_route (RegisterUser _ _) = public_route [rule_ip ''register:ip'' 5 60]"
| "auth_route (VerifyCode _) = plain_route\<lparr>ro_public := True\<rparr>"
| "auth_route (ConfirmCode _) = plain_route\<lparr>ro_public := True\<rparr>"
| "auth_route (ResendCode _) = public_route [rule_ip ''resend:ip'' 5 60, rule_email ''resend:email'' 2 60]"
| "auth_route (Refresh _ _) = public_route [rule_ip ''refresh:ip'' 20 60]"
| "auth_route (LogoutDevice _ _) = plain_route"
| "auth_route LogoutAll = plain_route"
| "auth_route (ForgotPassword _) = public_route [rule_ip ''forgot:ip'' 5 600, rule_email ''forgot:email'' 2 600]"
| "auth_route (ForgotVerify _) = public_route [rule_ip ''forgot-verify:ip'' 10 600]"
| "auth_route (ForgotReset _) = public_route [rule_ip ''forgot-reset:ip'' 5 600]"

text \<open>
  \<open>rid\<close> is \<open>req.requestId || ''\<close>, \<open>a\<close> the header \<open>Authorization\<close>; the response is always passed
  in, and the user id the two logouts pass is read by neither client function.
\<close>

fun auth_handle :: "gw_env \<Rightarrow> 'w network \<Rightarrow> int \<Rightarrow> int \<Rightarrow> string \<Rightarrow> string \<Rightarrow> string option \<Rightarrow> auth_op \<Rightarrow> ('w, json) gwp" where
  "auth_handle E net t t' rid path a Me = getProfileByUserId E net rid a"
| "auth_handle E net t t' rid path a (Login dto) = client_login E net dto rid True"
| "auth_handle E net t t' rid path a (RegisterUser dto key) = client_register E net t t' dto rid path key"
| "auth_handle E net t t' rid path a (VerifyCode dto) = client_verify E net dto rid"
| "auth_handle E net t t' rid path a (ConfirmCode dto) = client_confirm E net dto rid"
| "auth_handle E net t t' rid path a (ResendCode email) = client_resendCode E net email rid"
| "auth_handle E net t t' rid path a (Refresh refreshToken deviceId) =
     client_refresh E net (nullish refreshToken []) (nullish deviceId []) rid True"
| "auth_handle E net t t' rid path a (LogoutDevice deviceId refreshToken) =
     client_logoutDevice E net (nullish deviceId []) (nullish refreshToken []) rid True a"
| "auth_handle E net t t' rid path a LogoutAll = client_logoutAll E net rid True a"
| "auth_handle E net t t' rid path a (ForgotPassword dto) = client_forgotPassword E net dto rid"
| "auth_handle E net t t' rid path a (ForgotVerify dto) = client_forgotPasswordVerify E net dto rid"
| "auth_handle E net t t' rid path a (ForgotReset dto) = client_forgotPasswordReset E net dto rid"

section \<open>\<open>role-client.controller.ts\<close>\<close>

datatype role_op = CreateRole json | FindRoles | RolesOf string | PermissionsOf string | FindRole string
  | UpdateRole string json | RemoveRole string | AssignRole json | UnassignRole json

definition rule_user :: "string \<Rightarrow> int \<Rightarrow> int \<Rightarrow> rate_rule" where
  "rule_user prefix l w = \<lparr>ru_prefix = prefix, ru_limit = l, ru_window = w, ru_keySource = ''userId'', ru_message = None\<rparr>"

text \<open>The rules of a handler take the place of those of its class.\<close>

definition class_or_own :: "rate_rule \<Rightarrow> rate_rule option \<Rightarrow> route" where
  "class_or_own cls own = plain_route\<lparr>ro_rate := Some [nullish own cls]\<rparr>"

definition role_class :: rate_rule where "role_class = rule_user ''api:roles'' 60 60"

fun role_route :: "role_op \<Rightarrow> route" where
  "role_route (CreateRole _) = class_or_own role_class (Some (rule_user ''api:roles:create'' 10 60))"
| "role_route (AssignRole _) = class_or_own role_class (Some (rule_user ''api:roles:assign'' 10 60))"
| "role_route (UnassignRole _) = class_or_own role_class (Some (rule_user ''api:roles:unassign'' 10 60))"
| "role_route _ = class_or_own role_class None"

fun role_handle :: "gw_env \<Rightarrow> 'w network \<Rightarrow> string \<Rightarrow> string option \<Rightarrow> role_op \<Rightarrow> ('w, json) gwp" where
  "role_handle E net rid a (CreateRole dto) = role_create E net dto rid a"
| "role_handle E net rid a FindRoles = role_findAll E net rid a"
| "role_handle E net rid a (RolesOf userId) = role_getRolesForUser E net userId rid a"
| "role_handle E net rid a (PermissionsOf userId) = role_getPermissionsForUser E net userId rid a"
| "role_handle E net rid a (FindRole i) = role_findOne E net i rid a"
| "role_handle E net rid a (UpdateRole i dto) = role_update E net i dto rid a"
| "role_handle E net rid a (RemoveRole i) = role_remove E net i rid a"
| "role_handle E net rid a (AssignRole dto) = role_assign E net dto rid a"
| "role_handle E net rid a (UnassignRole dto) = role_unassign E net dto rid a"

section \<open>\<open>notification.controller.ts\<close> and \<open>app.controller.ts\<close>\<close>

datatype noti_op = Ping | CreateNoti json | ListNoti "string option" "string option" "string option" "string option"
  | CountUnread | MarkRead string | ReadAll

definition noti_class :: rate_rule where "noti_class = rule_user ''api:notification'' 60 60"

fun noti_route :: "noti_op \<Rightarrow> route" where
  "noti_route Ping = (class_or_own noti_class None)\<lparr>ro_public := True\<rparr>"
| "noti_route (CreateNoti _) = class_or_own noti_class (Some (rule_user ''api:notification:create'' 10 60))"
| "noti_route (MarkRead _) = class_or_own noti_class (Some (rule_user ''api:notification:read'' 30 60))"
| "noti_route ReadAll = class_or_own noti_class (Some (rule_user ''api:notification:read-all'' 10 60))"
| "noti_route _ = class_or_own noti_class None"

definition on_world :: "('w, exn, 'a) prog \<Rightarrow> ('w, 'a) gwp" where
  "on_world m = (\<lambda>s. let (r, w) = m (gw_world s) in (r, s\<lparr>gw_world := w\<rparr>))"

fun noti_handle :: "'w network \<Rightarrow> string \<Rightarrow> string option \<Rightarrow> noti_op \<Rightarrow> ('w, json) gwp" where
  "noti_handle net rid a Ping = on_world (noti_ping net)"
| "noti_handle net rid a (CreateNoti dto) = on_world (noti_create net dto a rid)"
| "noti_handle net rid a (ListNoti page l sortBy sortOrder) = on_world (noti_findAll net a rid page l sortBy sortOrder)"
| "noti_handle net rid a CountUnread = on_world (noti_unreadCount net a rid)"
| "noti_handle net rid a (MarkRead i) = on_world (noti_markRead net i a rid)"
| "noti_handle net rid a ReadAll = on_world (noti_readAll net a rid)"

datatype app_op = Hello | Health | DebugServiceError

fun app_handle :: "app_op \<Rightarrow> ('w, json) gwp" where
  "app_handle Hello = ret (JStr ''Hello World!'')"
| "app_handle Health = ret (JObj [(''ok'', JBool True)])"
| "app_handle DebugServiceError = throw (service_exn AUTH_INVALID_CREDENTIALS 999 ''Invalid email or password'')"

section \<open>The guards and a request\<close>

datatype gate_op = AuthOp auth_op | RoleOp role_op | NotiOp noti_op | AppOp app_op

fun gate_route :: "gate_op \<Rightarrow> route" where
  "gate_route (AuthOp c) = auth_route c"
| "gate_route (RoleOp c) = role_route c"
| "gate_route (NotiOp c) = noti_route c"
| "gate_route (AppOp c) = plain_route\<lparr>ro_public := True\<rparr>"

text \<open>The auth and role controllers run \<open>JwtAuthGuard\<close> a second time.\<close>

fun guarded_twice :: "gate_op \<Rightarrow> bool" where
  "guarded_twice (AuthOp _) = True"
| "guarded_twice (RoleOp _) = True"
| "guarded_twice _ = False"

definition gate_guards :: "gate_env \<Rightarrow> int \<Rightarrow> gate_op \<Rightarrow> gate_request \<Rightarrow> (guard_state, exn, req_user) prog" where
  "gate_guards G t c q =
     (let rt = gate_route c;
          jwt = gateway_canActivate (gx_verify G) (gx_lib G) t (ro_public rt) (gq_authorization q)
      in bind (lift jwt) (\<lambda>(user, _).
        (let u = nullish user no_user
         in andthen (canActivate_rate (gx_sha G) (gx_rl G) (gx_up G) t
              ((gq_rate q)\<lparr>rq_userId := usr_userId u, rq_sub := None\<rparr>) (ro_rate rt))
           (andthen (on_redis (canActivate_perm t (gx_permissions G) (ro_public rt) (ro_permissions rt) u))
           (andthen (if guarded_twice c then bind (lift jwt) (\<lambda>_. ret ()) else ret ())
             (ret u))))))"

fun gate_handle :: "gw_env \<Rightarrow> 'w network \<Rightarrow> int \<Rightarrow> int \<Rightarrow> gate_request \<Rightarrow> gate_op \<Rightarrow> ('w, json) gwp" where
  "gate_handle E net t t' q (AuthOp c) =
     auth_handle E net t t' (or_str (Some (requestIdMiddleware q)) []) (gq_path q) (gq_authorization q) c"
| "gate_handle E net t t' q (RoleOp c) =
     role_handle E net (getRequestId (Some (requestIdMiddleware q)) (gq_header q)) (gq_authorization q) c"
| "gate_handle E net t t' q (NotiOp c) = noti_handle net (requestIdMiddleware q) (gq_authorization q) c"
| "gate_handle E net t t' q (AppOp c) = app_handle c"

definition gateway_http ::
  "gate_env \<Rightarrow> 'w network \<Rightarrow> int \<Rightarrow> int \<Rightarrow> gate_request \<Rightarrow> gate_op \<Rightarrow> ('w gate, exn, json) prog" where
  "gateway_http G net t t' q c = (\<lambda>s.
     (case gate_guards G t c q \<lparr>gs_redis = gt_redis s, gs_headers = None\<rparr> of
        (Inl e, g) \<Rightarrow> (Inl e, s\<lparr>gt_redis := gs_redis g\<rparr>)
      | (Inr u, g) \<Rightarrow>
          (let (r, z) = gate_handle (gx_gw G) net t t' q c (gt_gw s)
           in (r, \<lparr>gt_redis = gs_redis g, gt_gw = z\<rparr>))))"

section \<open>The answer\<close>

text \<open>\<open>@HttpCode\<close>, or NestJS's default: 201 for a \<open>POST\<close>, 200 otherwise.\<close>

fun success_status :: "gate_op \<Rightarrow> int" where
  "success_status (AuthOp (RegisterUser _ _)) = 201"
| "success_status (RoleOp (CreateRole _)) = 201"
| "success_status (NotiOp (CreateNoti _)) = 201"
| "success_status (NotiOp (MarkRead _)) = 201"
| "success_status (NotiOp ReadAll) = 201"
| "success_status _ = 200"

text \<open>\<open>main.ts\<close>: \<open>TransformInterceptor\<close> on a result, \<open>HttpExceptionFilter\<close> on an exception.\<close>

definition gateway_answer :: "string \<Rightarrow> gate_op \<Rightarrow> exn + json \<Rightarrow> (int \<times> api_response) option" where
  "gateway_answer now c result = (case result of
     Inr d \<Rightarrow> Some (success_status c, transform (Some d) now)
   | Inl e \<Rightarrow> snd (http_exception_catch e None False now))"

section \<open>What the gateway sends\<close>

text \<open>A network that keeps the calls made through it.\<close>

definition recorded :: "'w network \<Rightarrow> ('w \<times> http_call list) network" where
  "recorded net call = (\<lambda>(w, calls). let (r, w') = net call w in (r, (w', calls @ [call])))"

abbreviation calls_of :: "('w \<times> http_call list) gw \<Rightarrow> http_call list" where
  "calls_of s \<equiv> snd (gw_world s)"

text \<open>Every call made so far is of one kind.\<close>

definition only :: "(http_call \<Rightarrow> bool) \<Rightarrow> ('w \<times> http_call list) gw \<Rightarrow> bool" where
  "only P s \<longleftrightarrow> list_all P (calls_of s)"

lemma only_via: "P call \<Longrightarrow> preserves (only P) (via (recorded net) call)"
  by (rule preservesI) (auto simp: only_def recorded_def split: prod.splits)

lemma only_emit: "preserves (only P) (emit e)"
  by (rule preservesI) (simp add: only_def emit_def)

lemma only_guarded: "preserves I m \<Longrightarrow> preserves I (guarded d m)"
  unfolding guarded_def by (intro preserves_catchp preserves_throw)

lemma only_checked: "P call \<Longrightarrow> preserves (only P) (checked_call (via (recorded net)) d call)"
  unfolding checked_call_def check_status_def
  by (intro only_guarded preserves_intros only_via preserves_throw_if preserves_ret)

lemma only_forward: "preserves (only P) (forwardSetCookie r)"
  unfolding forwardSetCookie_def by (intro preserves_intros only_emit)

lemma only_clear: "preserves (only P) clear_cookies"
  unfolding clear_cookies_def by (intro preserves_intros only_emit)

lemma only_unchecked: "P call \<Longrightarrow> preserves (only P) (on_world (unchecked_call (recorded net) d call))"
  by (rule preservesI) (auto simp: only_def on_world_def unchecked_call_def guarded_run bind_run recorded_def split: prod.splits sum.splits)

lemma only_checked_world: "P call \<Longrightarrow> preserves (only P) (on_world (checked_call (recorded net) d call))"
  by (rule preservesI) (auto simp: only_def on_world_def checked_call_def check_status_def guarded_run bind_run andthen_run
      recorded_def split: prod.splits sum.splits)

lemmas only_intros = preserves_intros preserves_ret preserves_throw preserves_throw_if only_via only_guarded only_checked
  only_forward only_clear only_unchecked only_checked_world

section \<open>Whose token a call carries\<close>

definition carries :: "string \<Rightarrow> http_call \<Rightarrow> bool" where
  "carries a call \<longleftrightarrow> map_of (hc_headers call) ''Authorization'' = Some a \<and> map_of (hc_headers call) ''x-user-jwt'' = None"

lemma carries_auth [simp]:
  "carries a (simple_call m p (auth_getHeaders E rid (Some a)) b) \<longleftrightarrow> a \<noteq> [] \<or> ''Bearer '' @ gatewayToken E = a"
  "a \<noteq> [] \<Longrightarrow> map_of hs ''x-user-jwt'' = None \<Longrightarrow> carries a (simple_call m p (auth_getHeaders E rid (Some a) @ hs) b)"
  by (auto simp: carries_def simple_call_def auth_getHeaders_def)

lemma carries_role [simp]: "a \<noteq> [] \<Longrightarrow> carries a (simple_call m p (role_getHeaders E rid (Some a)) b)"
  by (simp add: carries_def simple_call_def role_getHeaders_def)

lemma carries_noti [simp]: "a \<noteq> [] \<Longrightarrow> carries a (noti_call m p (getHeaders rid (Some a)) b)"
  "carries a (c\<lparr>hc_params := ps\<rparr>) = carries a c"
  by (simp_all add: carries_def noti_call_def getHeaders_def)

lemma auth_own_token:
  assumes "a \<noteq> []" and "\<not> ro_public (auth_route c)"
  shows "preserves (only (carries a)) (auth_handle E (recorded net) t t' rid path (Some a) c)"
  using assms by (cases c) (auto simp: getProfileByUserId_def client_logoutDevice_def client_logoutAll_def check_status_def
      public_route_def plain_route_def cookie_header_def intro!: only_intros)

lemma role_own_token: "a \<noteq> [] \<Longrightarrow> preserves (only (carries a)) (role_handle E (recorded net) rid (Some a) c)"
  by (cases c) (auto simp: role_create_def role_findAll_def role_getRolesForUser_def role_getPermissionsForUser_def
      role_findOne_def role_update_def role_remove_def role_assign_def role_unassign_def role_call_def intro!: only_checked)

lemma noti_own_token:
  assumes "a \<noteq> []" and "\<not> ro_public (noti_route c)"
  shows "preserves (only (carries a)) (noti_handle (recorded net) rid (Some a) c)"
  using assms by (cases c) (auto simp: noti_create_def noti_findAll_def noti_unreadCount_def noti_markRead_def noti_readAll_def
      intro!: only_unchecked)

lemma gate_own_token:
  assumes "a \<noteq> []" and "gq_authorization q = Some a" and "\<not> ro_public (gate_route c)"
  shows "preserves (only (carries a)) (gate_handle E (recorded net) t t' q c)"
  using assms by (cases c) (auto intro: auth_own_token role_own_token noti_own_token)

section \<open>Who gets through\<close>

text \<open>Documented of \<open>passport-jwt\<close>: without an \<open>Authorization\<close> header, or with an empty one, there is no token.\<close>

definition bearer_ok :: "jwt_lib \<Rightarrow> bool" where
  "bearer_ok L \<longleftrightarrow> jl_bearer L None = None \<and> jl_bearer L (Some []) = None"

definition user_token :: "gate_env \<Rightarrow> int \<Rightarrow> string option \<Rightarrow> bool" where
  "user_token G t a \<longleftrightarrow> Option.bind (jl_bearer (gx_lib G) a) (jl_verify (gx_lib G) (gx_verify G) t) \<noteq> None"

lemma gateway_rejects:
  assumes "\<not> user_token G t a"
  shows "gateway_canActivate (gx_verify G) (gx_lib G) t False a = Inl unauthorized"
  using assms by (simp add: user_token_def gateway_canActivate_def passport_jwt_def)

text \<open>
  C24. The gateway is closed: on every route without \<open>@Public\<close>, a request whose token does not
  verify as a user's is answered with the 401, no rate limit counts it, and nothing is sent to any
  service.
\<close>
theorem gateway_closed:
  assumes "\<not> ro_public (gate_route c)" and "\<not> user_token G t (gq_authorization q)"
  shows "gateway_http G net t t' q c s = (Inl unauthorized, s)"
  using assms by (simp add: gateway_http_def gate_guards_def bind_run Let_def gateway_rejects)

text \<open>
  C23. The gateway never lends its own authority to a signed-in request: on every route without
  \<open>@Public\<close>, whatever the operation, every call made to a service carries the \<open>Authorization\<close> header
  of the request, unchanged, that header holds a token that verified as a user's, and there is no \<open>x-user-jwt\<close>. The
  documents say otherwise: \<open>docs/SECURITY.md\<close> (section 3) and \<open>docs/ARCHITECTURE.md\<close> describe these calls as carrying the
  internal token of the gateway, with the user's in \<open>x-user-jwt\<close>. The services therefore check the permissions of the user, which they skip for an internal token.
\<close>
theorem gateway_own_token:
  assumes "\<not> ro_public (gate_route c)" and "bearer_ok (gx_lib G)"
    and "gateway_http G (recorded net) t t' q c s = (r, s')" and "calls_of (gt_gw s) = []"
    and "call \<in> set (calls_of (gt_gw s'))"
  shows "\<exists>a. gq_authorization q = Some a \<and> map_of (hc_headers call) ''Authorization'' = Some a \<and> user_token G t (Some a)
    \<and> map_of (hc_headers call) ''x-user-jwt'' = None"
proof (cases "user_token G t (gq_authorization q)")
  case False
  then have "s' = s" using assms(1,3) by (simp add: gateway_http_def gate_guards_def bind_run Let_def gateway_rejects)
  then show ?thesis using assms(4,5) by simp
next
  case True
  then obtain a where a: "gq_authorization q = Some a" "a \<noteq> []"
    using assms(2) unfolding user_token_def bearer_ok_def
    by (cases "gq_authorization q"; cases "gq_authorization q = Some []") auto
  have "only (carries a) (gt_gw s')"
  proof -
    have "only (carries a) (gt_gw s)" using assms(4) by (simp add: only_def)
    moreover have "gt_gw s' = gt_gw s \<or> gt_gw s' = snd (gate_handle (gx_gw G) (recorded net) t t' q c (gt_gw s))"
      using assms(3) by (auto simp: gateway_http_def split: prod.splits sum.splits)
    ultimately show ?thesis using preservesD [OF gate_own_token [OF a(2,1) assms(1)]] by metis
  qed
  then show ?thesis using a True assms(5) by (auto simp: only_def list_all_iff carries_def)
qed

section \<open>What the auth service sees of the client\<close>

text \<open>
  A call of the gateway as the auth service's rate limiter reads it: the peer is the gateway, and
  the only forwarded address is one the gateway put in a header.
\<close>

definition call_request :: "string \<Rightarrow> http_call \<Rightarrow> rate_request" where
  "call_request gateway call =
     \<lparr>rq_forwarded = (case map_of (hc_headers call) ''x-forwarded-for'' of None \<Rightarrow> NoForwarded | Some v \<Rightarrow> ForwardedStr v),
      rq_ip = Some gateway, rq_remoteAddress = Some gateway, rq_userId = None, rq_sub = None, rq_body = hc_body call\<rparr>"

text \<open>Registering an account leaves Redis alone.\<close>

named_theorems redis_keep \<open>programs that leave Redis alone\<close>

lemma redis_basic [redis_keep]: "preserves (\<lambda>s. as_redis s = r) (read_db f)" "preserves (\<lambda>s. as_redis s = r) (write_db g)"
    "preserves (\<lambda>s. as_redis s = r) (effect e)" "preserves (\<lambda>s. as_redis s = r) (draw E)"
    "preserves (\<lambda>s. as_redis s = r) (hashPassword E p)" "preserves (\<lambda>s. as_redis s = r) (getEncryptKey E)"
    "preserves (\<lambda>s. as_redis s = r) (encrypt E x k)" "preserves (\<lambda>s. as_redis s = r) (publish E sub j)"
  by (simp_all add: preserves_def getEncryptKey_run publish_def)

lemma redis_users [redis_keep]: "preserves (\<lambda>s. as_redis s = r) (user_create row)"
    "preserves (\<lambda>s. as_redis s = r) (createOrUpdateEmailOtp E t u h)"
  unfolding user_create_def createOrUpdateEmailOtp_def
  by (intro preserves_intros redis_keep; simp add: redis_keep preserves_bind)+

lemma redis_auth_register: "as_redis (snd (auth_register E t dto rid s)) = as_redis s"
proof -
  have "preserves (\<lambda>s. as_redis s = r) (users_create E t dto)" for r
    unfolding users_create_def by (intro preserves_intros redis_keep) (auto intro!: preserves_intros redis_keep)
  then have "preserves (\<lambda>s. as_redis s = r) (auth_register E t dto rid)" for r
    unfolding auth_register_def by (intro preserves_intros preserves_ret preserves_lift redis_keep)
  from preservesD [OF this refl] show ?thesis .
qed

text \<open>A registration as the gateway sends it: its instant, its id, its body and what the pipe makes of the body.\<close>

type_synonym registration = "int \<times> string \<times> json \<times> (exn + create_dto) \<times> string option"

definition gateway_registration ::
  "access_env \<Rightarrow> auth_env \<Rightarrow> gw_env \<Rightarrow> string \<Rightarrow> registration \<Rightarrow> register_response auth" where
  "gateway_registration X Y E addr = (\<lambda>(t, rid, dto, body, requestId).
     http_register X Y t (map_of (hc_headers (register_call E rid dto)) ''Authorization'') (call_request addr (register_call E rid dto))
       body requestId)"

abbreviation register_budget :: "access_env \<Rightarrow> string \<Rightarrow> string" where
  "register_budget X addr \<equiv> full_key (ax_rl X) (''auth:register:ip:'' @ addr)"

lemma gateway_registration_run:
  assumes "addr \<noteq> []" and "ax_up X" and "\<not> rl_disabled (ax_rl X)"
    and "authenticate X t (Some (''Bearer '' @ gatewayToken E)) = Inr u"
  shows "gateway_registration X Y E addr (t, rid, dto, body, requestId) s =
    (case script_hit (register_budget X addr) 5 60000 t (as_redis s) of (ok, r) \<Rightarrow>
       if ok then bind (lift body) (\<lambda>dto. auth_register Y t dto requestId) (s\<lparr>as_redis := r\<rparr>)
       else (Inl (service_exn TOO_MANY_REQUESTS 429 ''Too many requests, please try again later''), s\<lparr>as_redis := r\<rparr>))"
proof -
  let ?c = "register_call E rid dto"
  have auth: "map_of (hc_headers ?c) ''Authorization'' = Some (''Bearer '' @ gatewayToken E)"
    by (simp add: simple_call_def auth_getHeaders_def)
  have ip: "extractIp ((call_request addr ?c)\<lparr>rq_userId := x, rq_sub := y\<rparr>) = addr" for x y
    using assms(1) by (simp add: extractIp_def call_request_def simple_call_def auth_getHeaders_def or_str_def truthy_def)
  obtain ok r where hit: "script_hit (register_budget X addr) 5 (60 * 1000) t (as_redis s) = (ok, r)" by fastforce
  obtain res where "check (ax_rl X) True t (''auth:register:ip:'' @ addr) (int 5) 60 (as_redis s) = (res, r)" "rr_allowed res = ok"
    by (rule check_script [OF assms(3), of t "''auth:register:ip:'' @ addr" 5 60 "as_redis s", unfolded hit]) simp
  then show ?thesis
    unfolding gateway_registration_def prod.case auth using assms(2,4) hit
    by (cases ok; cases body) (simp_all add: http_register_def serve_def guards_def plain_route_def auth_canActivate_def bind_run andthen_run
        canActivate_rate_def guard_loop_Cons pick_best_def buildKey_def ip rule_ip_def put_headers_def too_many_def or_str_def truthy_def
        canActivate_perm_def canActivate_token_type_def on_redis_def)
qed

lemma gateway_registration_redis:
  assumes "addr \<noteq> []" and "ax_up X" and "\<not> rl_disabled (ax_rl X)"
    and "authenticate X (fst q) (Some (''Bearer '' @ gatewayToken E)) = Inr u"
  shows "as_redis (snd (gateway_registration X Y E addr q s)) = snd (script_hit (register_budget X addr) 5 60000 (fst q) (as_redis s))"
proof -
  obtain t rid dto body requestId where q: "q = (t, rid, dto, body, requestId)" by (cases q)
  have "as_redis (snd (bind (lift body) (\<lambda>dto. auth_register Y t dto requestId) w)) = as_redis w" for w
    by (cases body) (simp_all add: bind_run redis_auth_register)
  then show ?thesis
    using gateway_registration_run [OF assms(1-3), of t E u] assms(4) by (simp add: q split: prod.split)
qed

definition registrations :: "access_env \<Rightarrow> auth_env \<Rightarrow> gw_env \<Rightarrow> string \<Rightarrow> registration list \<Rightarrow> auth_state \<Rightarrow> auth_state" where
  "registrations X Y E addr qs s = fold (\<lambda>q s. snd (gateway_registration X Y E addr q s)) qs s"

lemma registrations_redis:
  assumes "addr \<noteq> []" and "ax_up X" and "\<not> rl_disabled (ax_rl X)"
    and "\<forall>q\<in>set qs. \<exists>u. authenticate X (fst q) (Some (''Bearer '' @ gatewayToken E)) = Inr u"
  shows "as_redis (registrations X Y E addr qs s) = after_hits (script_hit (register_budget X addr) 5 60000) (as_redis s) (map fst qs)"
  using assms(4)
proof (induction qs arbitrary: s)
  case (Cons q qs)
  then obtain u where u: "authenticate X (fst q) (Some (''Bearer '' @ gatewayToken E)) = Inr u" by auto
  show ?case
    using Cons.IH [of "snd (gateway_registration X Y E addr q s)"] Cons.prems gateway_registration_redis [OF assms(1-3) u]
    by (simp add: registrations_def)
qed (simp add: registrations_def)

text \<open>
  C39. All clients of the gateway share one budget of registrations: the auth service counts them by IP address, and
  the gateway calls it from its own and forwards no other. When five registrations went through the gateway within a minute,
  starting while no window was open and whatever became of them, every further one in that minute, of any client and with any body and
  request id, is refused with the 429, never reaches the handler and changes nothing.
\<close>
theorem gateway_shared_budget:
  assumes "addr \<noteq> []" and "ax_up X" and "\<not> rl_disabled (ax_rl X)"
    and "\<And>t'. t \<le> t' \<Longrightarrow> t' \<le> t + 60000 \<Longrightarrow> \<exists>u. authenticate X t' (Some (''Bearer '' @ gatewayToken E)) = Inr u"
    and "key_ok (register_budget X addr) (as_redis s)" and "live (key_window (register_budget X addr) (as_redis s)) t = None"
    and "length qs = 5" and "fst (hd qs) = t" and "\<forall>q\<in>set qs. t \<le> fst q \<and> fst q \<le> t + 60000"
    and "t \<le> t'" and "t' \<le> t + 60000"
  shows "gateway_registration X Y E addr (t', rid, dto, body, requestId) (registrations X Y E addr qs s) =
    (Inl (service_exn TOO_MANY_REQUESTS 429 ''Too many requests, please try again later''), registrations X Y E addr qs s)"
proof -
  let ?k = "register_budget X addr" and ?r = "as_redis (registrations X Y E addr qs s)"
  obtain q qs' where qs: "qs = q # qs'" using assms(7) by (cases qs) auto
  have "\<forall>q\<in>set qs. \<exists>u. authenticate X (fst q) (Some (''Bearer '' @ gatewayToken E)) = Inr u" using assms(4,9) by blast
  then have r: "?r = after_hits (script_hit ?k 5 60000) (as_redis s) (t # map fst qs')"
    using registrations_redis [OF assms(1-3)] assms(8) by (simp add: qs)
  have full: "key_ok ?k ?r" "key_window ?k ?r = Some (5, t + 60000)"
    unfolding r using lua.open_and_fill [OF assms(5), of 5 60000 t "map fst qs'"] assms(6,7,9) by (simp_all add: qs)
  have "live (key_window ?k ?r) t' = Some (5, t + 60000)" using full(2) assms(11) by (simp add: live_Some_iff)
  then have no: "\<not> fst (script_hit ?k 5 60000 t' ?r)" using lua.hit_refused [OF full(1), of 5 60000 t' 5] by simp
  have same: "snd (script_hit ?k 5 60000 t' ?r) = ?r"
    using full assms(11) no by (auto simp: script_defs key_ok_def Let_def split: option.splits prod.splits rval.splits if_splits)
  obtain u where u: "authenticate X t' (Some (''Bearer '' @ gatewayToken E)) = Inr u" using assms(4,10,11) by blast
  show ?thesis
    using gateway_registration_run [OF assms(1-3) u] no same by (simp add: split_def)
qed

section \<open>What becomes of a service's error\<close>

lemma on_world_unchecked:
  "net call (gw_world s) = (Inr r, w) \<Longrightarrow> on_world (unchecked_call net d call) s = (Inr (rs_data r), s\<lparr>gw_world := w\<rparr>)"
  by (simp add: on_world_def unchecked_call_run)

lemma noti_passes_on:
  assumes "c \<noteq> Ping" and "\<forall>call. \<exists>w. net call (gw_world s) = (Inr r, w)"
  shows "\<exists>s'. noti_handle net rid a c s = (Inr (rs_data r), s')"
proof -
  have run: "\<exists>s'. on_world (unchecked_call net d call) s = (Inr (rs_data r), s')" for d call
  proof -
    from assms(2) obtain w where "net call (gw_world s) = (Inr r, w)" by (elim allE [where x = call] exE)
    then have "on_world (unchecked_call net d call) s = (Inr (rs_data r), s\<lparr>gw_world := w\<rparr>)"
      by (rule on_world_unchecked)
    then show ?thesis by (rule exI)
  qed
  show ?thesis
    using assms(1) by (cases c) (simp, simp_all only: noti_handle.simps noti_create_def noti_findAll_def noti_unreadCount_def
        noti_markRead_def noti_readAll_def run)
qed


section \<open>Witnesses\<close>

definition bearer :: "string option \<Rightarrow> string option" where
  "bearer a = Option.bind a (\<lambda>s. if starts_with ''Bearer '' s then Some (drop 7 s) else None)"

definition gate_env0 :: gate_env where
  "gate_env0 = \<lparr>gx_verify = user_strategy (Some ''us'') None None, gx_lib = sample_lib\<lparr>jl_bearer := bearer\<rparr>, gx_sha = id,
     gx_rl = rate_limiter_new None None, gx_up = True, gx_gw = gw_env0, gx_permissions = (\<lambda>_. NoResponse ''down'')\<rparr>"

definition gate0 :: "(unit \<times> http_call list) gate" where
  "gate0 = \<lparr>gt_redis = Map.empty,
     gt_gw = \<lparr>gw_rows = [], gw_cache = Map.empty, gw_draws = 0, gw_out = [], gw_world = ((), [])\<rparr>\<rparr>"

definition gate_request0 :: "string option \<Rightarrow> gate_request" where
  "gate_request0 a = \<lparr>gq_authorization = a, gq_header = None, gq_uuid = ''r1'', gq_path = ''/client/roles'', gq_rate = sample_rq\<rparr>"

theorem gateway_closed_witness:
  "gateway_http gate_env0 (recorded up_net) 0 1 (gate_request0 (Some ''Bearer i'')) (RoleOp FindRoles) gate0 = (Inl unauthorized, gate0)"
proof (rule gateway_closed)
  show "\<not> ro_public (gate_route (RoleOp FindRoles))" by code_simp
  show "\<not> user_token gate_env0 0 (gq_authorization (gate_request0 (Some ''Bearer i'')))" by code_simp
qed

theorem gateway_own_token_witness:
  "\<exists>r call s'. gateway_http gate_env0 (recorded up_net) 0 1 (gate_request0 (Some ''Bearer u'')) (RoleOp FindRoles) gate0 = (r, s')
     \<and> calls_of (gt_gw s') = [call]
     \<and> (\<exists>a. gq_authorization (gate_request0 (Some ''Bearer u'')) = Some a \<and> map_of (hc_headers call) ''Authorization'' = Some a
        \<and> user_token gate_env0 0 (Some a) \<and> map_of (hc_headers call) ''x-user-jwt'' = None)"
proof -
  let ?run = "gateway_http gate_env0 (recorded up_net) 0 1 (gate_request0 (Some ''Bearer u'')) (RoleOp FindRoles) gate0"
  let ?call = "simple_call ''GET'' ''roles'' (role_getHeaders gw_env0 ''r1'' (Some ''Bearer u'')) None"
  let ?u = "gateway_validate (user_payload ''u1'' 1)"
  have pub: "\<not> ro_public (gate_route (RoleOp FindRoles))" by code_simp
  have bearer: "bearer_ok (gx_lib gate_env0)" by code_simp
  have none: "calls_of (gt_gw gate0) = []" by code_simp
  have jwt: "gateway_canActivate (gx_verify gate_env0) (gx_lib gate_env0) 0 False (Some ''Bearer u'') = Inr (Some ?u, None)"
    by code_simp
  have env: "gx_sha gate_env0 = id" "gx_rl gate_env0 = rate_limiter_new None None" "gx_up gate_env0" "gx_gw gate_env0 = gw_env0"
    by (simp_all add: gate_env0_def)
  have calls: "calls_of (gt_gw (snd ?run)) = [?call]"
    by (simp add: gateway_http_def gate_guards_def gate_request0_def class_or_own_def plain_route_def jwt bind_run andthen_run
        canActivate_rate_def guard_loop_Cons pick_best_def check_def lua_script_def env gate0_def rate_limiter_new_def
        role_class_def rule_user_def redis_get_def rlive_def redis_incr_def redis_pexpire_def redis_pttl_def
        put_headers_def on_redis_def canActivate_perm_def role_findAll_def role_call_def checked_call_def guarded_run
        check_status_def recorded_def up_net_def requestIdMiddleware_def getRequestId_def Let_def)
  have "?call \<in> set (calls_of (gt_gw (snd ?run)))" by (simp add: calls)
  from gateway_own_token [OF pub bearer surjective_pairing none this] calls show ?thesis
    by (intro exI [of _ "fst ?run"] exI [of _ ?call] exI [of _ "snd ?run"]) simp
qed

text \<open>The token of the gateway is \<open>jwt\<close>, which verifies with the internal secret.\<close>

definition gate_access :: access_env where
  "gate_access = sample_access\<lparr>ax_lib := \<lparr>jl_bearer = bearer,
     jl_decode = (\<lambda>tok. if tok = ''jwt'' then Some internal_payload else None),
     jl_verify = (\<lambda>v t tok. if tok = ''jwt'' \<and> vo_secret v = ''is'' then Some internal_payload else None)\<rparr>\<rparr>"

text \<open>Five clients without a body, then a sixth.\<close>

definition five_clients :: "registration list" where
  "five_clients = map (\<lambda>n. (5 + n, ''r'', JNull, Inl (PlainErr ''no body''), None)) [0, 1, 2, 3, 4]"

theorem gateway_shared_budget_witness:
  "fst (gateway_registration gate_access demo_env gw_env0 ''10.0.0.9''
      (700, ''r6'', JNull, Inr \<lparr>cd_email = ''new@x.io'', cd_password = ''p'', cd_name = None, cd_phone = None\<rparr>, None)
      (registrations gate_access demo_env gw_env0 ''10.0.0.9'' five_clients demo_state)) =
    Inl (service_exn TOO_MANY_REQUESTS 429 ''Too many requests, please try again later'')"
proof -
  have who: "\<exists>u. authenticate gate_access t (Some (''Bearer '' @ gatewayToken gw_env0)) = Inr u" for t
  proof -
    have "authenticate gate_access t (Some (''Bearer '' @ gatewayToken gw_env0)) = authenticate gate_access 5 (Some (''Bearer '' @ gatewayToken gw_env0))"
      by (simp add: passport_combined_def gate_access_def cong: option.case_cong sum.case_cong)
    moreover have "authenticate gate_access 5 (Some (''Bearer '' @ gatewayToken gw_env0)) = Inr (internal_user internal_payload)" by code_simp
    ultimately show ?thesis by simp
  qed
  have limiter: "''10.0.0.9'' \<noteq> []" "ax_up gate_access" "\<not> rl_disabled (ax_rl gate_access)" by (simp, code_simp+)
  have free: "key_ok (register_budget gate_access ''10.0.0.9'') (as_redis demo_state)"
    "live (key_window (register_budget gate_access ''10.0.0.9'') (as_redis demo_state)) 5 = None"
    by (simp_all add: key_ok_def key_window_def demo_state_def)
  have five: "length five_clients = 5" "fst (hd five_clients) = 5" "\<forall>q\<in>set five_clients. 5 \<le> fst q \<and> fst q \<le> 5 + 60000"
    by (simp_all add: five_clients_def)
  show ?thesis by (subst gateway_shared_budget [OF limiter who free five]) simp_all
qed

definition not_found_net :: "(unit \<times> http_call list) network" where
  "not_found_net = recorded (\<lambda>call w. (Inr \<lparr>rs_status = 404, rs_data = JStr ''Cannot POST /notification'', rs_setCookie = []\<rparr>, w))"


end
