(* ===== verification/AuthService.thy ===== *)
theory AuthService
  imports Gateway
begin

text \<open>
  The auth service as the other services see it: a network. A call is matched against the routes of
  \<open>roles.controller.ts\<close>, \<open>auth.controller.ts\<close> and \<open>app.controller.ts\<close>, its body goes through the pipe
  of the route, the handler runs behind the guards, and the result or the exception becomes a
  status, a body and cookies, as \<open>main.ts\<close> installs it. The path has no query; percent-decoding,
  cookies and the JSON of a role (its dates are not in the tables of the model) are parameters. A
  body is an object; where a route has no class, the members it reads are strings or absent.
\<close>

section \<open>The service\<close>

record auth_site =
  st_access :: access_env
  st_env :: auth_env
  st_cv :: class_validator
  st_le :: "string \<Rightarrow> string \<Rightarrow> bool"
  st_role :: "role_view \<Rightarrow> json"
  st_param :: "string \<Rightarrow> string"
  st_cookie :: "http_call \<Rightarrow> string \<Rightarrow> string option"
  st_setCookie :: "auth_effect \<Rightarrow> string list"
  st_request :: "http_call \<Rightarrow> auth_request"
  st_peer :: string
  st_uuid :: string

text \<open>A trailing slash is ignored, and letters of the literal segments match in both cases.\<close>

definition segments :: "string \<Rightarrow> string list" where
  "segments path = (let p = split_on CHR ''/'' path in if p \<noteq> [] \<and> last p = [] then butlast p else p)"

definition lit :: "string list \<Rightarrow> string list \<Rightarrow> bool" where
  "lit p ws \<longleftrightarrow> map toLowerCase p = ws"

definition hc_header :: "string \<Rightarrow> http_call \<Rightarrow> string option" where
  "hc_header k call = map_of (hc_headers call) k"

definition body_of :: "http_call \<Rightarrow> json" where
  "body_of call = nullish (hc_body call) (JObj [])"

definition piped :: "auth_site \<Rightarrow> dto_field list \<Rightarrow> (json \<Rightarrow> 'a) \<Rightarrow> http_call \<Rightarrow> exn + 'a" where
  "piped S fs of_json call = map_sum id of_json (validate_body (st_cv S) fs (body_of call))"

definition query_object :: "http_call \<Rightarrow> json" where
  "query_object call = JObj (concat (map (\<lambda>(k, v). case v of None \<Rightarrow> [] | Some s \<Rightarrow> [(k, JStr s)]) (hc_params call)))"

definition reply :: "int \<Rightarrow> ('a \<Rightarrow> json) \<Rightarrow> 'a auth \<Rightarrow> (int \<times> json) auth" where
  "reply st enc m = bind m (\<lambda>x. ret (st, enc x))"

definition no_route :: "http_call \<Rightarrow> (int \<times> json) auth" where
  "no_route call = throw (NotFoundException (''Cannot '' @ hc_method call @ '' /'' @ hc_path call))"

section \<open>What the handlers return, as JSON\<close>

definition pair_json :: "string \<times> string \<Rightarrow> json" where
  "pair_json p = JObj [(''userId'', JStr (fst p)), (''roleName'', JStr (snd p))]"

definition strings_json :: "string list \<Rightarrow> json" where
  "strings_json ss = JArr (map JStr ss)"

definition removed_json :: "string \<Rightarrow> json" where
  "removed_json i = JObj [(''deleted'', JBool True), (''id'', JStr i)]"

definition message_json :: "string \<Rightarrow> json" where
  "message_json m = JObj [(''message'', JStr m)]"

definition login_json :: "login_response \<Rightarrow> json" where
  "login_json r = JObj [(''id'', JStr (lr_id r)), (''email'', JStr (lr_email r)), (''permVersion'', JNum (lr_permVersion r)),
     (''access_token'', JStr (lr_access_token r))]"

definition register_json :: "auth_env \<Rightarrow> register_response \<Rightarrow> json" where
  "register_json E r = JObj [(''userId'', JStr (rr_userId r)), (''email'', JStr (rr_email r)),
     (''createdAt'', JStr (ae_iso E (rr_createdAt r)))]"

definition opt_json :: "string option \<Rightarrow> json" where
  "opt_json v = (case v of None \<Rightarrow> JNull | Some s \<Rightarrow> JStr s)"

text \<open>Nothing is sent for \<open>null\<close>, which the client reads as the empty string.\<close>

definition info_json :: "auth_env \<Rightarrow> info_user option \<Rightarrow> json" where
  "info_json E v = (case v of None \<Rightarrow> JStr []
     | Some i \<Rightarrow> JObj ([(''id'', JStr (iu_id i)), (''email'', JStr (iu_email i)), (''name'', opt_json (iu_name i)),
         (''phone'', opt_json (iu_phone i)), (''isActive'', JBool (iu_isActive i))]
         @ (case iu_createdAt i of None \<Rightarrow> [] | Some d \<Rightarrow> [(''createdAt'', JStr (ae_iso E d))])))"

section \<open>\<open>roles.controller.ts\<close>\<close>

definition roles_app :: "auth_site \<Rightarrow> int \<Rightarrow> http_call \<Rightarrow> (int \<times> json) auth" where
  "roles_app S t call =
     (let X = st_access S; m = hc_method call; p = segments (hc_path call);
          a = hc_header ''Authorization'' call; rq = call_request (st_peer S) call
      in if m = ''POST'' \<and> lit p [''roles''] then
           reply 201 (st_role S) (http_roles_create X (st_env S) t a rq (piped S CreateRoleDto create_role_of call))
         else if m = ''GET'' \<and> lit p [''roles''] then
           reply 200 (\<lambda>vs. JArr (map (st_role S) vs)) (http_roles_findAll X (st_le S) t a rq)
         else if m = ''POST'' \<and> lit p [''roles'', ''assign-role''] then
           reply 200 pair_json (http_assignRole X t a rq (piped S AssignRoleDto assign_of call))
         else if m = ''POST'' \<and> lit p [''roles'', ''unassign-role''] then
           reply 200 pair_json (http_unassignRole X t a rq (piped S AssignRoleDto assign_of call))
         else (case p of
             [r, i] \<Rightarrow>
               if \<not> lit [r] [''roles''] \<or> i = [] then no_route call
               else if m = ''GET'' then reply 200 (st_role S) (http_roles_findOne X t a rq (st_param S i))
               else if m = ''PATCH'' then
                 reply 200 (st_role S) (http_roles_update X t a rq (st_param S i) (piped S UpdateRoleDto update_role_of call))
               else if m = ''DELETE'' then reply 200 removed_json (http_roles_remove X t a rq (st_param S i))
               else no_route call
           | [r, u, i, k] \<Rightarrow>
               if m \<noteq> ''GET'' \<or> \<not> lit [r, u] [''roles'', ''users''] \<or> i = [] then no_route call
               else if lit [k] [''roles''] then reply 200 strings_json (http_getRolesForUser X t a rq (st_param S i))
               else if lit [k] [''permissions''] then reply 200 strings_json (http_getPermissionsForUser X t a rq (st_param S i))
               else no_route call
           | _ \<Rightarrow> no_route call))"

section \<open>\<open>auth.controller.ts\<close> and \<open>app.controller.ts\<close>\<close>

definition post_app :: "auth_site \<Rightarrow> int \<Rightarrow> string list \<Rightarrow> http_call \<Rightarrow> (int \<times> json) auth" where
  "post_app S t p call =
     (let X = st_access S; E = st_env S; a = hc_header ''Authorization'' call; rq = call_request (st_peer S) call;
          b = body_of call; rid = or_str (hc_header ''x-request-id'' call) (st_uuid S)
      in if lit p [''register''] then
           reply 201 (register_json E) (http_register X E t a rq (piped S RegisterDto register_of call) (Some rid))
         else if lit p [''register'', ''verify''] then
           reply 200 JBool (http_verify X t a rq (piped S VerifyRegisterDto verify_of call))
         else if lit p [''resend-code''] then reply 200 message_json (http_resend X E t a rq (opt_str ''email'' b))
         else if lit p [''login''] then
           reply 200 login_json (http_login X E t a rq (opt_str ''email'' b) (opt_str ''password'' b) (st_request S call))
         else if lit p [''refresh''] then
           reply 200 login_json (http_refresh X E t a rq (st_cookie S call ''refreshToken'') (st_cookie S call ''deviceId'')
             (st_request S call))
         else if lit p [''logout-device''] then
           reply 200 JStr (http_logoutDevice X E t a rq (st_cookie S call ''deviceId'') (st_cookie S call ''refreshToken''))
         else if lit p [''logout-all''] then reply 200 JStr (http_logoutAll X t a rq)
         else if lit p [''forgot'', ''password''] then
           reply 200 message_json (http_forgotPassword X E t a rq (opt_str ''email'' b))
         else if lit p [''forgot'', ''password'', ''verify''] then
           reply 200 message_json (http_forgotPasswordVerify X E t a rq (opt_str ''email'' b) (opt_str ''code'' b))
         else if lit p [''forgot'', ''password'', ''reset''] then
           reply 200 message_json (http_forgotPasswordReset X E t a rq (opt_str ''email'' b) (opt_str ''code'' b) (str_member ''password'' b))
         else no_route call)"

definition get_app :: "auth_site \<Rightarrow> int \<Rightarrow> string list \<Rightarrow> http_call \<Rightarrow> (int \<times> json) auth" where
  "get_app S t p call =
     (let X = st_access S; a = hc_header ''Authorization'' call; rq = call_request (st_peer S) call
      in if lit p [''me''] then reply 200 (info_json (st_env S)) (http_me X t a rq)
         else if lit p [''register'', ''verify'', ''confirm''] then
           reply 200 JStr (http_confirmPage X t a rq
             (map_sum id verify_of (validate_body (st_cv S) VerifyRegisterDto (query_object call))))
         else no_route call)"

definition debug_error :: "string auth" where
  "debug_error = throw (service_exn AUTH_INVALID_CREDENTIALS 401 ''Invalid email or password'')"

definition auth_app :: "auth_site \<Rightarrow> int \<Rightarrow> http_call \<Rightarrow> (int \<times> json) auth" where
  "auth_app S t call =
     (let m = hc_method call; p = segments (hc_path call);
          X = st_access S; a = hc_header ''Authorization'' call; rq = call_request (st_peer S) call
      in if m = ''GET'' \<and> p = [] then reply 200 JStr (serve X t (plain_route\<lparr>ro_public := True\<rparr>) a rq (\<lambda>_. ret ''Hello World!''))
         else if m = ''GET'' \<and> lit p [''debug'', ''service-error''] then reply 200 JStr (serve X t plain_route a rq (\<lambda>_. debug_error))
         else if lit (take 2 p) [''auth'', ''internal''] then
           (if m = ''POST'' then post_app S t (drop 2 p) call
            else if m = ''GET'' then get_app S t (drop 2 p) call else no_route call)
         else roles_app S t call)"

section \<open>The answer\<close>

text \<open>
  The result of the handler, or what \<open>HttpExceptionFilter\<close> makes of the exception, with the cookies
  of the effects that are new.
\<close>

definition auth_service :: "auth_site \<Rightarrow> int \<Rightarrow> auth_state network" where
  "auth_service S t call = (\<lambda>s.
     (let (r, s') = auth_app S t call s;
          cookies = concat (map (st_setCookie S) (drop (length (as_out s)) (as_out s')))
      in (case r of
           Inr (st, d) \<Rightarrow> (Inr \<lparr>rs_status = st, rs_data = d, rs_setCookie = cookies\<rparr>, s')
         | Inl e \<Rightarrow>
            (case snd (http_exception_catch e (Some (''/'' @ hc_path call)) False (ae_iso (st_env S) t)) of
               Some (st, b) \<Rightarrow> (Inr \<lparr>rs_status = st, rs_data = api_json b, rs_setCookie = cookies\<rparr>, s')
             | None \<Rightarrow> (Inl (PlainErr ''socket hang up''), s')))))"

lemma reply_run: "reply st enc m s = (case m s of (Inl e, s') \<Rightarrow> (Inl e, s') | (Inr x, s') \<Rightarrow> (Inr (st, enc x), s'))"
  by (auto simp: reply_def bind_run split: prod.split sum.split)

lemma auth_service_run:
  "auth_app S t call s = (Inr (st, d), s') \<Longrightarrow> \<exists>cs. auth_service S t call s = (Inr \<lparr>rs_status = st, rs_data = d, rs_setCookie = cs\<rparr>, s')"
  "auth_app S t call s = (Inl e, s') \<Longrightarrow> \<exists>cs. auth_service S t call s =
     (Inr \<lparr>rs_status = fv_status (filter_view_of e (Some (''/'' @ hc_path call))),
       rs_data = api_json (snd (the (snd (http_exception_catch e (Some (''/'' @ hc_path call)) False (ae_iso (st_env S) t))))),
       rs_setCookie = cs\<rparr>, s')"
  by (simp_all add: auth_service_def Let_def http_exception_catch_def)

text \<open>Every call is answered.\<close>

lemma auth_service_answers: "\<exists>r s'. auth_service S t call s = (Inr r, s')"
  by (cases "auth_app S t call s"; cases "fst (auth_app S t call s)")
    (auto simp: auth_service_def Let_def http_exception_catch_def)

section \<open>The provider of permissions as a client\<close>

text \<open>
  \<open>permission.provider.ts\<close> of every service asks the auth service with an internal token of its own. The
  text of a status is a parameter; what the network throws is a call without an answer.
\<close>

record provider_env =
  pv_sign :: jwt_sign
  pv_secret :: "string option"
  pv_issuer :: "string option"
  pv_audience :: "string option"
  pv_statusText :: "int \<Rightarrow> string"

definition provider_signInternalToken :: "provider_env \<Rightarrow> json \<Rightarrow> string" where
  "provider_signInternalToken V payload = pv_sign V (JObj [(''sub'', JStr ''service''), (''data'', payload)])
     (or_str (pv_secret V) ''change-internal'') (or_str (pv_issuer V) ''gateway'') (or_str (pv_audience V) ''internal'') ''5m''"

definition internalHeaders :: "provider_env \<Rightarrow> string option \<Rightarrow> json \<Rightarrow> (string \<times> string) list" where
  "internalHeaders V requestId payload = [(''Authorization'', ''Bearer '' @ provider_signInternalToken V payload),
     (''x-request-id'', or_str requestId ''internal-call'')]"

definition provider_call :: "provider_env \<Rightarrow> string \<Rightarrow> string \<Rightarrow> http_call" where
  "provider_call V requestId userId = simple_call ''GET'' (''roles/users/'' @ userId @ ''/permissions'')
     (internalHeaders V (Some requestId) (JObj [(''userId'', JStr userId)])) None"

definition reply_of :: "provider_env \<Rightarrow> exn + response \<Rightarrow> auth_reply" where
  "reply_of V x = (case x of Inr r \<Rightarrow> Reply (rs_status r) (pv_statusText V (rs_status r)) (Some (rs_data r))
     | Inl e \<Rightarrow> NoResponse (nullish (err_message e) []))"

text \<open>The reply to the provider when the auth service is in the state \<open>s\<close>.\<close>

definition provider_reply :: "provider_env \<Rightarrow> auth_site \<Rightarrow> int \<Rightarrow> auth_state \<Rightarrow> string \<Rightarrow> string \<Rightarrow> auth_reply" where
  "provider_reply V S t s requestId userId = reply_of V (fst (auth_service S t (provider_call V requestId userId) s))"

lemma split_on_slash: "split_on c (w @ c # s) = split_on c w @ split_on c s"
  by (induction w) (auto split: list.split)

lemma split_on_plain: "c \<notin> set s \<Longrightarrow> split_on c s = [s]"
  by (induction s) auto

lemma segments_permissions:
  assumes "CHR ''/'' \<notin> set userId"
  shows "segments (''roles/users/'' @ userId @ ''/permissions'') = [''roles'', ''users'', userId, ''permissions'']"
proof -
  have path: "''roles/users/'' @ userId @ ''/permissions'' =
      ''roles'' @ CHR ''/'' # (''users'' @ CHR ''/'' # (userId @ CHR ''/'' # ''permissions''))" by simp
  have words: "split_on CHR ''/'' ''roles'' = [''roles'']" "split_on CHR ''/'' ''users'' = [''users'']"
    "split_on CHR ''/'' ''permissions'' = [''permissions'']"
    by code_simp+
  have "split_on CHR ''/'' (''roles/users/'' @ userId @ ''/permissions'') = [''roles'', ''users'', userId, ''permissions'']"
    unfolding path split_on_slash words split_on_plain [OF assms] by simp
  then show ?thesis by (simp add: segments_def)
qed

text \<open>
  The provider learns exactly the codes of the tables: with a token the auth service accepts, and a
  user id that survives the path, the reply holds the codes reachable through the roles now.
\<close>

definition provider_ready :: "provider_env \<Rightarrow> auth_site \<Rightarrow> int \<Rightarrow> string \<Rightarrow> bool" where
  "provider_ready V S t userId \<longleftrightarrow> userId \<noteq> [] \<and> CHR ''/'' \<notin> set userId \<and> st_param S userId = userId
     \<and> (\<exists>u. authenticate (st_access S) t
          (Some (''Bearer '' @ provider_signInternalToken V (JObj [(''userId'', JStr userId)]))) = Inr u)"

lemma provider_learns:
  assumes "provider_ready V S t userId"
  shows "fetch_permissions (provider_reply V S t s requestId userId) = Inr (permission_codes (as_db s) userId)"
proof -
  let ?call = "provider_call V requestId userId"
  define a where "a = Some (''Bearer '' @ provider_signInternalToken V (JObj [(''userId'', JStr userId)]))"
  from assms obtain u where u: "authenticate (st_access S) t a = Inr u"
    and id: "userId \<noteq> []" "CHR ''/'' \<notin> set userId" "st_param S userId = userId"
    unfolding provider_ready_def a_def by blast
  have head: "hc_header ''Authorization'' ?call = a"
    by (simp add: provider_call_def simple_call_def hc_header_def internalHeaders_def a_def)
  have call: "hc_method ?call = ''GET''" "segments (hc_path ?call) = [''roles'', ''users'', userId, ''permissions'']"
    by (simp_all only: provider_call_def simple_call_def http_call.simps segments_permissions [OF id(2)])
  have words: "toLowerCase ''roles'' = ''roles''" "toLowerCase ''users'' = ''users''" "toLowerCase ''permissions'' = ''permissions''"
    by code_simp+
  have "auth_app S t ?call s = reply 200 strings_json
      (http_getPermissionsForUser (st_access S) t a (call_request (st_peer S) ?call) userId) s"
    by (simp add: auth_app_def roles_app_def call head lit_def words id Let_def)
  then have "auth_app S t ?call s = (Inr (200, strings_json (permission_codes (as_db s) userId)), s)"
    by (simp add: reply_run http_getPermissionsForUser_def serve_plain [OF u] getPermissionCodesForUser_def)
  from auth_service_run(1) [OF this] show ?thesis
    by (auto simp: provider_reply_def reply_of_def fetch_permissions_def strings_json_def)
qed

end
