(* ===== verification/NotiService.thy ===== *)
theory NotiService
  imports NotiRoutes AuthService
begin

text \<open>
  The notification service as the gateway sees it: a network over its routes
  (\<open>notification.controller.ts\<close>, \<open>app.controller.ts\<close>). What the provider of permissions gets from the
  auth service, percent-decoding and the JSON of a number that need not be whole are parameters.
\<close>

record noti_service_site =
  nv_access :: access_env
  nv_env :: noti_env
  nv_reply :: "string \<Rightarrow> auth_reply"
  nv_param :: "string \<Rightarrow> string"
  nv_number :: "js_num \<Rightarrow> json"
  nv_name :: "string option"

definition page_json :: "noti_service_site \<Rightarrow> noti_page \<Rightarrow> json" where
  "page_json V p = JObj [(''items'', JArr (map (noti_view (nv_env V)) (np_items p))), (''total'', JNum (int (np_total p))),
     (''page'', nv_number V (np_page p)), (''limit'', nv_number V (np_limit p)),
     (''sortBy'', JStr (np_sortBy p)), (''sortOrder'', JStr (np_sortOrder p))]"

text \<open>The two counts have different names.\<close>

fun noti_answer_json :: "noti_service_site \<Rightarrow> noti_get \<Rightarrow> noti_answer \<Rightarrow> json" where
  "noti_answer_json V c (Page p) = page_json V p"
| "noti_answer_json V c (Number n) = JObj [(if c = PostReadAll then ''updated'' else ''count'', JNum (int n))]"
| "noti_answer_json V c (Marked i d) = JObj [(''id'', JStr i), (''readAt'', JStr d)]"

fun noti_status :: "noti_get \<Rightarrow> int" where
  "noti_status (PostRead _) = 201"
| "noti_status PostReadAll = 201"
| "noti_status _ = 200"

definition query_param :: "string \<Rightarrow> http_call \<Rightarrow> string option" where
  "query_param k call = Option.bind (map_of (hc_params call) k) id"

definition noti_match :: "noti_service_site \<Rightarrow> http_call \<Rightarrow> noti_get option" where
  "noti_match V call =
     (let m = hc_method call; p = segments (hc_path call); q = (\<lambda>k. query_param k call)
      in if m = ''GET'' \<and> lit p [''notification'', ''list''] then Some (GetList (q ''page'') (q ''limit'') (q ''sortBy'') (q ''sortOrder''))
         else if m = ''GET'' \<and> lit p [''notification'', ''unread-count''] then Some GetUnread
         else if m = ''POST'' \<and> lit p [''notification'', ''read-all''] then Some PostReadAll
         else (case p of [n, i, r] \<Rightarrow>
              if m = ''POST'' \<and> lit [n, r] [''notification'', ''read''] \<and> i \<noteq> [] then Some (PostRead (nv_param V i)) else None
            | _ \<Rightarrow> None))"

text \<open>The routes of \<open>app.controller.ts\<close>: the health check and the greeting are public, the rest only throws.\<close>

definition noti_misc :: "noti_service_site \<Rightarrow> int \<Rightarrow> http_call \<Rightarrow> exn + int \<times> json" where
  "noti_misc V t call =
     (let p = segments (hc_path call); X = nv_access V;
          guard = noti_canActivate (ax_config X) (ax_lib X) t False (hc_header ''Authorization'' call)
      in if hc_method call \<noteq> ''GET'' then Inl (NotFoundException (''Cannot '' @ hc_method call @ '' /'' @ hc_path call))
         else if p = [] then Inr (200, JStr ''Hello World!'')
         else if lit p [''health''] then Inr (200, JObj [(''status'', JStr ''ok''),
           (''service'', JStr (or_str (nv_name V) ''Notification-Service'')), (''timestamp'', JStr (ne_iso (nv_env V) t))])
         else if lit p [''debug'', ''service-error''] then
           (case guard of Inl e \<Rightarrow> Inl e | Inr _ \<Rightarrow> Inl (service_exn INTERNAL 500 ''Debug error for testing''))
         else if lit p [''debug'', ''service-error2''] then
           (case guard of Inl e \<Rightarrow> Inl e | Inr _ \<Rightarrow> Inl (service_exn AUTH_INVALID_CREDENTIALS 401 ''Invalid email or password''))
         else Inl (NotFoundException (''Cannot GET /'' @ hc_path call)))"

definition noti_app :: "noti_service_site \<Rightarrow> int \<Rightarrow> http_call \<Rightarrow> (noti_site, exn, int \<times> json) prog" where
  "noti_app V t call = (case noti_match V call of
     None \<Rightarrow> lift (noti_misc V t call)
   | Some c \<Rightarrow> bind (http_noti (nv_access V) (nv_env V) t (nv_reply V) (hc_header ''Authorization'' call) (hc_header ''x-user-id'' call) c)
       (\<lambda>x. ret (noti_status c, noti_answer_json V c x)))"

definition noti_service :: "noti_service_site \<Rightarrow> int \<Rightarrow> noti_site network" where
  "noti_service V t call = (\<lambda>z.
     (case noti_app V t call z of
        (Inr (st, d), z') \<Rightarrow> (Inr \<lparr>rs_status = st, rs_data = d, rs_setCookie = []\<rparr>, z')
      | (Inl e, z') \<Rightarrow>
         (case snd (http_exception_catch e (Some (''/'' @ hc_path call)) False (ne_iso (nv_env V) t)) of
            Some (st, b) \<Rightarrow> (Inr \<lparr>rs_status = st, rs_data = api_json b, rs_setCookie = []\<rparr>, z')
          | None \<Rightarrow> (Inl (PlainErr ''socket hang up''), z'))))"

lemma noti_service_answers: "\<exists>r z'. noti_service V t call z = (Inr r, z')"
  by (cases "noti_app V t call z"; cases "fst (noti_app V t call z)")
    (auto simp: noti_service_def http_exception_catch_def Let_def)

text \<open>Whatever is called with a user's token, the other users' notifications stay as they are.\<close>

lemma noti_service_others:
  assumes "access_ok (nv_access V)" and "signed_in (nv_access V) t (hc_header ''Authorization'' call) uid"
    and "ids_unique (nz_noti z)"
  shows "others uid (nz_noti (snd (noti_service V t call z))) = others uid (nz_noti z)"
proof -
  have state: "snd (noti_service V t call z) = snd (noti_app V t call z)"
    by (auto simp: noti_service_def split: prod.splits sum.splits option.splits)
  show ?thesis
  proof (cases "noti_match V call")
    case None
    then show ?thesis by (simp add: state noti_app_def lift_def)
  next
    case (Some c)
    obtain r z' where run: "http_noti (nv_access V) (nv_env V) t (nv_reply V) (hc_header ''Authorization'' call)
        (hc_header ''x-user-id'' call) c z = (r, z')" by fastforce
    have "snd (noti_app V t call z) = z'"
      by (auto simp: noti_app_def Some bind_run run split: sum.split)
    moreover have "others uid (nz_noti z') = others uid (nz_noti z)"
      using http_noti_run [OF assms(1,2) run] controller_others [OF assms(3)] by auto
    ultimately show ?thesis by (simp add: state)
  qed
qed

text \<open>A marking keeps the ids.\<close>

lemma controller_ids: "noti_controller E t uid c s = (r, s') \<Longrightarrow> ids_unique s \<Longrightarrow> ids_unique s'"
  by (cases c) (auto simp: ids_unique_def listByUser_def unreadCount_def markRead_def readAll_def bind_run andthen_run rows_where_def
      map_update_where Let_def split: if_splits option.splits)

end
