(* ===== verification/Platform.thy ===== *)
theory Platform
  imports NotiService
begin

text \<open>
  The composed system: the gateway with the auth service, or the notification service, behind it as
  its network. What a client of the gateway reads is compared with what the controller behind it
  returned or threw, and the effect of a request on the tables of the service is followed from the
  client's request on.
\<close>

section \<open>The calls of the role client\<close>

fun role_call_of :: "gw_env \<Rightarrow> string \<Rightarrow> string option \<Rightarrow> role_op \<Rightarrow> http_call" where
  "role_call_of E rid a (CreateRole dto) = simple_call ''POST'' ''roles'' (role_getHeaders E rid a) (Some dto)"
| "role_call_of E rid a FindRoles = simple_call ''GET'' ''roles'' (role_getHeaders E rid a) None"
| "role_call_of E rid a (RolesOf u) = simple_call ''GET'' (''roles/users/'' @ u @ ''/roles'') (role_getHeaders E rid a) None"
| "role_call_of E rid a (PermissionsOf u) =
     simple_call ''GET'' (''roles/users/'' @ u @ ''/permissions'') (role_getHeaders E rid a) None"
| "role_call_of E rid a (FindRole i) = simple_call ''GET'' (''roles/'' @ i) (role_getHeaders E rid a) None"
| "role_call_of E rid a (UpdateRole i dto) = simple_call ''PATCH'' (''roles/'' @ i) (role_getHeaders E rid a) (Some dto)"
| "role_call_of E rid a (RemoveRole i) = simple_call ''DELETE'' (''roles/'' @ i) (role_getHeaders E rid a) None"
| "role_call_of E rid a (AssignRole dto) = simple_call ''POST'' ''roles/assign-role'' (role_getHeaders E rid a) (Some dto)"
| "role_call_of E rid a (UnassignRole dto) = simple_call ''POST'' ''roles/unassign-role'' (role_getHeaders E rid a) (Some dto)"

lemma role_handle_call: "role_handle E net rid a c = checked_call (via net) auth_failed (role_call_of E rid a c)"
  by (cases c) (simp_all add: role_create_def role_findAll_def role_getRolesForUser_def role_getPermissionsForUser_def
      role_findOne_def role_update_def role_remove_def role_assign_def role_unassign_def role_call_def)

section \<open>Which route a call reaches\<close>

lemma segments_roles: "\<exists>p. segments (''roles/'' @ s) = ''roles'' # p"
proof -
  have "''roles/'' @ s = ''roles'' @ CHR ''/'' # s" by simp
  then have "split_on CHR ''/'' (''roles/'' @ s) = split_on CHR ''/'' ''roles'' @ split_on CHR ''/'' s"
    by (simp only: split_on_slash)
  also have "split_on CHR ''/'' ''roles'' = [''roles'']" by code_simp
  finally have "split_on CHR ''/'' (''roles/'' @ s) = ''roles'' # split_on CHR ''/'' s" by simp
  then show ?thesis by (simp add: segments_def Let_def)
qed

lemma segments_fixed:
  "segments ''roles'' = [''roles'']" "segments ''roles/assign-role'' = [''roles'', ''assign-role'']"
  "segments ''roles/unassign-role'' = [''roles'', ''unassign-role'']"
  "segments ''auth/internal/logout-all'' = [''auth'', ''internal'', ''logout-all'']"
  "segments ''notification'' = [''notification'']"
  by code_simp+

lemma role_app:
  assumes "\<exists>p. segments (hc_path call) = ''roles'' # p"
  shows "auth_app S t call = roles_app S t call"
proof -
  have "toLowerCase ''roles'' = ''roles''" by code_simp
  with assms show ?thesis by (auto simp: auth_app_def lit_def Let_def split: if_splits)
qed

lemma role_path: "\<exists>p. segments (hc_path (role_call_of E rid a c)) = ''roles'' # p"
proof -
  have users: "''roles/users/'' @ u = ''roles/'' @ ''users/'' @ u" for u by simp
  show ?thesis
    by (cases c) (simp_all only: role_call_of.simps simple_call_def http_call.simps users segments_roles segments_fixed list.inject
        simp_thms ex_simps)
qed

text \<open>The status of a result is the one of its route.\<close>

definition status_is :: "int \<Rightarrow> (int \<times> json) auth \<Rightarrow> bool" where
  "status_is st m \<longleftrightarrow> (\<forall>s r d s'. m s = (Inr (r, d), s') \<longrightarrow> r = st)"

lemma status_reply [simp]: "status_is st (reply st enc m)"
  by (auto simp: status_is_def reply_run split: prod.splits sum.splits)

lemma status_no_route [simp]: "status_is st (no_route call)"
  by (simp add: status_is_def no_route_def throw_def)

lemma status_if: "(b \<Longrightarrow> status_is st m) \<Longrightarrow> (\<not> b \<Longrightarrow> status_is st m') \<Longrightarrow> status_is st (if b then m else m')"
  by simp

lemma roles_app_status:
  assumes "hc_method call = ''POST'' \<Longrightarrow> \<not> lit (segments (hc_path call)) [''roles'']"
  shows "status_is 200 (roles_app S t call)"
  unfolding roles_app_def Let_def using assms
  by (auto intro!: status_if split: list.split)

lemma role_status: "status_is (success_status (RoleOp c)) (auth_app S t (role_call_of E rid a c))"
proof (cases "\<exists>dto. c = CreateRole dto")
  case True
  moreover have "lit [''roles''] [''roles'']" by code_simp
  ultimately show ?thesis
    by (auto simp: role_app [OF role_path] roles_app_def simple_call_def segments_fixed Let_def)
next
  case False
  have lits: "\<not> lit [''roles'', ''assign-role''] [''roles'']" "\<not> lit [''roles'', ''unassign-role''] [''roles'']"
    by (simp_all add: lit_def)
  have "status_is 200 (auth_app S t (role_call_of E rid a c))"
    unfolding role_app [OF role_path] using False
    by (intro roles_app_status) (cases c; simp add: simple_call_def segments_fixed lits)
  then show ?thesis using False by (cases c) simp_all
qed

section \<open>Roles through the gateway\<close>

definition withheld :: "int \<times> api_response \<Rightarrow> int \<times> api_response" where
  "withheld a = (fst a, (snd a)\<lparr>ar_errors := (if 500 \<le> fst a then None else ar_errors (snd a))\<rparr>)"

text \<open>What the gateway passes to a service as the request id of a role request.\<close>

abbreviation role_request_call :: "gate_env \<Rightarrow> gate_request \<Rightarrow> role_op \<Rightarrow> http_call" where
  "role_request_call G q c \<equiv>
     role_call_of (gx_gw G) (getRequestId (Some (requestIdMiddleware q)) (gq_header q)) (gq_authorization q) c"

lemma filter_path [simp]: "fv_status (filter_view_of e (Some p)) = fv_status (filter_view_of e None)"
  "fv_messageKey (filter_view_of e (Some p)) = fv_messageKey (filter_view_of e None)"
  "fv_message (filter_view_of e (Some p)) = fv_message (filter_view_of e None)"
  "fv_errors (filter_view_of e (Some p)) = fv_errors (filter_view_of e None)"
  by (simp_all add: filter_view_of_def split: exn.split)

lemma relayed:
  assumes "400 \<le> fv_status (filter_view_of e None)"
    and "auth_app S t call w = (Inl e, w')"
  shows "\<exists>x. checked_call (auth_service S t) d call w = (Inl x, w')
    \<and> snd (http_exception_catch x None False now) = map_option withheld (snd (http_exception_catch e None False now))"
proof -
  let ?p = "Some (''/'' @ hc_path call)" and ?ts = "ae_iso (st_env S) t"
  obtain st b where f: "snd (http_exception_catch e ?p False ?ts) = Some (st, b)"
    by (simp add: http_exception_catch_def Let_def)
  then have st: "st = fv_status (filter_view_of e None)" by (simp add: http_exception_catch_def Let_def)
  obtain cs where run: "auth_service S t call w = (Inr \<lparr>rs_status = st, rs_data = api_json b, rs_setCookie = cs\<rparr>, w')"
    using auth_service_run(2) [OF assms(2)] f st by auto
  let ?x = "handleAxiosError (AxiosLike (Some st) (Some (api_json b)) None) d"
  have "checked_call (auth_service S t) d call w = (Inl ?x, w')"
    using checked_call_run(3) [where net = "auth_service S t", OF run] assms(1) st by simp
  moreover have "snd (http_exception_catch ?x None False now) =
      Some (st, b\<lparr>ar_errors := (if 500 \<le> st then None else ar_errors b), ar_timestamp := now\<rparr>)"
    using error_channel [OF f, of d now] by (simp add: gateway_relay_def)
  moreover have "snd (http_exception_catch e None False now) = Some (st, b\<lparr>ar_timestamp := now\<rparr>)"
    using f by (auto simp: http_exception_catch_def Let_def)
  ultimately show ?thesis by (intro exI [of _ ?x]) (simp add: withheld_def)
qed

lemma gate_role_run:
  assumes "gate_guards G t (RoleOp c) q \<lparr>gs_redis = gt_redis s, gs_headers = None\<rparr> = (Inr u, g)"
  shows "gateway_http G net t t' q (RoleOp c) s =
    (let (r, w) = checked_call net auth_failed (role_request_call G q c) (gw_world (gt_gw s))
     in (r, \<lparr>gt_redis = gs_redis g, gt_gw = (gt_gw s)\<lparr>gw_world := w\<rparr>\<rparr>))"
  by (simp add: gateway_http_def assms role_handle_call checked_call_def guarded_run bind_run andthen_run check_status_def
      split: prod.split sum.split)

text \<open>
  C4. For roles the gateway is transparent: once its guards let a request through, its client reads
  what the controller of the auth service returned, under the status of that route, or the
  status, code, message and errors of what the service threw (errors withheld from 500 on), and the
  tables of the auth service are those the controller left.
\<close>
theorem platform_roles:
  assumes "gate_guards G t (RoleOp c) q \<lparr>gs_redis = gt_redis s, gs_headers = None\<rparr> = (Inr u, g)"
    and "auth_app S t (role_request_call G q c) (gw_world (gt_gw s)) = (r, w)"
    and "\<forall>e. r = Inl e \<longrightarrow> 400 \<le> fv_status (filter_view_of e None)"
  shows "gateway_answer now (RoleOp c) (fst (gateway_http G (auth_service S t) t t' q (RoleOp c) s)) =
      (case r of Inr (st, d) \<Rightarrow> Some (st, transform (Some d) now)
       | Inl e \<Rightarrow> map_option withheld (snd (http_exception_catch e None False now)))
    \<and> gw_world (gt_gw (snd (gateway_http G (auth_service S t) t t' q (RoleOp c) s))) = w"
proof (cases r)
  case (Inl e)
  with assms(2,3) obtain x where "checked_call (auth_service S t) auth_failed (role_request_call G q c) (gw_world (gt_gw s)) = (Inl x, w)"
      "snd (http_exception_catch x None False now) = map_option withheld (snd (http_exception_catch e None False now))"
    using relayed [of e S t "role_request_call G q c"] by blast
  with Inl show ?thesis by (simp add: gate_role_run [OF assms(1)] gateway_answer_def)
next
  case (Inr x)
  obtain st d where x: "x = (st, d)" by fastforce
  have app: "auth_app S t (role_request_call G q c) (gw_world (gt_gw s)) = (Inr (st, d), w)" using assms(2) Inr x by simp
  have st: "st = success_status (RoleOp c)"
    using app role_status [of c S t] unfolding status_is_def by blast
  then have ok: "st < 400" by (cases c) simp_all
  obtain cs where "auth_service S t (role_request_call G q c) (gw_world (gt_gw s)) =
      (Inr \<lparr>rs_status = st, rs_data = d, rs_setCookie = cs\<rparr>, w)"
    using auth_service_run(1) [OF app] by blast
  from checked_call_run(2) [where net = "auth_service S t", OF this] ok
  have "checked_call (auth_service S t) auth_failed (role_request_call G q c) (gw_world (gt_gw s)) = (Inr d, w)" by simp
  then show ?thesis by (simp add: gate_role_run [OF assms(1)] gateway_answer_def Inr x st)
qed

section \<open>Roles for everyone\<close>

definition assign_body :: "string \<Rightarrow> string \<Rightarrow> json" where
  "assign_body target roleName = JObj [(''userId'', JStr target), (''roleName'', JStr roleName)]"

lemma assign_piped:
  assumes "validator_ok cv" and "cl_holds cv IsUUID (Some (JStr target))" and "roleName \<noteq> []" and "length roleName \<le> 64"
  shows "validate_body cv AssignRoleDto (assign_body target roleName) = Inr (assign_body target roleName)"
    and "assign_of (assign_body target roleName) = (target, roleName)"
proof -
  have plain: "\<forall>f\<in>set AssignRoleDto. df_transform f = None" by (simp add: AssignRoleDto_def field_of_def)
  have holds: "cl_holds cv IsString (Some (JStr roleName))" "cl_holds cv IsNotEmpty (Some (JStr roleName))"
    "cl_holds cv (MaxLength 64) (Some (JStr roleName))"
    using assms unfolding validator_ok_def by simp_all
  show "validate_body cv AssignRoleDto (assign_body target roleName) = Inr (assign_body target roleName)"
  proof -
    have j: "JObj (members (assign_body target roleName)) = assign_body target roleName" by (simp add: assign_body_def members_def)
    have "unknown_members AssignRoleDto (assign_body target roleName) = []" "broken cv AssignRoleDto (assign_body target roleName) = []"
      using assms(2) holds
      by (simp_all add: assign_body_def members_def unknown_members_def broken_def AssignRoleDto_def field_of_def jget_Cons)
    then show ?thesis by (simp add: validate_body_def transform_plain [OF plain] j Let_def)
  qed
  show "assign_of (assign_body target roleName) = (target, roleName)"
    by (simp add: assign_of_def assign_body_def str_member_def jget_Cons)
qed

lemma header_role: "a \<noteq> [] \<Longrightarrow> hc_header ''Authorization'' (simple_call m p (role_getHeaders E rid (Some a)) b) = Some a"
  by (simp add: hc_header_def simple_call_def role_getHeaders_def)

lemma header_auth: "a \<noteq> [] \<Longrightarrow> hc_header ''Authorization'' (simple_call m p (auth_getHeaders E rid (Some a)) b) = Some a"
  by (simp add: hc_header_def simple_call_def auth_getHeaders_def)

lemma assign_app:
  assumes "hc_method call = ''POST''" and "hc_path call = ''roles/assign-role''"
  shows "auth_app S t call = reply 200 pair_json (http_assignRole (st_access S) t (hc_header ''Authorization'' call)
    (call_request (st_peer S) call) (piped S AssignRoleDto assign_of call))"
proof -
  have "lit [''roles'', ''assign-role''] [''roles'', ''assign-role'']" "\<not> lit [''roles'', ''assign-role''] [''roles'']"
    by code_simp+
  then show ?thesis
    using assms by (subst role_app) (simp_all add: segments_fixed roles_app_def Let_def)
qed

text \<open>
  C37. The administration of roles is open to every account, from the outside: whoever the gateway lets
  through with a valid user token can post the id of any user and the name of any role that user does
  not have to the assignment route; the answer is a 200, and in the tables of the auth service
  the named user then has every permission of the role.
\<close>
theorem platform_assign:
  assumes "gate_guards G t (RoleOp (AssignRole (assign_body target roleName))) q \<lparr>gs_redis = gt_redis s, gs_headers = None\<rparr> = (Inr u, g)"
    and "gq_authorization q = Some a" and "a \<noteq> []"
    and "access_ok (st_access S)" and "signed_in (st_access S) t (Some a) uid" and "ax_up (st_access S)"
    and "validator_ok (st_cv S)" and "cl_holds (st_cv S) IsUUID (Some (JStr target))" and "roleName \<noteq> []" and "length roleName \<le> 64"
    and "w = gw_world (gt_gw s)" and "perm_ok (as_redis w)"
    and "find_first (\<lambda>u. u_id u = target) (db_users (as_db w)) = Some x"
    and "find_first (\<lambda>r. ro_name r = roleName) (db_roles (as_db w)) = Some r"
    and "\<forall>ur\<in>set (db_userRoles (as_db w)). \<not> has_role target (ro_id r) ur"
  shows "(case gateway_http G (auth_service S t) t t' q (RoleOp (AssignRole (assign_body target roleName))) s of (result, s') \<Rightarrow>
      gateway_answer now (RoleOp (AssignRole (assign_body target roleName))) result =
        Some (200, transform (Some (assign_body target roleName)) now)
      \<and> (\<forall>p\<in>set (permissions_of (as_db w) (ro_id r)). pe_code p \<in> set (permission_codes (as_db (gw_world (gt_gw s'))) target)))"
proof -
  let ?c = "AssignRole (assign_body target roleName)"
  let ?call = "role_request_call G q ?c"
  have body: "piped S AssignRoleDto assign_of ?call = Inr (target, roleName)"
    using assign_piped [OF assms(7-10)] by (simp add: piped_def body_of_def simple_call_def)
  have call: "hc_method ?call = ''POST''" "hc_path ?call = ''roles/assign-role''" by (simp_all add: simple_call_def)
  have pair: "pair_json (target, roleName) = assign_body target roleName" by (simp add: pair_json_def assign_body_def)
  have head: "hc_header ''Authorization'' ?call = Some a"
    using header_role [OF assms(3)] by (simp add: assms(2))
  from assign_role_open [OF assms(4-6,12-15), of "call_request (st_peer S) ?call"]
  obtain s' where s': "http_assignRole (st_access S) t (Some a) (call_request (st_peer S) ?call) (Inr (target, roleName)) w =
      (Inr (target, roleName), s')"
    and codes: "\<forall>p\<in>set (permissions_of (as_db w) (ro_id r)). pe_code p \<in> set (permission_codes (as_db s') target)"
    by blast
  have app: "auth_app S t ?call w = (Inr (200, assign_body target roleName), s')"
    by (simp add: assign_app [OF call] reply_run body head s' pair del: role_call_of.simps)
  then have "auth_app S t ?call (gw_world (gt_gw s)) = (Inr (200, assign_body target roleName), s')" using assms(11) by simp
  from checked_call_run(2) [where net = "auth_service S t"] auth_service_run(1) [OF this]
  have "checked_call (auth_service S t) auth_failed ?call (gw_world (gt_gw s)) = (Inr (assign_body target roleName), s')"
    by fastforce
  with codes show ?thesis by (simp add: gate_role_run [OF assms(1)] gateway_answer_def del: role_call_of.simps)
qed

section \<open>Signing everyone out\<close>

lemma logout_all_app:
  assumes "hc_method call = ''POST''" and "hc_path call = ''auth/internal/logout-all''"
  shows "auth_app S t call =
    reply 200 JStr (http_logoutAll (st_access S) t (hc_header ''Authorization'' call) (call_request (st_peer S) call))"
proof -
  have "lit [''auth'', ''internal''] [''auth'', ''internal'']" "lit [''logout-all''] [''logout-all'']"
    "\<forall>ws\<in>{[''register''], [''register'', ''verify''], [''resend-code''], [''login''], [''refresh''], [''logout-device''],
        [''debug'', ''service-error'']}. \<not> lit [''logout-all''] ws"
    by code_simp+
  then show ?thesis
    using assms by (simp add: auth_app_def post_app_def segments_fixed Let_def)
qed

abbreviation logout_all_call :: "gate_env \<Rightarrow> gate_request \<Rightarrow> http_call" where
  "logout_all_call G q \<equiv> simple_call ''POST'' ''auth/internal/logout-all''
     (auth_getHeaders (gx_gw G) (or_str (Some (requestIdMiddleware q)) []) (gq_authorization q)) (Some (JObj []))"

text \<open>
  C38. One client signs everyone out: whoever the gateway lets through with a valid user token and
  posts to the logout of all devices gets a 200 and the cookies cleared, and in the tables of the auth
  service no session is left open, of any user.
\<close>
theorem platform_logout_all:
  assumes "gate_guards G t (AuthOp LogoutAll) q \<lparr>gs_redis = gt_redis s, gs_headers = None\<rparr> = (Inr u, g)"
    and "gq_authorization q = Some a" and "a \<noteq> []"
    and "access_ok (st_access S)" and "signed_in (st_access S) t (Some a) uid"
  shows "(case gateway_http G (auth_service S t) t t' q (AuthOp LogoutAll) s of (result, s') \<Rightarrow>
      gateway_answer now (AuthOp LogoutAll) result = Some (200, transform (Some (JStr ''logout success'')) now)
      \<and> gw_out (gt_gw s') = gw_out (gt_gw s) @ [ClearedCookie ''refreshToken'', ClearedCookie ''deviceId'']
      \<and> (\<forall>r\<in>set (db_tokens (as_db (gw_world (gt_gw s')))). rt_revokedAt r \<noteq> None))"
proof -
  let ?call = "logout_all_call G q"
  have call: "hc_method ?call = ''POST''" "hc_path ?call = ''auth/internal/logout-all''" by (simp_all add: simple_call_def)
  have head: "hc_header ''Authorization'' ?call = Some a" using header_auth [OF assms(3)] by (simp add: assms(2))
  obtain w where w: "http_logoutAll (st_access S) t (Some a) (call_request (st_peer S) ?call) (gw_world (gt_gw s)) =
      (Inr ''logout success'', w)" and revoked: "\<forall>r\<in>set (db_tokens (as_db w)). rt_revokedAt r \<noteq> None"
    using logout_all_everyone [OF assms(4,5)] by blast
  have "auth_app S t ?call (gw_world (gt_gw s)) = (Inr (200, JStr ''logout success''), w)"
    unfolding logout_all_app [OF call] head using w by (simp add: reply_run)
  from auth_service_run(1) [OF this] obtain cs where
    net: "auth_service S t ?call (gw_world (gt_gw s)) = (Inr \<lparr>rs_status = 200, rs_data = JStr ''logout success'', rs_setCookie = cs\<rparr>, w)"
    by blast
  then show ?thesis
    using revoked net
    by (simp add: gateway_http_def assms(1) client_logoutAll_def guarded_run bind_run andthen_run check_status_def clear_cookies_def
        emit_def logout_result_def gateway_answer_def)
qed

section \<open>Notifications through the gateway\<close>

text \<open>Requests one after the other, each at its time.\<close>

fun visits :: "gate_env \<Rightarrow> (int \<Rightarrow> 'w network) \<Rightarrow> (int \<times> gate_request \<times> gate_op) list \<Rightarrow> 'w gate \<Rightarrow> 'w gate" where
  "visits G net [] s = s"
| "visits G net ((t, q, c) # vs) s = visits G net vs (snd (gateway_http G (net t) t t q c s))"

lemma world_kept:
  assumes "P (gw_world s)" and "P (snd (net call (gw_world s)))"
  shows "P (gw_world (snd (on_world (unchecked_call net d call) s)))" and "P (gw_world (snd (on_world (checked_call net d call) s)))"
  using assms by (auto simp: on_world_def unchecked_call_def checked_call_def guarded_run bind_run andthen_run check_status_def
      split: prod.splits sum.splits)

lemma noti_handle_kept:
  assumes "P (gw_world s)" and "P (snd (net (noti_call ''GET'' ''health'' (getHeaders ''health-check'' None) None) (gw_world s)))"
    and "\<And>call. carries a call \<Longrightarrow> P (snd (net call (gw_world s)))" and "a \<noteq> []"
  shows "P (gw_world (snd (noti_handle net rid (Some a) c s)))"
proof -
  note kept = world_kept [where P = P and net = net, OF assms(1)]
  have own: "P (gw_world (snd (on_world (unchecked_call net d call) s)))" if "carries a call" for d call
    by (rule kept(1)) (rule assms(3) [OF that])
  show ?thesis
    by (cases c) (simp_all only: noti_handle.simps noti_ping_def noti_create_def noti_findAll_def noti_unreadCount_def
      noti_markRead_def noti_readAll_def own kept(2) [OF assms(2)] carries_noti assms(4) simp_thms)
qed

lemma health_kept: "snd (noti_service V t (noti_call ''GET'' ''health'' h None) z) = z"
proof -
  have "segments ''health'' = [''health'']" "lit [''health''] [''health'']" by code_simp+
  then show ?thesis
    by (simp add: noti_service_def noti_app_def noti_match_def noti_misc_def noti_call_def Let_def lit_def lift_def)
qed

definition spared :: "string \<Rightarrow> noti_row list \<Rightarrow> noti_site \<Rightarrow> bool" where
  "spared uid rows z \<longleftrightarrow> ids_unique (nz_noti z) \<and> others uid (nz_noti z) = rows"

lemma noti_service_ids: "ids_unique (nz_noti z) \<Longrightarrow> ids_unique (nz_noti (snd (noti_service V t call z)))"
proof -
  have state: "snd (noti_service V t call z) = snd (noti_app V t call z)"
    by (auto simp: noti_service_def split: prod.splits sum.splits option.splits)
  show "ids_unique (nz_noti z) \<Longrightarrow> ids_unique (nz_noti (snd (noti_service V t call z)))"
    unfolding state
    by (auto simp: noti_app_def lift_def bind_run http_noti_def split: option.split prod.splits sum.splits dest: controller_ids)
qed

lemma noti_service_spares:
  assumes "access_ok (nv_access V)" and "signed_in (nv_access V) t (Some a) uid" and "carries a call" and "spared uid rows z"
  shows "spared uid rows (snd (noti_service V t call z))"
  using assms noti_service_others [of V t call uid z] noti_service_ids [of z V t call]
  by (simp add: spared_def carries_def hc_header_def)

lemma gateway_noti_kept:
  assumes "gq_authorization q = Some a" and "P (gw_world (gt_gw s))"
    and "\<And>rid. P (gw_world (snd (noti_handle net rid (Some a) c (gt_gw s))))"
  shows "P (gw_world (gt_gw (snd (gateway_http G net t t' q (NotiOp c) s))))"
  using assms by (auto simp: gateway_http_def split: prod.splits sum.splits) (metis snd_conv)

text \<open>
  C22. Through the gateway, too, a user reaches nobody else's notifications: whatever requests a client
  makes of the notification routes with tokens of one user, in whatever order, with whatever ids
  and bodies, the notifications of all other users are in the end exactly what they were.
\<close>
theorem platform_noti_isolated:
  assumes "access_ok (nv_access V)" and "ids_unique (nz_noti (gw_world (gt_gw s)))"
    and "\<forall>(t, q, c)\<in>set vs. (\<exists>k. c = NotiOp k) \<and> (\<exists>a. gq_authorization q = Some a \<and> a \<noteq> [] \<and> signed_in (nv_access V) t (Some a) uid)"
  shows "others uid (nz_noti (gw_world (gt_gw (visits G (noti_service V) vs s)))) = others uid (nz_noti (gw_world (gt_gw s)))"
proof -
  have "spared uid rows (gw_world (gt_gw (visits G (noti_service V) vs s)))"
    if "spared uid rows (gw_world (gt_gw s))" for rows
    using that assms(3)
  proof (induction vs arbitrary: s)
    case (Cons v vs)
    obtain t q c where v: "v = (t, q, c)" by (cases v)
    from Cons.prems(2) obtain k a where k: "c = NotiOp k" and a: "gq_authorization q = Some a" "a \<noteq> []"
        "signed_in (nv_access V) t (Some a) uid"
      unfolding v by auto
    have handled: "spared uid rows (gw_world (snd (noti_handle (noti_service V t) rid (Some a) k (gt_gw s))))" for rid
      by (rule noti_handle_kept [where P = "spared uid rows", OF Cons.prems(1) _ _ a(2)])
        (simp_all add: health_kept Cons.prems(1) noti_service_spares [OF assms(1) a(3)])
    have "spared uid rows (gw_world (gt_gw (snd (gateway_http G (noti_service V t) t t q c s))))"
      unfolding k by (rule gateway_noti_kept [where P = "spared uid rows", OF a(1) Cons.prems(1) handled])
    from Cons.IH [OF this] Cons.prems(2) show ?case by (simp add: v)
  qed simp
  from this [of "others uid (nz_noti (gw_world (gt_gw s)))"] assms(2) show ?thesis by (simp add: spared_def)
qed

text \<open>
  Creating a notification through the gateway does nothing: the notification service has no such
  route, and its 404 comes back as a 201 with \<open>success: true\<close>.
\<close>

lemma platform_create_noti:
  assumes "gate_guards G t (NotiOp (CreateNoti dto)) q \<lparr>gs_redis = gt_redis s, gs_headers = None\<rparr> = (Inr u, g)"
  shows "\<exists>b s'. gateway_http G (noti_service V t) t t' q (NotiOp (CreateNoti dto)) s = (Inr (api_json b), s')
    \<and> \<not> ar_success b \<and> ar_message b = ''Cannot POST /notification'' \<and> gw_world (gt_gw s') = gw_world (gt_gw s)
    \<and> gateway_answer now (NotiOp (CreateNoti dto)) (Inr (api_json b)) = Some (201, transform (Some (api_json b)) now)"
proof -
  let ?call = "noti_call ''POST'' ''notification'' (getHeaders (requestIdMiddleware q) (gq_authorization q)) (Some dto)"
  let ?e = "NotFoundException ''Cannot POST /notification''"
  have misc: "noti_app V t ?call = lift (Inl ?e)"
    by (simp add: noti_app_def noti_match_def noti_misc_def noti_call_def segments_fixed lit_def Let_def)
  define b where "b = snd (the (snd (http_exception_catch ?e (Some ''/notification'') False (ne_iso (nv_env V) t))))"
  have b: "\<not> ar_success b" "ar_message b = ''Cannot POST /notification''"
    by (simp_all add: b_def http_exception_catch_def Let_def filter_view_of_def exn_defs raw_message_def field_def jget_Cons)
  have net: "noti_service V t ?call (gw_world (gt_gw s)) =
      (Inr \<lparr>rs_status = 404, rs_data = api_json b, rs_setCookie = []\<rparr>, gw_world (gt_gw s))"
    unfolding noti_service_def misc
    by (simp add: lift_def b_def http_exception_catch_def Let_def filter_view_of_def exn_defs noti_call_def)
  then have "\<exists>s'. gateway_http G (noti_service V t) t t' q (NotiOp (CreateNoti dto)) s = (Inr (api_json b), s')
      \<and> gw_world (gt_gw s') = gw_world (gt_gw s)"
    using on_world_unchecked [where net = "noti_service V t", OF net, of noti_failed]
    by (simp add: gateway_http_def assms noti_create_def)
  with b show ?thesis by (fastforce simp: gateway_answer_def)
qed

section \<open>Revocation across the services\<close>

text \<open>
  C2. A revocation reaches the notification service at once: when the auth service has taken a role
  from a user and the roles left do not give \<open>notifications:read\<close>, the notification service, which
  shares the permission cache and asks the auth service through its provider, refuses the next
  request of the user that needs the permission, whatever the cache held and whatever version the
  token carries, and reads nothing.
\<close>
theorem platform_revocation:
  assumes "unassignRole up t uid roleName s = (Inr x, s')" and "perm_ok (as_redis s)"
    and "NOTIFICATIONS_READ \<notin> set (permission_codes (as_db s') uid)"
    and "provider_ready V S t' uid" and "access_ok X" and "signed_in X t' a uid"
    and "required_codes c = Some [NOTIFICATIONS_READ]" and "nz_redis z = as_redis s'"
  shows "\<exists>e z'. http_noti X E t' (provider_reply V S t' s' rid) a header c z = (Inl e, z') \<and> nz_noti z' = nz_noti z
    \<and> e \<in> {insufficient [NOTIFICATIONS_READ], ForbiddenException ''Missing user context for permission check''}"
proof -
  obtain u where u: "noti_canActivate (ax_config X) (ax_lib X) t' False a = Inr (Some u, None)" "usr_userId u = Some uid"
      "usr_type u = Some ''user''"
    by (rule signed_in_noti [OF assms(5,6)])
  have uid: "uid \<noteq> []" using assms(4) by (simp add: provider_ready_def)
  obtain w where bump: "updatePermVersion t uid w (as_redis s) = (Inr (), as_redis s')"
    using unassignRole_Inr [OF assms(1)] by blast
  let ?guard = "canActivate_perm t' (provider_reply V S t' s' rid) False (Some [NOTIFICATIONS_READ]) u (nz_redis z)"
  have "\<exists>e r. ?guard = (Inl e, r)
    \<and> e \<in> {insufficient [NOTIFICATIONS_READ], ForbiddenException ''Missing user context for permission check''}"
  proof (cases "guard_permVersion u")
    case None
    then show ?thesis using u by (simp add: canActivate_perm_def guard_userId_def)
  next
    case (Some v)
    then have "looked_up u [NOTIFICATIONS_READ] uid v" using u uid by (simp add: looked_up_def guard_userId_def)
    from bump_decision [OF assms(2) bump this] assms(3) have "fst ?guard = Inl (insufficient [NOTIFICATIONS_READ])"
      by (simp add: assms(8) provider_learns [OF assms(4)] decision_def)
    then show ?thesis by (metis insertI1 prod.collapse)
  qed
  then show ?thesis by (auto simp: http_noti_def noti_guards_def u assms(7) bind_run andthen_run)
qed

section \<open>Witnesses\<close>

text \<open>One user, \<open>u1\<close>, with the token \<open>u\<close>; the auth service knows the roles \<open>r1\<close> and \<open>r2\<close>.\<close>

definition auth_site0 :: auth_site where
  "auth_site0 = \<lparr>st_access = sample_access\<lparr>ax_lib := sample_lib\<lparr>jl_bearer := bearer\<rparr>\<rparr>, st_env = demo_env, st_cv = plain_validator,
     st_le = (\<lambda>_ _. True), st_role = (\<lambda>v. JObj [(''id'', JStr (ro_id (rv_role v)))]), st_param = id,
     st_cookie = (\<lambda>_ _. None), st_setCookie = (\<lambda>_. []), st_request = (\<lambda>_. demo_request), st_peer = ''10.0.0.9'', st_uuid = ''r0''\<rparr>"

definition before :: "'w \<Rightarrow> 'w gate" where
  "before w = \<lparr>gt_redis = Map.empty,
     gt_gw = \<lparr>gw_rows = [], gw_cache = Map.empty, gw_draws = 0, gw_out = [], gw_world = w\<rparr>\<rparr>"

abbreviation request0 :: gate_request where "request0 \<equiv> gate_request0 (Some ''Bearer u'')"

lemma auth_site0_ok: "access_ok (st_access auth_site0)" "signed_in (st_access auth_site0) t (Some ''Bearer u'') ''u1''"
  "ax_up (st_access auth_site0)" "validator_ok (st_cv auth_site0)"
proof -
  have bearer: "bearer (Some ''Bearer u'') = Some ''u''" by code_simp
  show "access_ok (st_access auth_site0)"
    using sample_lib_ok by (simp add: access_ok_def jwt_lib_ok_def auth_site0_def sample_access_def sample_cc_def)
  show "signed_in (st_access auth_site0) t (Some ''Bearer u'') ''u1''"
    using bearer by (simp add: signed_in_def verified_def auth_site0_def sample_access_def sample_cc_def sample_lib_def
        user_payload_def jget_Cons)
qed (simp_all add: auth_site0_def sample_access_def)

lemma lets_in:
  assumes "gate_route c \<in> {plain_route, class_or_own role_class None,
      class_or_own role_class (Some (rule_user ''api:roles:assign'' 10 60))}"
  shows "\<exists>u g. gate_guards gate_env0 0 c request0 \<lparr>gs_redis = gt_redis (before w), gs_headers = None\<rparr> = (Inr u, g)"
proof -
  let ?u = "gateway_validate (user_payload ''u1'' 1)"
  have jwt: "gateway_canActivate (gx_verify gate_env0) (gx_lib gate_env0) 0 False (Some ''Bearer u'') = Inr (Some ?u, None)"
    by code_simp
  have env: "gx_sha gate_env0 = id" "gx_rl gate_env0 = rate_limiter_new None None" "gx_up gate_env0"
    by (simp_all add: gate_env0_def)
  from assms have "fst (gate_guards gate_env0 0 c request0 \<lparr>gs_redis = gt_redis (before w), gs_headers = None\<rparr>) = Inr ?u"
    by (elim insertE emptyE) (simp_all add: gate_guards_def gate_request0_def class_or_own_def plain_route_def jwt bind_run andthen_run
        canActivate_rate_def guard_loop_Cons pick_best_def check_def lua_script_def env before_def rate_limiter_new_def
        role_class_def rule_user_def redis_get_def rlive_def redis_incr_def redis_pexpire_def redis_pttl_def
        put_headers_def on_redis_def canActivate_perm_def Let_def)
  then show ?thesis by (metis prod.collapse)
qed

theorem platform_roles_witness:
  "\<exists>b. gateway_answer ''now'' (RoleOp (FindRole ''r9''))
      (fst (gateway_http gate_env0 (auth_service auth_site0 0) 0 0 request0 (RoleOp (FindRole ''r9'')) (before roles_state))) = Some (404, b)
    \<and> ar_message b = ''Role with id '' @ [CHR 0x27] @ ''r9'' @ [CHR 0x27] @ '' not found''"
proof -
  let ?e = "NotFoundException (''Role with id '' @ [CHR 0x27] @ ''r9'' @ [CHR 0x27] @ '' not found'')"
  have "gate_route (RoleOp (FindRole ''r9'')) = class_or_own role_class None" by simp
  with lets_in [of "RoleOp (FindRole ''r9'')" roles_state] obtain u g where
    g: "gate_guards gate_env0 0 (RoleOp (FindRole ''r9'')) request0 \<lparr>gs_redis = gt_redis (before roles_state), gs_headers = None\<rparr> = (Inr u, g)"
    by auto
  obtain v where v: "authenticate (st_access auth_site0) 0 (Some ''Bearer u'') = Inr v"
    using signed_in_user [OF auth_site0_ok(1,2)] by blast
  let ?call = "role_request_call gate_env0 request0 (FindRole ''r9'')"
  have path: "segments ''roles/r9'' = [''roles'', ''r9'']" "lit [''roles''] [''roles'']" "\<not> lit [''roles'', ''r9''] [''roles'']" by code_simp+
  have head: "hc_header ''Authorization'' ?call = Some ''Bearer u''"
    by (simp add: gate_request0_def header_role)
  have param: "st_param auth_site0 ''r9'' = ''r9''" by (simp add: auth_site0_def)
  have call: "hc_method ?call = ''GET''" "hc_path ?call = ''roles/r9''" by (simp_all add: simple_call_def)
  have found: "roles_findOne ''r9'' roles_state = (Inl ?e, roles_state)"
    by (simp add: roles_findOne_def find_role_def roles_state_def bind_run throw_def)
  have "auth_app auth_site0 0 ?call roles_state = (Inl ?e, roles_state)"
    unfolding role_app [OF role_path] roles_app_def call head path Let_def http_roles_findOne_def
    by (simp add: path param serve_plain [OF v] found reply_run del: role_call_of.simps)
  then have app: "auth_app auth_site0 0 ?call (gw_world (gt_gw (before roles_state))) = (Inl ?e, roles_state)"
    by (simp add: before_def)
  have status: "\<forall>e. (Inl ?e :: exn + int \<times> json) = Inl e \<longrightarrow> 400 \<le> fv_status (filter_view_of e None)"
    by (simp add: filter_view_of_def exn_defs)
  from platform_roles [OF g app status, where now = "''now''"] show ?thesis
    by (simp add: withheld_def http_exception_catch_def filter_view_of_def exn_defs raw_message_def field_def jget_Cons Let_def)
qed

theorem platform_assign_witness:
  "\<exists>b w. gateway_answer ''now'' (RoleOp (AssignRole (assign_body ''u1'' ''admin'')))
      (fst (gateway_http gate_env0 (auth_service auth_site0 0) 0 0 request0 (RoleOp (AssignRole (assign_body ''u1'' ''admin'')))
        (before roles_state))) = Some (200, b)
    \<and> w = gw_world (gt_gw (snd (gateway_http gate_env0 (auth_service auth_site0 0) 0 0 request0
        (RoleOp (AssignRole (assign_body ''u1'' ''admin''))) (before roles_state))))
    \<and> ''ROLE_READ'' \<in> set (permission_codes (as_db w) ''u1'')"
proof -
  let ?c = "RoleOp (AssignRole (assign_body ''u1'' ''admin''))"
  let ?r = "\<lparr>ro_id = ''r2'', ro_name = ''admin'', ro_description = None\<rparr>"
  have "gate_route ?c = class_or_own role_class (Some (rule_user ''api:roles:assign'' 10 60))" by simp
  with lets_in [of ?c roles_state] obtain u g where
    g: "gate_guards gate_env0 0 ?c request0 \<lparr>gs_redis = gt_redis (before roles_state), gs_headers = None\<rparr> = (Inr u, g)"
    by auto
  have token: "gq_authorization request0 = Some ''Bearer u''" "''Bearer u'' \<noteq> []" by (simp_all add: gate_request0_def)
  have body: "cl_holds (st_cv auth_site0) IsUUID (Some (JStr ''u1''))" "''admin'' \<noteq> []" "length ''admin'' \<le> 64"
    by (simp_all add: auth_site0_def plain_validator_def)
  have world: "roles_state = gw_world (gt_gw (before roles_state))" by (simp add: before_def)
  have redis: "perm_ok (as_redis roles_state)" by simp
  have user: "find_first (\<lambda>u. u_id u = ''u1'') (db_users (as_db roles_state)) = Some (hd (db_users (as_db roles_state)))"
    and role: "find_first (\<lambda>r. ro_name r = ''admin'') (db_roles (as_db roles_state)) = Some ?r"
    and none: "\<forall>ur\<in>set (db_userRoles (as_db roles_state)). \<not> has_role ''u1'' (ro_id ?r) ur"
    and perms: "permissions_of (as_db roles_state) (ro_id ?r) = [\<lparr>pe_id = ''p2'', pe_code = ''ROLE_READ'', pe_description = None\<rparr>]"
    by (simp_all add: roles_state_def has_role_def permissions_of_def)
  from platform_assign [OF g token auth_site0_ok(1) auth_site0_ok(2) auth_site0_ok(3,4) body world redis user role none, where t' = 0 and now = "''now''"]
  show ?thesis unfolding perms by (auto split: prod.splits)
qed

theorem platform_logout_all_witness:
  "\<exists>b w. gateway_answer ''now'' (AuthOp LogoutAll)
      (fst (gateway_http gate_env0 (auth_service auth_site0 0) 0 0 request0 (AuthOp LogoutAll)
        (before (demo_state\<lparr>as_db := (as_db demo_state)\<lparr>db_tokens := [demo_session\<lparr>rt_userId := ''u9''\<rparr>]\<rparr>\<rparr>)))) = Some (200, b)
    \<and> w = gw_world (gt_gw (snd (gateway_http gate_env0 (auth_service auth_site0 0) 0 0 request0 (AuthOp LogoutAll)
        (before (demo_state\<lparr>as_db := (as_db demo_state)\<lparr>db_tokens := [demo_session\<lparr>rt_userId := ''u9''\<rparr>]\<rparr>\<rparr>)))))
    \<and> filter (\<lambda>r. rt_revokedAt r = None) (db_tokens (as_db w)) = []"
proof -
  let ?w = "demo_state\<lparr>as_db := (as_db demo_state)\<lparr>db_tokens := [demo_session\<lparr>rt_userId := ''u9''\<rparr>]\<rparr>\<rparr>"
  have "gate_route (AuthOp LogoutAll) = plain_route" by simp
  with lets_in [of "AuthOp LogoutAll" ?w] obtain u g where
    g: "gate_guards gate_env0 0 (AuthOp LogoutAll) request0 \<lparr>gs_redis = gt_redis (before ?w), gs_headers = None\<rparr> = (Inr u, g)"
    by auto
  have token: "gq_authorization request0 = Some ''Bearer u''" "''Bearer u'' \<noteq> []" by (simp_all add: gate_request0_def)
  from platform_logout_all [OF g token auth_site0_ok(1) auth_site0_ok(2), where t' = 0 and now = "''now''"] show ?thesis
    by (auto simp: filter_empty_conv split: prod.splits)
qed

definition noti_site0 :: noti_service_site where
  "noti_site0 = \<lparr>nv_access = st_access auth_site0, nv_env = Notification.sample_env, nv_reply = (\<lambda>_. NoResponse ''down''),
     nv_param = id, nv_number = (\<lambda>_. JNull), nv_name = None\<rparr>"

theorem platform_noti_isolated_witness:
  "others ''u1'' (nz_noti (gw_world (gt_gw (visits gate_env0 (noti_service noti_site0)
      [(0, request0, NotiOp ReadAll), (1, request0, NotiOp (MarkRead ''n1''))]
      (before \<lparr>nz_redis = Map.empty, nz_noti = sample_notis\<rparr>))))) = ns_rows sample_notis"
proof -
  have unique: "ids_unique (nz_noti (gw_world (gt_gw (before \<lparr>nz_redis = Map.empty, nz_noti = sample_notis\<rparr>))))"
    by code_simp
  have access: "access_ok (nv_access noti_site0)" by (simp add: noti_site0_def auth_site0_ok)
  have "others ''u1'' sample_notis = ns_rows sample_notis" by code_simp
  then show ?thesis
    by (subst platform_noti_isolated [OF access unique, where uid = "''u1''"])
      (auto simp: gate_request0_def noti_site0_def auth_site0_ok before_def)
qed

definition provider0 :: provider_env where
  "provider0 = \<lparr>pv_sign = (\<lambda>_ _ _ _ _. ''jwt''), pv_secret = None, pv_issuer = None, pv_audience = None, pv_statusText = (\<lambda>_. [])\<rparr>"

theorem platform_revocation_witness:
  "\<exists>e z'. http_noti sample_access Notification.sample_env 7
      (provider_reply provider0 (auth_site0\<lparr>st_access := gate_access\<rparr>) 7 (snd (unassignRole True 5 ''u1'' ''user'' roles_state)) ''r1'')
      (Some ''u'') None GetUnread
      \<lparr>nz_redis = as_redis (snd (unassignRole True 5 ''u1'' ''user'' roles_state)), nz_noti = sample_notis\<rparr> = (Inl e, z')
    \<and> nz_noti z' = sample_notis"
proof -
  let ?s = "snd (unassignRole True 5 ''u1'' ''user'' roles_state)" and ?S = "auth_site0\<lparr>st_access := gate_access\<rparr>"
  have "fst (unassignRole True 5 ''u1'' ''user'' roles_state) = Inr (''u1'', ''user'')" by code_simp
  then have run: "unassignRole True 5 ''u1'' ''user'' roles_state = (Inr (''u1'', ''user''), ?s)" by (simp add: prod_eq_iff)
  have redis: "perm_ok (as_redis roles_state)" by simp
  have "permission_codes (as_db ?s) ''u1'' = []" by code_simp
  then have codes: "NOTIFICATIONS_READ \<notin> set (permission_codes (as_db ?s) ''u1'')" by simp
  have "authenticate gate_access 7 (Some ''Bearer jwt'') = Inr (internal_user internal_payload)" by code_simp
  then have ready: "provider_ready provider0 ?S 7 ''u1''"
    by (simp add: provider_ready_def provider_signInternalToken_def provider0_def auth_site0_def)
  have needs: "required_codes GetUnread = Some [NOTIFICATIONS_READ]" by simp
  have shared: "nz_redis \<lparr>nz_redis = as_redis ?s, nz_noti = sample_notis\<rparr> = as_redis ?s" by simp
  from platform_revocation [OF run redis codes ready sample_access_ok needs shared, of Notification.sample_env "''r1''" None]
  show ?thesis by auto
qed

end
