(* ===== verification/PlatformEvents.thy ===== *)
theory PlatformEvents
  imports Platform
begin

text \<open>
  The WebSocket side of the gateway with the notification service behind it: what the open sockets of
  a user are told when a message asks to mark a notification, and what the table then holds.
\<close>

section \<open>The two calls of a read\<close>

text \<open>What the gateway signs for the user of a socket: an internal token with \<open>data.userId\<close>.\<close>

definition speaks_for :: "noti_service_site \<Rightarrow> int \<Rightarrow> string \<Rightarrow> string \<Rightarrow> bool" where
  "speaks_for V t a uid \<longleftrightarrow> (\<exists>u. noti_canActivate (ax_config (nv_access V)) (ax_lib (nv_access V)) t False (Some a) =
       Inr (Some u, Some (u\<lparr>usr_type := None\<rparr>))
     \<and> usr_type u = Some ''internal'' \<and> usr_userId u = None \<and> usr_data_userId u = Some uid)"

lemma http_noti_internal:
  assumes "speaks_for V t a uid"
  shows "http_noti (nv_access V) (nv_env V) t (nv_reply V) (Some a) header c z =
    (let (x, s) = noti_controller (nv_env V) t uid c (nz_noti z) in (x, z\<lparr>nz_noti := s\<rparr>))"
proof -
  from assms obtain u where u: "noti_canActivate (ax_config (nv_access V)) (ax_lib (nv_access V)) t False (Some a) =
      Inr (Some u, Some (u\<lparr>usr_type := None\<rparr>))"
     "usr_type u = Some ''internal''" "usr_userId u = None" "usr_data_userId u = Some uid"
    unfolding speaks_for_def by blast
  then show ?thesis
    by (cases c) (simp_all add: http_noti_def noti_guards_def bind_run andthen_run canActivate_perm_def request_userId_def
        resolveUserId_def split: prod.split)
qed

lemma segments_read:
  assumes "CHR ''/'' \<notin> set i"
  shows "segments (''notification/'' @ i @ ''/read'') = [''notification'', i, ''read'']"
proof -
  have path: "''notification/'' @ i @ ''/read'' = ''notification'' @ CHR ''/'' # (i @ CHR ''/'' # ''read'')" by simp
  have words: "split_on CHR ''/'' ''notification'' = [''notification'']" "split_on CHR ''/'' ''read'' = [''read'']"
    by code_simp+
  have "split_on CHR ''/'' (''notification/'' @ i @ ''/read'') = [''notification'', i, ''read'']"
    unfolding path split_on_slash words split_on_plain [OF assms] by simp
  then show ?thesis by (simp add: segments_def)
qed

lemma noti_words: "toLowerCase ''notification'' = ''notification''" "toLowerCase ''read'' = ''read''"
  "toLowerCase ''unread-count'' = ''unread-count''" "segments ''notification/unread-count'' = [''notification'', ''unread-count'']"
  by code_simp+

lemma match_read:
  assumes "i \<noteq> []" and "CHR ''/'' \<notin> set i" and "nv_param V i = i"
  shows "noti_match V (noti_call ''POST'' (''notification/'' @ i @ ''/read'') h b) = Some (PostRead i)"
proof -
  have p: "hc_method (noti_call ''POST'' (''notification/'' @ i @ ''/read'') h b) = ''POST''"
    "segments (hc_path (noti_call ''POST'' (''notification/'' @ i @ ''/read'') h b)) = [''notification'', i, ''read'']"
    by (simp_all only: noti_call_def http_call.simps segments_read [OF assms(2)])
  show ?thesis unfolding noti_match_def p using assms by (simp add: lit_def noti_words Let_def)
qed

lemma match_unread: "noti_match V (noti_call ''GET'' ''notification/unread-count'' h b) = Some GetUnread"
  by (simp add: noti_match_def noti_call_def lit_def noti_words Let_def)

lemma noti_service_internal:
  assumes "noti_match V call = Some c" and "hc_header ''Authorization'' call = Some a" and "speaks_for V t a uid"
    and "noti_controller (nv_env V) t uid c (nz_noti z) = (r, s)"
  shows "\<exists>resp. noti_service V t call z = (Inr resp, z\<lparr>nz_noti := s\<rparr>)
    \<and> (\<forall>x. r = Inr x \<longrightarrow> rs_data resp = noti_answer_json V c x)"
  using assms
  by (cases r) (auto simp: noti_service_def noti_app_def bind_run http_noti_internal [OF assms(3)] http_exception_catch_def Let_def)

section \<open>What the sockets are told\<close>

text \<open>After marking, whatever it found, the row of the user with the id is read and no other row has changed.\<close>

definition marked :: "string \<Rightarrow> string \<Rightarrow> noti_row list \<Rightarrow> noti_row list \<Rightarrow> bool" where
  "marked uid i rows rows' \<longleftrightarrow> (\<forall>r\<in>set rows'. no_id r = i \<and> no_userId r = uid \<longrightarrow> no_readAt r \<noteq> None)
     \<and> filter (\<lambda>r. \<not> (no_id r = i \<and> no_userId r = uid)) rows' = filter (\<lambda>r. \<not> (no_id r = i \<and> no_userId r = uid)) rows"

lemma markRead_marks:
  assumes "ids_unique s" and "uid \<noteq> []" and "i \<noteq> []" and "markRead E t uid i s = (r, s')"
  shows "marked uid i (ns_rows s) (ns_rows s')"
proof (cases "find_first (\<lambda>r. no_id r = i \<and> no_userId r = uid) (ns_rows s)")
  case None
  then have "s' = s" using assms(2-4) by (simp add: markRead_def bind_run del: find_first_None_iff)
  with None show ?thesis by (auto simp: marked_def)
next
  case (Some q)
  from find_first_SomeD [OF Some] have q: "q \<in> set (ns_rows s)" "no_id q = i" "no_userId q = uid" by simp_all
  have same: "\<forall>p\<in>set (ns_rows s). no_id p = i \<longrightarrow> p = q"
    using unique_key_eq [OF assms(1) [unfolded ids_unique_def] _ q(1)] q(2) by auto
  show ?thesis
  proof (cases "no_readAt q")
    case None
    let ?rows = "update_where (\<lambda>p. no_id p = i) (\<lambda>p. p\<lparr>no_readAt := Some t\<rparr>) (ns_rows s)"
    have s': "s' = s\<lparr>ns_rows := ?rows\<rparr>"
      using assms(2-4) Some None q(2) by (simp add: markRead_def bind_run andthen_run)
    have mine: "\<forall>p\<in>set (ns_rows s). no_id p = i \<longrightarrow> no_userId p = uid" using same q(3) by blast
    have "filter (\<lambda>r. \<not> (no_id r = i \<and> no_userId r = uid)) ?rows = filter (\<lambda>r. \<not> (no_id r = i \<and> no_userId r = uid)) (ns_rows s)"
      by (rule filter_update_where_set) (use mine in simp)
    moreover have "\<forall>r\<in>set ?rows. no_id r = i \<and> no_userId r = uid \<longrightarrow> no_readAt r \<noteq> None"
      unfolding update_where_def set_map ball_simps(9) by (intro ballI) (simp split: if_split)
    moreover have "ns_rows s' = ?rows" by (simp add: s')
    ultimately show ?thesis unfolding marked_def by (simp only: simp_thms)
  next
    case (Some d)
    then have "s' = s" using assms(2-4) \<open>find_first _ _ = Some q\<close> by (simp add: markRead_def bind_run)
    moreover have "\<forall>r\<in>set (ns_rows s). no_id r = i \<and> no_userId r = uid \<longrightarrow> no_readAt r \<noteq> None"
      using same Some by (metis option.distinct(1))
    ultimately show ?thesis by (simp add: marked_def)
  qed
qed

lemma mark_and_count_run:
  assumes "net (noti_call ''POST'' (''notification/'' @ i @ ''/read'') (getHeaders rid (Some a)) None) w = (Inr r, w1)"
    and "net (noti_call ''GET'' ''notification/unread-count'' (getHeaders rid (Some a)) None) w1 = (Inr r', w2)"
    and "rs_data r' = JObj [(''count'', n)]"
  shows "mark_and_count net i a rid w = (Inr (Some n), w2)"
proof -
  have "noti_markRead net i (Some a) rid w = (Inr (rs_data r), w1)"
    unfolding noti_markRead_def by (rule unchecked_call_run(2)) (rule assms(1))
  moreover have "noti_unreadCount net (Some a) rid w1 = (Inr (rs_data r'), w2)"
    unfolding noti_unreadCount_def by (rule unchecked_call_run(2)) (rule assms(2))
  ultimately show ?thesis by (simp add: mark_and_count_def andthen_run bind_run assms(3) destructure_def jget_Cons)
qed

lemma read_handled:
  assumes "ws_data st s = Some d" and "sd_authenticated d" and "checkRateLimit now (sd_userId d) (ws_limits st) = (True, l)"
    and "NotificationReadRequestSchema z body = Some i"
    and "mark_and_count net i a rid (ws_world st) = (Inr c, w)" and "a = ''Bearer '' @ sign (sd_userId d)"
  shows "handleNotificationRead z fl net sign now rid s body st =
    emitToUser (sd_userId d) WS_NOTIFICATION_UPDATED (notification_updated_payload ''read'' (Some i) c)
      (st\<lparr>ws_limits := l, ws_world := w\<rparr>)"
proof -
  have "with_world (mark_and_count net i a rid) (st\<lparr>ws_limits := l\<rparr>) = (Inr c, st\<lparr>ws_limits := l, ws_world := w\<rparr>)"
    using assms(5) by (simp add: with_world_simps)
  then show ?thesis
    unfolding handleNotificationRead_def ws_guarded_def assms(6) using assms(1-4) by (simp only: option.case if_True prod.case bool.case) simp
qed

text \<open>
  C20. What the sockets are told is true: a read message of an authenticated socket, with the
  notification service behind the gateway, ends in one update on each open socket of the user, whose
  count is the number of unread notifications the user has in the table then, and which conforms to
  its contract; the user's notification with that id is read, and nothing else in the table changed.
\<close>
theorem platform_ws_read:
  assumes "ws_data st s = Some d" and "sd_authenticated d" and "fst (checkRateLimit now uid (ws_limits st))" and "uid = sd_userId d"
    and "NotificationReadRequestSchema z body = Some i" and "i \<noteq> []" and "CHR ''/'' \<notin> set i" and "nv_param V i = i" and "uid \<noteq> []"
    and "speaks_for V now (''Bearer '' @ sign uid) uid" and "ids_unique (nz_noti (ws_world st))"
    and "st' = handleNotificationRead z fl (noti_service V now) sign now rid s body st"
  shows "\<exists>payload. ws_out st' = ws_out st @ map (\<lambda>s'. ToSocket s' ''notification:updated'' payload) (getSocketsByUser uid (ws_registry st))
    \<and> NotificationUpdatedPayloadSchema z payload = Inr \<lparr>nu_action = ''read'', nu_notificationId = Some i,
        nu_unreadCount = int (unread uid (ns_rows (nz_noti (ws_world st'))))\<rparr>
    \<and> marked uid i (ns_rows (nz_noti (ws_world st))) (ns_rows (nz_noti (ws_world st')))"
proof -
  let ?a = "''Bearer '' @ sign uid" and ?w = "ws_world st" and ?net = "noti_service V now"
  let ?h = "getHeaders rid (Some ?a)"
  have head: "hc_header ''Authorization'' (noti_call m p ?h b) = Some ?a" for m p b
    by (simp add: hc_header_def noti_call_def getHeaders_def)
  obtain r u where mark: "markRead (nv_env V) now uid i (nz_noti ?w) = (r, u)" by fastforce
  obtain r' where "noti_controller (nv_env V) now uid (PostRead i) (nz_noti ?w) = (r', u)"
    using mark by (cases r) (auto simp: bind_run split_def)
  from noti_service_internal [OF match_read [OF assms(6-8)] head assms(10) this]
  obtain resp where call1: "?net (noti_call ''POST'' (''notification/'' @ i @ ''/read'') ?h None) ?w = (Inr resp, ?w\<lparr>nz_noti := u\<rparr>)" by blast
  have "noti_controller (nv_env V) now uid GetUnread (nz_noti (?w\<lparr>nz_noti := u\<rparr>)) = (Inr (Number (unread uid (ns_rows u))), u)"
    using assms(9) by (simp add: unreadCount_def bind_run)
  from noti_service_internal [OF match_unread head assms(10) this]
  obtain resp' where call2: "?net (noti_call ''GET'' ''notification/unread-count'' ?h None) (?w\<lparr>nz_noti := u\<rparr>) =
      (Inr resp', ?w\<lparr>nz_noti := u\<rparr>)" "rs_data resp' = JObj [(''count'', JNum (int (unread uid (ns_rows u))))]"
    by auto
  have "rs_data resp' = JObj [(''count'', JNum (int (unread uid (ns_rows u))))]" by (rule call2(2))
  from mark_and_count_run [where net = ?net, OF call1 call2(1) this]
  have counted: "mark_and_count ?net i ?a rid ?w = (Inr (Some (JNum (int (unread uid (ns_rows u))))), ?w\<lparr>nz_noti := u\<rparr>)" .
  obtain l where limit: "checkRateLimit now uid (ws_limits st) = (True, l)" using assms(3) by (metis prod.collapse)
  let ?payload = "notification_updated_payload ''read'' (Some i) (Some (JNum (int (unread uid (ns_rows u)))))"
  have st': "st' = (st\<lparr>ws_limits := l, ws_world := ?w\<lparr>nz_noti := u\<rparr>\<rparr>)\<lparr>ws_out := ws_out st @
      map (\<lambda>s'. ToSocket s' ''notification:updated'' ?payload) (getSocketsByUser uid (ws_registry st))\<rparr>"
    unfolding assms(12) read_handled [where net = ?net and sign = sign, OF assms(1,2) limit [unfolded assms(4)] assms(5) counted arg_cong [OF assms(4), of "\<lambda>v. ''Bearer '' @ sign v"]]
    by (simp add: assms(4) emitToUser_eq WS_NOTIFICATION_UPDATED_def)
  have "zf_uuid z i" using assms(5) by (auto simp: NotificationReadRequestSchema_def z_string_def split: option.splits json.splits if_splits)
  then have "NotificationUpdatedPayloadSchema z ?payload = Inr \<lparr>nu_action = ''read'', nu_notificationId = Some i,
      nu_unreadCount = int (unread uid (ns_rows u))\<rparr>"
    by (intro updated_payload_conforms) simp_all
  with markRead_marks [OF assms(11,9,6) mark] show ?thesis by (intro exI [of _ ?payload]) (simp add: st')
qed

section \<open>Witness\<close>

text \<open>The gateway signs \<open>i\<close>, an internal token for the user \<open>u\<close>, who is on the socket \<open>s1\<close>.\<close>

definition speaking_site :: noti_service_site where
  "speaking_site = noti_site0\<lparr>nv_access := sample_access\<lparr>ax_lib := \<lparr>jl_bearer = bearer,
     jl_decode = (\<lambda>tok. Some (JObj [(''aud'', JStr ''internal''), (''data'', JObj [(''userId'', JStr ''u'')])])),
     jl_verify = (\<lambda>v t tok. if vo_secret v = ''is'' then Some (JObj [(''aud'', JStr ''internal''), (''data'', JObj [(''userId'', JStr ''u'')])]) else None)\<rparr>\<rparr>\<rparr>"

definition socket_state :: "noti_site ws_state" where
  "socket_state = \<lparr>ws_registry = register ''u'' ''s1'' registry_empty, ws_limits = Map.empty,
     ws_data = [''s1'' \<mapsto> \<lparr>sd_userId = ''u'', sd_email = ''e'', sd_authenticated = True\<rparr>], ws_out = [],
     ws_world = \<lparr>nz_redis = Map.empty, nz_noti = sample_notis\<lparr>ns_rows := [sample_row ''a'' ''u'' 1, sample_row ''b'' ''u'' 2]\<rparr>\<rparr>\<rparr>"

theorem platform_ws_read_witness:
  "\<exists>payload. ws_out (handleNotificationRead (we_formats WsGateway.sample_env) id (noti_service speaking_site 5) (\<lambda>_. ''i'') 5 ''r'' ''s1''
      (JObj [(''notificationId'', JStr ''a'')]) socket_state) =
    map (\<lambda>s'. ToSocket s' ''notification:updated'' payload) (getSocketsByUser ''u'' (ws_registry socket_state))"
proof -
  have data: "ws_data socket_state ''s1'' = Some \<lparr>sd_userId = ''u'', sd_email = ''e'', sd_authenticated = True\<rparr>"
    "sd_authenticated \<lparr>sd_userId = ''u'', sd_email = ''e'', sd_authenticated = True\<rparr>"
    "fst (checkRateLimit 5 ''u'' (ws_limits socket_state))"
    "''u'' = sd_userId \<lparr>sd_userId = ''u'', sd_email = ''e'', sd_authenticated = True\<rparr>"
    by (simp_all add: socket_state_def checkRateLimit_def)
  have id: "NotificationReadRequestSchema (we_formats WsGateway.sample_env) (JObj [(''notificationId'', JStr ''a'')]) = Some ''a''"
    "''a'' \<noteq> []" "CHR ''/'' \<notin> set ''a''" "nv_param speaking_site ''a'' = ''a''" "''u'' \<noteq> []"
    by (simp_all add: NotificationReadRequestSchema_def jget_Cons WsGateway.sample_env_def speaking_site_def noti_site0_def)
  have "noti_canActivate (ax_config (nv_access speaking_site)) (ax_lib (nv_access speaking_site)) 5 False (Some ''Bearer i'') =
      Inr (Some (no_user\<lparr>usr_type := Some ''internal'', usr_data_userId := Some ''u''\<rparr>),
        Some (no_user\<lparr>usr_data_userId := Some ''u''\<rparr>))"
    by code_simp
  then have speaks: "speaks_for speaking_site 5 (''Bearer '' @ (\<lambda>_. ''i'') ''u'') ''u''"
    by (simp add: speaks_for_def no_user_def)
  have unique: "ids_unique (nz_noti (ws_world socket_state))" by (simp add: ids_unique_def socket_state_def sample_row_def)
  from platform_ws_read [OF data id speaks unique refl, of id "''r''"] show ?thesis
    by (auto simp: socket_state_def)
qed

end
