(* ===== verification/Logging.thy ===== *)
theory Logging
  imports Gateway
begin

text \<open>
  What the services write to their logs: the options of the logger and its children
  (\<open>packages/common/src/logging/logger.ts\<close>), the interceptor that logs every finished request
  (\<open>http-logger.interceptor.ts\<close>), what the exception filter logs
  (\<open>errors/http-exception.filter.ts\<close>), and the request-scoped storage of \<open>cls/cls.module.ts\<close>.
  pino is a parameter: a function from options, children's bindings and a call to the line it
  writes, of which \<open>pino_ok\<close> states what its documentation says.
\<close>

section \<open>The logger\<close>

record pino_options =
  po_level :: string
  po_base :: "(string \<times> json) list"
  po_redact :: "string list list"

text \<open>A path is a list of names, where \<open>*\<close> stands for every member of an object.\<close>

definition redacted_paths :: "string list list" where
  "redacted_paths =
     [[''req'', ''headers'', ''authorization''], [''req'', ''headers'', ''cookie''], [''*'', ''password''], [''*'', ''token''],
      [''*'', ''refreshToken''], [''*'', ''accessToken'']]"

definition logger_options :: "string option \<Rightarrow> string option \<Rightarrow> pino_options" where
  "logger_options LOG_LEVEL SERVICE_NAME = \<lparr>po_level = or_str LOG_LEVEL ''info'',
     po_base = [(''service'', JStr (or_str SERVICE_NAME ''unknown-service''))], po_redact = redacted_paths\<rparr>"

text \<open>A logger: the options and the bindings of the child.\<close>

type_synonym logger = "pino_options \<times> (string \<times> json) list"

definition getReqLogger :: "pino_options \<Rightarrow> string \<Rightarrow> logger" where
  "getReqLogger opts requestId = (opts, [(''requestId'', JStr requestId)])"

text \<open>A call names a level, an object that is merged into the line, and a message.\<close>

record log_call =
  lc_level :: string
  lc_bindings :: "(string \<times> json) list"
  lc_msg :: string

record log_line =
  ll_level :: string
  ll_time :: int
  ll_fixed :: "(string \<times> json) list"
  ll_bindings :: json
  ll_msg :: string

type_synonym pino = "logger \<Rightarrow> int \<Rightarrow> log_call \<Rightarrow> log_line option"

text \<open>The documentation of pino: the levels in their order, and paths that are removed from the object.\<close>

definition level_values :: "(string \<times> int) list" where
  "level_values = [(''trace'', 10), (''debug'', 20), (''info'', 30), (''warn'', 40), (''error'', 50), (''fatal'', 60)]"

definition level_on :: "pino_options \<Rightarrow> string \<Rightarrow> bool" where
  "level_on opts level = (case (map_of level_values (po_level opts), map_of level_values level) of
     (Some least, Some v) \<Rightarrow> least \<le> v | _ \<Rightarrow> False)"

fun remove_path :: "string list \<Rightarrow> json \<Rightarrow> json" where
  "remove_path [k] (JObj ms) = JObj (filter (\<lambda>m. k \<noteq> ''*'' \<and> fst m \<noteq> k) ms)"
| "remove_path (k # p) (JObj ms) = JObj (map (\<lambda>m. (fst m, if k = ''*'' \<or> fst m = k then remove_path p (snd m) else snd m)) ms)"
| "remove_path p j = j"

definition redact :: "string list list \<Rightarrow> json \<Rightarrow> json" where
  "redact paths j = fold remove_path paths j"

definition pino_ok :: "pino \<Rightarrow> bool" where
  "pino_ok P \<longleftrightarrow> (\<forall>opts child t c. P (opts, child) t c =
     (if level_on opts (lc_level c) then
        Some \<lparr>ll_level = lc_level c, ll_time = t, ll_fixed = po_base opts @ child,
          ll_bindings = redact (po_redact opts) (JObj (lc_bindings c)), ll_msg = lc_msg c\<rparr>
      else None))"

section \<open>The interceptor\<close>

record http_view =
  hv_requestId :: "string option"
  hv_method :: string
  hv_originalUrl :: "string option"
  hv_url :: string
  hv_statusCode :: int

text \<open>\<open>tap\<close> with one argument: only a handler that returned is logged.\<close>

definition intercept :: "int \<Rightarrow> int \<Rightarrow> http_view \<Rightarrow> (exn + 'a) \<Rightarrow> log_call option" where
  "intercept start now v outcome = (case outcome of Inl _ \<Rightarrow> None
     | Inr _ \<Rightarrow> Some \<lparr>lc_level = ''info'',
         lc_bindings = opt_member ''requestId'' (map_option JStr (hv_requestId v))
           @ [(''method'', JStr (hv_method v)), (''path'', JStr (or_str (hv_originalUrl v) (hv_url v))),
              (''statusCode'', JNum (hv_statusCode v)), (''durationMs'', JNum (now - start))],
         lc_msg = ''http_request''\<rparr>)"

section \<open>The exception filter\<close>

text \<open>The bindings of the entry that \<open>http_exception_catch\<close> of \<open>Errors\<close> decides on.\<close>

definition base_bindings :: "http_view \<Rightarrow> (string \<times> json) list" where
  "base_bindings v = opt_member ''requestId'' (map_option JStr (hv_requestId v))
     @ [(''method'', JStr (hv_method v)), (''path'', JStr (nullish (hv_originalUrl v) (hv_url v)))]"

definition filter_bindings :: "exn \<Rightarrow> http_view \<Rightarrow> (string \<times> json) list" where
  "filter_bindings e v = base_bindings v @ (case e of
     ServiceErr s \<Rightarrow> [(''statusCode'', JNum (se_statusCode s)), (''code'', JStr (se_code s))] @ opt_member ''details'' (se_details s)
   | HttpExc h \<Rightarrow>
       (if he_badRequest h then [(''statusCode'', JNum (he_status h))] @ opt_member ''details'' (jget ''message'' (he_response h))
        else [(''statusCode'', JNum (he_status h)), (''code'', nullish (field ''code'' (he_response h)) (JStr (code_str (defaultCodeForStatus (he_status h)))))]
          @ opt_member ''details'' (jget ''details'' (he_response h)))
   | _ \<Rightarrow> [(''statusCode'', JNum 500), (''errorMessage'', JStr (nullish (err_message e) ''unhandled_exception''))])"

definition filter_call :: "exn \<Rightarrow> http_view \<Rightarrow> log_call option" where
  "filter_call e v = map_option (\<lambda>entry. \<lparr>lc_level = (case le_level entry of Error \<Rightarrow> ''error'' | Warn \<Rightarrow> ''warn''),
       lc_bindings = filter_bindings e v, lc_msg = le_msg entry\<rparr>)
     (fst (http_exception_catch e (Some (nullish (hv_originalUrl v) (hv_url v))) False []))"

text \<open>\<open>safeLog\<close>: where the logger throws, the console gets the entry, unredacted.\<close>

datatype written = Line log_line | Console log_call

definition safeLog :: "(logger \<Rightarrow> int \<Rightarrow> log_call \<Rightarrow> exn + log_line option) \<Rightarrow> logger \<Rightarrow> int \<Rightarrow> log_call \<Rightarrow> written option" where
  "safeLog P lg t c = (case P lg t c of Inl _ \<Rightarrow> Some (Console c) | Inr line \<Rightarrow> map_option Line line)"

section \<open>Request-scoped storage\<close>

record cls_request =
  cr_requestId :: "string option"
  cr_log :: "logger option"
  cr_header :: "string option"

text \<open>\<open>idGenerator\<close> and \<open>setup\<close> of \<open>CommonClsModule\<close>.\<close>

definition cls_id :: "string option \<Rightarrow> string \<Rightarrow> string" where
  "cls_id header uuid = or_str header uuid"

definition cls_setup :: "pino_options \<Rightarrow> string \<Rightarrow> cls_request" where
  "cls_setup opts rid = \<lparr>cr_requestId = Some rid, cr_log = Some (getReqLogger opts rid), cr_header = Some rid\<rparr>"

section \<open>What is removed, and what is not\<close>

lemma remove_path_keeps_atom: "(\<forall>ms. v \<noteq> JObj ms) \<Longrightarrow> remove_path p v = v"
  by (cases v; cases "(p, v)" rule: remove_path.cases) auto

definition secrets_removed :: "json \<Rightarrow> json" where
  "secrets_removed v = remove_path [''accessToken''] (remove_path [''refreshToken''] (remove_path [''token''] (remove_path [''password''] v)))"

lemma secrets_removed_members:
  "secrets_removed (JObj ms) = JObj (filter (\<lambda>m. fst m \<notin> {''password'', ''token'', ''refreshToken'', ''accessToken''}) ms)"
  by (simp add: secrets_removed_def conj_commute conj_left_commute)

lemma secrets_removed_atom: "(\<forall>ms. v \<noteq> JObj ms) \<Longrightarrow> secrets_removed v = v"
  by (simp add: secrets_removed_def remove_path_keeps_atom)

lemma redact_members:
  "redact redacted_paths (JObj ms) = JObj (map (\<lambda>m. (fst m, secrets_removed (if fst m = ''req'' then
      remove_path [''headers'', ''cookie''] (remove_path [''headers'', ''authorization''] (snd m)) else snd m))) ms)"
  by (simp add: redact_def redacted_paths_def secrets_removed_def comp_def)

text \<open>
  A line written with the options of \<open>logger.ts\<close>: one level down no password and no token is left,
  nor the two secret headers of a logged request.
\<close>

lemma line_redacted:
  assumes "pino_ok P" and "P (logger_options level name, child) t c = Some line" and "ll_bindings line = JObj ms"
    and "(k, JObj inner) \<in> set ms"
  shows "fst ` set inner \<inter> {''password'', ''token'', ''refreshToken'', ''accessToken''} = {}"
    and "k = ''req'' \<Longrightarrow> (''headers'', JObj hs) \<in> set inner \<Longrightarrow> fst ` set hs \<inter> {''authorization'', ''cookie''} = {}"
proof -
  have ms: "redact redacted_paths (JObj (lc_bindings c)) = JObj ms"
    using assms(1-3) by (auto simp: pino_ok_def logger_options_def split: if_splits)
  then obtain v where v: "JObj inner = secrets_removed (if k = ''req'' then
      remove_path [''headers'', ''cookie''] (remove_path [''headers'', ''authorization''] v) else v)"
    using assms(4) by (auto simp: redact_members)
  show "fst ` set inner \<inter> {''password'', ''token'', ''refreshToken'', ''accessToken''} = {}"
    using v secrets_removed_atom by (cases "if k = ''req'' then
      remove_path [''headers'', ''cookie''] (remove_path [''headers'', ''authorization''] v) else v")
      (auto simp: secrets_removed_members)
  assume k: "k = ''req''" and hs: "(''headers'', JObj hs) \<in> set inner"
  show "fst ` set hs \<inter> {''authorization'', ''cookie''} = {}"
  proof (cases v)
    case (JObj vs)
    then obtain w where w: "JObj hs = remove_path [''cookie''] (remove_path [''authorization''] w)"
      using v k hs by (auto simp: secrets_removed_members)
    then show ?thesis
      by (cases w) (auto simp: remove_path_keeps_atom)
  qed (use v k in \<open>simp_all add: secrets_removed_def\<close>)
qed

text \<open>
  The paths that start with \<open>*\<close> name members of members: what a caller puts directly into the
  object is written as it is.
\<close>

lemma top_level_kept:
  assumes "pino_ok P" and "P (logger_options level name, child) t c = Some line"
    and "(k, JStr x) \<in> set (lc_bindings c)"
  obtains ms where "ll_bindings line = JObj ms" "(k, JStr x) \<in> set ms"
proof -
  have ms: "ll_bindings line = redact redacted_paths (JObj (lc_bindings c))"
    using assms(1,2) by (auto simp: pino_ok_def logger_options_def split: if_splits)
  have "(k, JStr x) \<in> (\<lambda>m. (fst m, secrets_removed (if fst m = ''req'' then
      remove_path [''headers'', ''cookie''] (remove_path [''headers'', ''authorization''] (snd m)) else snd m))) ` set (lc_bindings c)"
    by (rule image_eqI [OF _ assms(3)]) (simp add: secrets_removed_def)
  then show ?thesis by (intro that [OF trans [OF ms redact_members]]) (simp only: set_map)
qed

text \<open>The entry of the mail worker (\<open>jobs.service.ts\<close>) when a reset mail fails: the token of the reset is in it, in clear.\<close>

definition reset_failed_call :: "string \<Rightarrow> string \<Rightarrow> string \<Rightarrow> string \<Rightarrow> log_call" where
  "reset_failed_call msg jobId email tok = \<lparr>lc_level = ''error'',
     lc_bindings = [(''error'', JStr msg), (''jobId'', JStr jobId), (''email'', JStr email), (''token'', JStr tok)],
     lc_msg = ''Error sending reset password''\<rparr>"

lemma reset_token_logged:
  assumes "pino_ok P"
  shows "\<exists>line ms. P (logger_options None name, child) t (reset_failed_call msg jobId email tok) = Some line
    \<and> ll_bindings line = JObj ms \<and> (''token'', JStr tok) \<in> set ms"
proof -
  have "\<exists>line. P (logger_options None name, child) t (reset_failed_call msg jobId email tok) = Some line"
    using assms by (simp add: pino_ok_def level_on_def logger_options_def level_values_def reset_failed_call_def or_str_def)
  then obtain line where line: "P (logger_options None name, child) t (reset_failed_call msg jobId email tok) = Some line" ..
  show ?thesis
    by (rule top_level_kept [OF assms line, of "''token''" tok]) (use line in \<open>auto simp: reset_failed_call_def\<close>)
qed

section \<open>One entry per request\<close>

definition request_call :: "int \<Rightarrow> int \<Rightarrow> http_view \<Rightarrow> (exn + 'a) \<Rightarrow> log_call option" where
  "request_call start now v outcome = (case outcome of Inl e \<Rightarrow> filter_call e v | Inr _ \<Rightarrow> intercept start now v outcome)"

text \<open>A request leaves exactly one entry, unless it is one of the two files browsers ask for and is not found.\<close>

lemma request_logged:
  "request_call start now v outcome = None \<longleftrightarrow> (\<exists>h. outcome = Inl (HttpExc h) \<and> \<not> he_badRequest h \<and> he_status h = 404
     \<and> nullish (hv_originalUrl v) (hv_url v) \<in> set SKIP_LOG_404_PATHS)"
  by (auto simp: request_call_def intercept_def filter_call_def http_exception_catch_def filter_view_of_def
      shouldSkipLog404_def Let_def split: sum.split exn.split)

text \<open>The message of an unknown error reaches the log and not the answer.\<close>

lemma unknown_error_logged:
  assumes "e = PlainErr m"
  shows "\<exists>c r. filter_call e v = Some c \<and> (''errorMessage'', JStr m) \<in> set (lc_bindings c)
    \<and> snd (http_exception_catch e p False t) = Some (500, r) \<and> ar_message r = ''Internal server error''"
  by (simp add: assms filter_call_def http_exception_catch_def filter_view_of_def filter_bindings_def err_message_def Let_def)

text \<open>The storage gives a request the id and the response header that the middleware of the gateway gives it.\<close>

lemma cls_is_middleware: "cls_id (gq_header q) (gq_uuid q) = requestIdMiddleware q"
  by (simp add: cls_id_def requestIdMiddleware_def)

end
