(* ===== verification/JsonFuel.thy ===== *)
theory JsonFuel
  imports Json
begin

text \<open>
  \<open>json_parse\<close> recurses on a fuel it takes from the length of the text. Here the fuel is shown never to
  decide: more of it changes no result, and a successful parse needs no more than it consumes.
\<close>

lemma parse_more:
  assumes "k \<le> k'"
  shows "(\<forall>s x. parse_val k s = Some x \<longrightarrow> parse_val k' s = Some x)
    \<and> (\<forall>s x. parse_elems k s = Some x \<longrightarrow> parse_elems k' s = Some x)
    \<and> (\<forall>s x. parse_members k s = Some x \<longrightarrow> parse_members k' s = Some x)"
  using assms
proof (induction k arbitrary: k')
  case (Suc k)
  then obtain j where j: "k' = Suc j" and le: "k \<le> j" by (cases k') auto
  note IH = Suc.IH [OF le]
  have "parse_val (Suc k) s = Some x \<longrightarrow> parse_val (Suc j) s = Some x" for s x
    using IH by (auto split: list.splits)
  moreover have "parse_elems (Suc k) s = Some x \<longrightarrow> parse_elems (Suc j) s = Some x" for s x
    using IH by (auto split: list.splits option.splits; force)
  moreover have "parse_members (Suc k) s = Some x \<longrightarrow> parse_members (Suc j) s = Some x" for s x
    using IH by (auto split: list.splits option.splits; force)
  ultimately show ?case unfolding j by blast
qed simp

lemma parse_chars_shorter: "parse_chars s = Some (t, r) \<Longrightarrow> length r < length s"
proof (induction s arbitrary: t rule: parse_chars.induct)
  case (2 c cs)
  then show ?case
    by (fastforce simp: cons_res_def dest!: unicode_escape_length split: if_splits option.splits list.splits)
qed simp

lemmas parse_val_more = parse_more [THEN conjunct1, rule_format]
lemmas parse_elems_more = parse_more [THEN conjunct2, THEN conjunct1, rule_format]
lemmas parse_members_more = parse_more [THEN conjunct2, THEN conjunct2, rule_format]

lemma skip_ws_shorter: "length (skip_ws s) \<le> length s"
  by (simp add: skip_ws_def length_dropWhile_le)

lemma num_body_shorter: "num_body neg s = Some (v, r) \<Longrightarrow> length r < length s"
proof -
  assume a: "num_body neg s = Some (v, r)"
  then have "takeWhile is_digit s \<noteq> []" "r = dropWhile is_digit s"
    by (auto simp: num_body_def Let_def split: if_splits)
  moreover have "length s = length (takeWhile is_digit s) + length (dropWhile is_digit s)"
    by (metis length_append takeWhile_dropWhile_id)
  ultimately show ?thesis by simp
qed

lemma parse_num_shorter: "parse_num s = Some (v, r) \<Longrightarrow> length r < length s"
  by (auto simp: parse_num_def dest!: num_body_shorter split: list.splits if_splits)

lemma parse_lit_shorter: "parse_lit s = Some (v, r) \<Longrightarrow> s \<noteq> [] \<Longrightarrow> length r < length s"
  by (auto simp: parse_lit_def split: if_splits)

text \<open>A successful parse has consumed at least as many characters as it needed fuel.\<close>

definition enough_for :: "nat \<Rightarrow> bool" where
  "enough_for k \<longleftrightarrow>
     (\<forall>s v r. parse_val k s = Some (v, r) \<longrightarrow> length r < length s \<and> parse_val (length s - length r) s = Some (v, r))
   \<and> (\<forall>s v r. parse_elems k s = Some (v, r) \<longrightarrow> length r < length s \<and> parse_elems (length s - length r) s = Some (v, r))
   \<and> (\<forall>s v r. parse_members k s = Some (v, r) \<longrightarrow> length r < length s \<and> parse_members (length s - length r) s = Some (v, r))"

lemma enough_val:
  assumes "enough_for k" and "parse_val (Suc k) s = Some (v, r)"
  shows "length r < length s \<and> parse_val (length s - length r) s = Some (v, r)"
proof -
  obtain c cs where c: "skip_ws s = c # cs" using assms(2) by (cases "skip_ws s") auto
  have s: "Suc (length cs) \<le> length s" using skip_ws_shorter [of s] by (simp add: c)
  have elems: "length r < length t \<and> parse_elems (length t - length r) t = Some (xs, r)" if "parse_elems k t = Some (xs, r)" for t xs
    using that assms(1) unfolding enough_for_def by blast
  have members: "length r < length t \<and> parse_members (length t - length r) t = Some (xs, r)" if "parse_members k t = Some (xs, r)" for t xs
    using that assms(1) unfolding enough_for_def by blast
  have down: "length ds < length cs" if "skip_ws cs = d # ds" for d ds
    using skip_ws_shorter [of cs] by (simp add: that)
  consider (str) t where "c = CHR 0x22" "parse_chars cs = Some (t, r)"
    | (nil) d where "skip_ws cs = d # r"
    | (arr) d ds xs where "skip_ws cs = d # ds" "parse_elems k (d # ds) = Some (xs, r)"
    | (obj) d ds ms where "skip_ws cs = d # ds" "parse_members k (d # ds) = Some (ms, r)"
    | (num) "parse_num (c # cs) = Some (v, r)" | (lit) "parse_lit (c # cs) = Some (v, r)"
    using assms(2) by (simp add: c split: if_splits list.splits) blast+
  then have r: "length r \<le> length cs"
  proof cases
    case str then show ?thesis using parse_chars_shorter by fastforce
  next
    case (nil d) then show ?thesis using down [of d r] by simp
  next
    case (arr d ds xs) then show ?thesis using down [OF arr(1)] elems [OF arr(2)] by simp
  next
    case (obj d ds ms) then show ?thesis using down [OF obj(1)] members [OF obj(2)] by simp
  next
    case num then show ?thesis using parse_num_shorter by fastforce
  next
    case lit then show ?thesis using parse_lit_shorter by fastforce
  qed
  define m where "m = length cs - length r"
  obtain n where n: "length s - length r = Suc n" "m \<le> n"
    using s r unfolding m_def by (cases "length s - length r") auto
  have e: "parse_elems n (d # ds) = Some (xs, r)" if "skip_ws cs = d # ds" "parse_elems k (d # ds) = Some (xs, r)" for d ds xs
    by (rule parse_elems_more [OF _ elems [OF that(2), THEN conjunct2]]) (use down [OF that(1)] n(2) in \<open>simp add: m_def\<close>)
  have b: "parse_members n (d # ds) = Some (xs, r)" if "skip_ws cs = d # ds" "parse_members k (d # ds) = Some (xs, r)" for d ds xs
    by (rule parse_members_more [OF _ members [OF that(2), THEN conjunct2]]) (use down [OF that(1)] n(2) in \<open>simp add: m_def\<close>)
  have "parse_val (Suc n) s = Some (v, r)"
    using assms(2) e b by (auto simp: c split: if_splits list.splits)
  with r s show ?thesis unfolding n(1) by simp
qed


lemma enough_elems:
  assumes "enough_for k" and "parse_elems (Suc k) s = Some (vs, r)"
  shows "length r < length s \<and> parse_elems (length s - length r) s = Some (vs, r)"
proof -
  obtain v t d ds where v: "parse_val k s = Some (v, t)" and d: "skip_ws t = d # ds"
    using assms(2) by (auto split: option.splits list.splits)
  have head: "length t < length s" "parse_val (length s - length t) s = Some (v, t)"
    using assms(1) v unfolding enough_for_def by blast+
  have ds: "length ds < length t" using skip_ws_shorter [of t] by (simp add: d)
  have tail: "length r < length ds \<and> parse_elems (length ds - length r) ds = Some (ws, r)" if "parse_elems k ds = Some (ws, r)" for ws
    using that assms(1) unfolding enough_for_def by blast
  consider (comma) ws where "d = CHR '',''" "parse_elems k ds = Some (ws, r)" "vs = v # ws"
    | (close) "d \<noteq> CHR '',''" "d = CHR '']''" "vs = [v]" "r = ds"
    using assms(2) by (auto simp: v d split: if_splits)
  then show ?thesis
  proof cases
    case comma
    obtain n where n: "length s - length r = Suc n" "length s - length t \<le> n" "length ds - length r \<le> n"
      using head(1) ds tail [OF comma(2)] by (cases "length s - length r") auto
    have "parse_val n s = Some (v, t)" by (rule parse_val_more [OF n(2) head(2)])
    moreover have "parse_elems n ds = Some (ws, r)" by (rule parse_elems_more [OF n(3) tail [OF comma(2), THEN conjunct2]])
    ultimately show ?thesis using n(1) comma head(1) ds tail [OF comma(2)] by (simp add: d)
  next
    case close
    obtain n where n: "length s - length r = Suc n" "length s - length t \<le> n"
      using head(1) ds close by (cases "length s - length r") auto
    have "parse_val n s = Some (v, t)" by (rule parse_val_more [OF n(2) head(2)])
    then show ?thesis using n(1) close head(1) ds by (simp add: d)
  qed
qed

lemma enough_members:
  assumes "enough_for k" and "parse_members (Suc k) s = Some (ms, r)"
  shows "length r < length s \<and> parse_members (length s - length r) s = Some (ms, r)"
proof -
  obtain cs key r0 r1 v t d ds where q: "skip_ws s = CHR 0x22 # cs" "parse_chars cs = Some (key, r0)" "skip_ws r0 = CHR '':'' # r1"
    and v: "parse_val k r1 = Some (v, t)" and d: "skip_ws t = d # ds"
    using assms(2) by (auto split: option.splits list.splits if_splits)
  have head: "length t < length r1" "parse_val (length r1 - length t) r1 = Some (v, t)"
    using assms(1) v unfolding enough_for_def by blast+
  have r1: "length r1 + 2 < length s"
    using skip_ws_shorter [of s] skip_ws_shorter [of r0] parse_chars_shorter [OF q(2)] by (simp add: q)
  have ds: "length ds < length t" using skip_ws_shorter [of t] by (simp add: d)
  have tail: "length r < length ds \<and> parse_members (length ds - length r) ds = Some (ws, r)" if "parse_members k ds = Some (ws, r)" for ws
    using that assms(1) unfolding enough_for_def by blast
  consider (comma) ws where "d = CHR '',''" "parse_members k ds = Some (ws, r)" "ms = (key, v) # ws"
    | (close) "d \<noteq> CHR '',''" "d = CHR ''}''" "ms = [(key, v)]" "r = ds"
    using assms(2) by (auto simp: q v d split: if_splits)
  then show ?thesis
  proof cases
    case comma
    obtain n where n: "length s - length r = Suc n" "length r1 - length t \<le> n" "length ds - length r \<le> n"
      using head(1) ds r1 tail [OF comma(2)] by (cases "length s - length r") auto
    have "parse_val n r1 = Some (v, t)" by (rule parse_val_more [OF n(2) head(2)])
    moreover have "parse_members n ds = Some (ws, r)" by (rule parse_members_more [OF n(3) tail [OF comma(2), THEN conjunct2]])
    ultimately show ?thesis using n(1) comma head(1) ds r1 tail [OF comma(2)] by (simp add: d q)
  next
    case close
    obtain n where n: "length s - length r = Suc n" "length r1 - length t \<le> n"
      using head(1) ds r1 close by (cases "length s - length r") auto
    have "parse_val n r1 = Some (v, t)" by (rule parse_val_more [OF n(2) head(2)])
    then show ?thesis using n(1) close head(1) ds r1 by (simp add: d q)
  qed
qed

lemma enough: "enough_for k"
proof (induction k)
  case (Suc k)
  then show ?case
    unfolding enough_for_def [of "Suc k"] using enough_val enough_elems enough_members by blast
qed (simp add: enough_for_def)

text \<open>
  The fuel of \<open>json_parse\<close> never runs out: a text parses with some fuel and only blanks left exactly
  when \<open>json_parse\<close> accepts it, with the same value.
\<close>

lemma json_parse_complete:
  "json_parse s = Some v \<longleftrightarrow> (\<exists>k r. parse_val k s = Some (v, r) \<and> skip_ws r = [])"
proof
  assume "\<exists>k r. parse_val k s = Some (v, r) \<and> skip_ws r = []"
  then obtain k r where k: "parse_val k s = Some (v, r)" "skip_ws r = []" by blast
  then have "parse_val (length s - length r) s = Some (v, r)"
    using enough [of k] unfolding enough_for_def by blast
  then have "parse_val (Suc (length s)) s = Some (v, r)" by (rule parse_val_more [rotated]) simp
  then show "json_parse s = Some v" using k(2) by (simp add: json_parse_def)
qed (auto simp: json_parse_def simp del: parse_val.simps split: option.splits if_splits intro!: exI [of _ "Suc (length s)"])

end
