(* ===== verification/PermissionCodes.thy ===== *)
theory PermissionCodes
  imports Seeds NotiRoutes
begin

text \<open>
  The two vocabularies of permissions: \<open>packages/common/src/permission/permission.enum.ts\<close>, which the
  routes use, and \<open>decorators/permission.decorator.ts\<close> with its table of roles, which nothing reads.
  They are compared with each other, with what the routes ask for and with what the seeds create.
\<close>

section \<open>\<open>permission.decorator.ts\<close>\<close>

datatype Permission =
    USER_READ | USER_UPDATE | USER_DELETE | USER_CREATE
  | EVENT_CREATE | EVENT_READ | EVENT_UPDATE | EVENT_PUBLISH | EVENT_DELETE
  | TICKET_CREATE | TICKET_UPDATE | TICKET_TYPE_CREATE | TICKET_TYPE_UPDATE | TICKET_TYPE_DELETE
  | SEAT_CREATE | SEAT_UPDATE | SEAT_DELETE
  | ORDER_READ | ORDER_REFUND | CHECKIN_SCAN | USER_BAN

fun permission_str :: "Permission \<Rightarrow> string" where
  "permission_str USER_READ = ''user:read''"
| "permission_str USER_UPDATE = ''user:update''"
| "permission_str USER_DELETE = ''user:delete''"
| "permission_str USER_CREATE = ''user:create''"
| "permission_str EVENT_CREATE = ''event:create''"
| "permission_str EVENT_READ = ''event:read''"
| "permission_str EVENT_UPDATE = ''event:update''"
| "permission_str EVENT_PUBLISH = ''event:publish''"
| "permission_str EVENT_DELETE = ''event:delete''"
| "permission_str TICKET_CREATE = ''ticket:create''"
| "permission_str TICKET_UPDATE = ''ticket:update''"
| "permission_str TICKET_TYPE_CREATE = ''ticket-type:create''"
| "permission_str TICKET_TYPE_UPDATE = ''ticket-type:update''"
| "permission_str TICKET_TYPE_DELETE = ''ticket-type:delete''"
| "permission_str SEAT_CREATE = ''seat:create''"
| "permission_str SEAT_UPDATE = ''seat:update''"
| "permission_str SEAT_DELETE = ''seat:delete''"
| "permission_str ORDER_READ = ''order:read''"
| "permission_str ORDER_REFUND = ''order:refund''"
| "permission_str CHECKIN_SCAN = ''checkin:scan''"
| "permission_str USER_BAN = ''user:ban''"

text \<open>\<open>Object.values(Permission)\<close> is the enumeration of the type, in the order of the source.\<close>

instantiation Permission :: enum
begin

definition enum_Permission :: "Permission list" where
  "enum_Permission = [USER_READ, USER_UPDATE, USER_DELETE, USER_CREATE, EVENT_CREATE, EVENT_READ, EVENT_UPDATE,
     EVENT_PUBLISH, EVENT_DELETE, TICKET_CREATE, TICKET_UPDATE, TICKET_TYPE_CREATE, TICKET_TYPE_UPDATE,
     TICKET_TYPE_DELETE, SEAT_CREATE, SEAT_UPDATE, SEAT_DELETE, ORDER_READ, ORDER_REFUND, CHECKIN_SCAN, USER_BAN]"

definition enum_all_Permission :: "(Permission \<Rightarrow> bool) \<Rightarrow> bool" where
  "enum_all_Permission P \<longleftrightarrow> list_all P enum_class.enum"

definition enum_ex_Permission :: "(Permission \<Rightarrow> bool) \<Rightarrow> bool" where
  "enum_ex_Permission P \<longleftrightarrow> list_ex P enum_class.enum"

instance
proof
  show all: "UNIV = set (enum_class.enum :: Permission list)"
  proof (rule set_eqI)
    show "x \<in> UNIV \<longleftrightarrow> x \<in> set enum_class.enum" for x :: Permission
      by (cases x) (simp_all add: enum_Permission_def)
  qed
  show "distinct (enum_class.enum :: Permission list)" by (simp add: enum_Permission_def)
  show "enum_class.enum_all P = Ball UNIV P" for P :: "Permission \<Rightarrow> bool"
    unfolding enum_all_Permission_def list_all_iff all ..
  show "enum_class.enum_ex P = Bex UNIV P" for P :: "Permission \<Rightarrow> bool"
    unfolding enum_ex_Permission_def list_ex_iff all ..
qed

end

definition ROLE_PERMISSIONS :: "(string \<times> Permission list) list" where
  "ROLE_PERMISSIONS =
    [(''ADMIN'', enum_class.enum),
     (''ORGANIZER'', [EVENT_CREATE, EVENT_READ, EVENT_UPDATE, EVENT_PUBLISH, TICKET_CREATE, TICKET_UPDATE, ORDER_READ,
        CHECKIN_SCAN, USER_READ, USER_UPDATE, USER_DELETE, TICKET_TYPE_CREATE, TICKET_TYPE_UPDATE, TICKET_TYPE_DELETE,
        SEAT_CREATE]),
     (''USER'', [USER_READ, USER_UPDATE])]"

section \<open>\<open>permission.enum.ts\<close>\<close>

datatype PermissionCode =
    PC_USER_READ | PC_USER_CREATE | PC_USER_UPDATE | PC_USER_DELETE
  | PC_ORDER_READ | PC_ORDER_CREATE | PC_ORDER_REFUND
  | PC_PRODUCT_READ | PC_PRODUCT_CREATE | PC_PRODUCT_UPDATE | PC_PRODUCT_DELETE
  | PC_NOTIFICATIONS_READ | PC_ADMIN_MANAGE_USERS | PC_ADMIN_MANAGE_ROLES

fun permission_code_str :: "PermissionCode \<Rightarrow> string" where
  "permission_code_str PC_USER_READ = ''user:read''"
| "permission_code_str PC_USER_CREATE = ''user:create''"
| "permission_code_str PC_USER_UPDATE = ''user:update''"
| "permission_code_str PC_USER_DELETE = ''user:delete''"
| "permission_code_str PC_ORDER_READ = ''order:read''"
| "permission_code_str PC_ORDER_CREATE = ''order:create''"
| "permission_code_str PC_ORDER_REFUND = ''order:refund''"
| "permission_code_str PC_PRODUCT_READ = ''product:read''"
| "permission_code_str PC_PRODUCT_CREATE = ''product:create''"
| "permission_code_str PC_PRODUCT_UPDATE = ''product:update''"
| "permission_code_str PC_PRODUCT_DELETE = ''product:delete''"
| "permission_code_str PC_NOTIFICATIONS_READ = ''notifications:read''"
| "permission_code_str PC_ADMIN_MANAGE_USERS = ''admin:manage-users''"
| "permission_code_str PC_ADMIN_MANAGE_ROLES = ''admin:manage-roles''"

section \<open>The vocabularies compared\<close>

lemma permission_strings_distinct: "distinct (map permission_str enum_class.enum)"
  by (simp add: enum_Permission_def)

lemma permission_str_inject: "permission_str p = permission_str q \<longleftrightarrow> p = q"
  using permission_strings_distinct inj_onD [of permission_str "set enum_class.enum" p q]
  by (auto simp: distinct_map enum_UNIV)

lemma permission_code_str_inject: "permission_code_str p = permission_code_str q \<longleftrightarrow> p = q"
  by (cases p; cases q) simp_all

text \<open>The table of roles is a chain, and the administrator has everything.\<close>

lemma role_table_chain:
  "set (the (map_of ROLE_PERMISSIONS ''USER'')) \<subseteq> set (the (map_of ROLE_PERMISSIONS ''ORGANIZER''))"
  "set (the (map_of ROLE_PERMISSIONS ''ADMIN'')) = UNIV"
  by (simp_all add: ROLE_PERMISSIONS_def enum_UNIV)

text \<open>
  The codes the routes ask for are of the enumeration of \<open>permission.enum.ts\<close> and are in no role of the
  table: a guard that used the table would refuse everybody.
\<close>

lemma routes_outside_table:
  assumes "c \<in> {ADMIN_MANAGE_ROLES, NOTIFICATIONS_READ}"
  shows "c \<in> range permission_code_str" and "c \<notin> range permission_str"
proof -
  have "ADMIN_MANAGE_ROLES = permission_code_str PC_ADMIN_MANAGE_ROLES" "NOTIFICATIONS_READ = permission_code_str PC_NOTIFICATIONS_READ"
    by (simp_all add: ADMIN_MANAGE_ROLES_def NOTIFICATIONS_READ_def)
  then show "c \<in> range permission_code_str" using assms by (metis insertE rangeI singletonD)
  have "permission_str p \<noteq> ''admin:manage-roles'' \<and> permission_str p \<noteq> ''notifications:read''" for p
    by (cases p) simp_all
  then show "c \<notin> range permission_str"
    using assms unfolding ADMIN_MANAGE_ROLES_def NOTIFICATIONS_READ_def by blast
qed

text \<open>
  The seeds create two codes: one that no enumeration knows, and not the one that \<open>POST /roles\<close> asks
  for, so that no seeded role gives it to anybody.
\<close>

lemma seeded_codes:
  "map pe_code (db_permissions (as_db (snd (seed_main demo_env 5 fresh_state)))) = [''notifications:read'', ''notifications:write'']"
  by code_simp

lemma write_code_unknown: "''notifications:write'' \<notin> range permission_code_str \<union> range permission_str"
proof -
  have "permission_code_str p \<noteq> ''notifications:write''" for p by (cases p) simp_all
  moreover have "permission_str p \<noteq> ''notifications:write''" for p by (cases p) simp_all
  ultimately show ?thesis by (auto simp: image_iff) metis+
qed

end
