(* ===== verification/Threads.thy ===== *)
theory Threads
  imports Prelude
begin

text \<open>
  Requests that overlap. A \<open>prog\<close> of \<open>Prelude\<close> runs at once; a \<open>thread\<close> is the same program cut at its
  \<open>await\<close>s, each step a \<open>prog\<close> of its own that sees whatever the others did since the last one.
  \<open>run\<close> takes the steps of one thread with nobody in between, \<open>interleave\<close> those of many in the order of a
  schedule. What every step keeps, every interleaving keeps (\<open>interleave_keeps\<close>).
\<close>

section \<open>Threads\<close>

datatype ('s, 'e, 'a) thread = Done "'e + 'a" | Step "'s \<Rightarrow> ('s, 'e, 'a) thread \<times> 's"

definition atomic :: "('s, 'e, 'a) prog \<Rightarrow> ('s, 'e, 'a) thread" where
  "atomic m = Step (\<lambda>s. case m s of (r, s') \<Rightarrow> (Done r, s'))"

primrec tbind :: "('s, 'e, 'a) thread \<Rightarrow> ('a \<Rightarrow> ('s, 'e, 'b) thread) \<Rightarrow> ('s, 'e, 'b) thread" where
  "tbind (Done r) k = (case r of Inl e \<Rightarrow> Done (Inl e) | Inr x \<Rightarrow> k x)"
| "tbind (Step f) k = Step (map_prod (\<lambda>t. tbind t k) id \<circ> f)"

primrec tcatch :: "('s, 'e, 'a) thread \<Rightarrow> ('e \<Rightarrow> ('s, 'e, 'a) thread) \<Rightarrow> ('s, 'e, 'a) thread" where
  "tcatch (Done r) h = (case r of Inl e \<Rightarrow> h e | Inr x \<Rightarrow> Done (Inr x))"
| "tcatch (Step f) h = Step (map_prod (\<lambda>t. tcatch t h) id \<circ> f)"

primrec run :: "('s, 'e, 'a) thread \<Rightarrow> ('s, 'e, 'a) prog" where
  "run (Done r) = lift r"
| "run (Step f) = (\<lambda>s. case (map_prod run id \<circ> f) s of (g, s') \<Rightarrow> g s')"

section \<open>A thread alone is its program\<close>

lemma run_Step: "run (Step f) s = run (fst (f s)) (snd (f s))"
  by (cases "f s") simp

declare run.simps(2) [simp del]

lemma run_atomic [simp]: "run (atomic m) = m"
  by (rule ext) (simp add: atomic_def run_Step split: prod.split)

lemma run_tbind [simp]: "run (tbind t k) = bind (run t) (\<lambda>x. run (k x))"
proof (induction t)
  case (Done r)
  then show ?case by (cases r) (simp_all add: fun_eq_iff bind_run)
next
  case (Step f)
  have "run (tbind (fst (f s)) k) = bind (run (fst (f s))) (\<lambda>x. run (k x))" for s
    by (rule Step.IH [of "f s"]) (simp_all add: fsts.simps prod_set_defs)
  then show ?case
    by (simp add: fun_eq_iff bind_run run_Step)
qed

lemma run_tcatch [simp]: "run (tcatch t h) = catchp (run t) (\<lambda>e. run (h e))"
proof (induction t)
  case (Done r)
  then show ?case by (cases r) (simp_all add: fun_eq_iff catchp_run)
next
  case (Step f)
  have "run (tcatch (fst (f s)) h) = catchp (run (fst (f s))) (\<lambda>e. run (h e))" for s
    by (rule Step.IH [of "f s"]) (simp_all add: fsts.simps prod_set_defs)
  then show ?case
    by (simp add: fun_eq_iff catchp_run run_Step)
qed

section \<open>Many threads\<close>

definition advance :: "('s, 'e, 'a) thread \<Rightarrow> 's \<Rightarrow> ('s, 'e, 'a) thread \<times> 's" where
  "advance t s = (case t of Done r \<Rightarrow> (Done r, s) | Step f \<Rightarrow> f s)"

definition turn :: "nat \<Rightarrow> ('s, 'e, 'a) thread list \<times> 's \<Rightarrow> ('s, 'e, 'a) thread list \<times> 's" where
  "turn i = (\<lambda>(ts, s). if i < length ts then (case advance (ts ! i) s of (t, s') \<Rightarrow> (ts[i := t], s')) else (ts, s))"

definition interleave :: "nat list \<Rightarrow> ('s, 'e, 'a) thread list \<Rightarrow> 's \<Rightarrow> ('s, 'e, 'a) thread list \<times> 's" where
  "interleave schedule ts s = fold turn schedule (ts, s)"

lemma interleave_Nil [simp]: "interleave [] ts s = (ts, s)"
  by (simp add: interleave_def)

lemma interleave_append: "interleave (xs @ ys) ts s = (case interleave xs ts s of (us, s') \<Rightarrow> interleave ys us s')"
  by (simp add: interleave_def split: prod.split)

section \<open>What every step keeps\<close>

inductive thread_keeps :: "('s \<Rightarrow> bool) \<Rightarrow> ('s, 'e, 'a) thread \<Rightarrow> bool" for I where
  Done: "thread_keeps I (Done r)"
| Step: "(\<And>s. I s \<Longrightarrow> thread_keeps I (fst (f s)) \<and> I (snd (f s))) \<Longrightarrow> thread_keeps I (Step f)"

inductive_cases thread_keeps_StepE: "thread_keeps I (Step f)"

named_theorems thread_intros \<open>which threads keep an invariant\<close>

lemma thread_keeps_atomic [thread_intros]: "preserves I m \<Longrightarrow> thread_keeps I (atomic m)"
  unfolding atomic_def
  by (rule thread_keeps.Step) (auto dest: preservesD intro: thread_keeps.Done split: prod.split)

lemma thread_keeps_Done [thread_intros]: "thread_keeps I (Done r)"
  by (rule thread_keeps.Done)

lemma thread_keeps_tbind [thread_intros]:
  "thread_keeps I t \<Longrightarrow> (\<And>x. thread_keeps I (k x)) \<Longrightarrow> thread_keeps I (tbind t k)"
proof (induction rule: thread_keeps.induct)
  case (Done r)
  then show ?case by (cases r) (auto intro: thread_keeps.Done)
next
  case (Step f)
  then show ?case by (auto intro: thread_keeps.Step)
qed

lemma thread_keeps_tcatch [thread_intros]:
  "thread_keeps I t \<Longrightarrow> (\<And>e. thread_keeps I (h e)) \<Longrightarrow> thread_keeps I (tcatch t h)"
proof (induction rule: thread_keeps.induct)
  case (Done r)
  then show ?case by (cases r) (auto intro: thread_keeps.Done)
next
  case (Step f)
  then show ?case by (auto intro: thread_keeps.Step)
qed

lemma advance_keeps: "thread_keeps I t \<Longrightarrow> I s \<Longrightarrow> thread_keeps I (fst (advance t s)) \<and> I (snd (advance t s))"
  by (cases t) (auto simp: advance_def intro: thread_keeps.Done elim: thread_keeps_StepE)

lemma turn_keeps:
  "list_all (thread_keeps I) ts \<Longrightarrow> I s \<Longrightarrow> list_all (thread_keeps I) (fst (turn i (ts, s))) \<and> I (snd (turn i (ts, s)))"
  using advance_keeps [of I "ts ! i" s]
  by (auto simp: turn_def list_all_length nth_list_update split: prod.split)

lemma interleave_keeps:
  assumes "list_all (thread_keeps I) ts" and "I s"
  shows "I (snd (interleave schedule ts s))"
proof -
  have "list_all (thread_keeps I) (fst (interleave schedule ts s)) \<and> I (snd (interleave schedule ts s))"
  proof (induction schedule rule: rev_induct)
    case (snoc i xs)
    then show ?case
      using turn_keeps [of I "fst (interleave xs ts s)" "snd (interleave xs ts s)" i] by (simp add: interleave_def)
  qed (use assms in simp)
  then show ?thesis ..
qed

section \<open>Running to the end within an interleaving\<close>

lemma run_by_turns:
  assumes "i < length ts" and "ts ! i = t"
  shows "\<exists>n. interleave (replicate n i) ts s = (ts[i := Done (fst (run t s))], snd (run t s))"
  using assms
proof (induction t arbitrary: ts s)
  case (Done r)
  then show ?case by (intro exI [of _ 0]) (simp, metis list_update_id)
next
  case (Step f)
  obtain n where "interleave (replicate n i) (ts[i := fst (f s)]) (snd (f s)) =
      ((ts[i := fst (f s)])[i := Done (fst (run (fst (f s)) (snd (f s))))], snd (run (fst (f s)) (snd (f s))))"
    using Step.IH [of "f s" "fst (f s)" "ts[i := fst (f s)]" "snd (f s)"] Step.prems by (auto simp: fsts.simps)
  then have "interleave (replicate (Suc n) i) ts s = (ts[i := Done (fst (run (Step f) s))], snd (run (Step f) s))"
    using Step.prems by (simp add: interleave_def turn_def advance_def run_Step split_def)
  then show ?case by blast
qed

end
