(* ===== verification/SessionRace.thy ===== *)
theory SessionRace
  imports Auth Threads
begin

text \<open>
  Sessions under requests that overlap. The handlers of \<open>auth.service.ts\<close> that touch the table of
  refresh tokens are cut at the queries they await: a step is one query, with what the code computes
  from its result before the next one. Alone, the steps are the handlers of \<open>Auth\<close>; in between, others
  may act, which is where a refresh can outlive a password reset.
\<close>

section \<open>The handlers in steps\<close>

definition save_thread ::
  "auth_env \<Rightarrow> int \<Rightarrow> string \<Rightarrow> string \<Rightarrow> device \<Rightarrow> string option \<Rightarrow> string option \<Rightarrow> (auth_state, exn, unit) thread" where
  "save_thread E t userId refreshTokenNew dataDevice deviceId refreshTokenOld =
     (let expiresAt = t + refreshTtlSeconds E * 1000 in
      tbind (atomic (bind (hashPassword E refreshTokenNew) (\<lambda>tokenHashNew.
          bind (read_db (\<lambda>db. find_first (open_session (Some userId) deviceId) (db_tokens db))) (\<lambda>existing.
            ret (tokenHashNew, existing)))))
        (\<lambda>(tokenHashNew, existing). case existing of
           Some x \<Rightarrow>
             atomic (andthen
               (if truthy refreshTokenOld then
                  bind (verifyPassword E (rt_tokenHash x) refreshTokenOld) (\<lambda>valid.
                    throw_if (\<not> valid) invalid_refresh)
                else ret ())
               (token_set_hash (rt_id x) tokenHashNew expiresAt))
         | None \<Rightarrow>
             (case deviceId of
                None \<Rightarrow> Done (Inl (PlainErr ''Argument `deviceId` is missing.''))
              | Some dev \<Rightarrow> atomic (bind (draw E) (\<lambda>uuid. token_create
                  \<lparr>rt_id = uuid, rt_userId = userId, rt_tokenHash = tokenHashNew, rt_revokedAt = None,
                   rt_expiresAt = expiresAt, rt_deviceId = dev, rt_deviceName = Some (dv_name dataDevice),
                   rt_ipAddress = dv_ip dataDevice, rt_userAgent = dv_userAgent dataDevice\<rparr>)))))"

definition issue_thread ::
  "auth_env \<Rightarrow> int \<Rightarrow> user_row \<Rightarrow> device \<Rightarrow> string option \<Rightarrow> string option \<Rightarrow> (auth_state, exn, login_response) thread" where
  "issue_thread E t user dataDevice deviceId refreshTokenOld =
     tbind (save_thread E t (u_id user) (refresh_token_for E t user) dataDevice deviceId refreshTokenOld) (\<lambda>_.
       atomic (andthen (cookie ''refreshToken'' (Some (refresh_token_for E t user))
            (Some (number_or (ae_refreshExpiresIn E) (60 * 60 * 24 * 30) * 1000)))
        (andthen (cookie ''deviceId'' deviceId None)
          (ret \<lparr>lr_id = u_id user, lr_email = u_email user, lr_permVersion = u_permVersion user,
                lr_access_token = access_token_for E t user\<rparr>))))"

definition refresh_lookup :: "auth_env \<Rightarrow> int \<Rightarrow> string option \<Rightarrow> string option \<Rightarrow> user_row auth" where
  "refresh_lookup E t refreshTokenOld deviceId =
     bind (lift (jwt_verify_cookie E t refreshTokenOld)) (\<lambda>decoded.
       findByRefreshToken E t (cl_sub decoded) (cl_permVersion decoded) refreshTokenOld deviceId)"

definition refresh_failed :: "exn \<Rightarrow> (auth_state, exn, login_response) thread" where
  "refresh_failed e = atomic (andthen (clearCookie ''refreshToken'') (andthen (clearCookie ''deviceId'')
     (throw (service_exn AUTH_REFRESH_TOKEN_INVALID 401 (nullish (err_message e) ''Invalid refresh token'')))))"

definition refresh_thread ::
  "auth_env \<Rightarrow> int \<Rightarrow> string option \<Rightarrow> string option \<Rightarrow> auth_request \<Rightarrow> (auth_state, exn, login_response) thread" where
  "refresh_thread E t refreshTokenOld deviceId req =
     tcatch
       (tbind (atomic (refresh_lookup E t refreshTokenOld deviceId)) (\<lambda>user.
          issue_thread E t user (getDeviceData E req) deviceId refreshTokenOld))
       refresh_failed"

definition login_thread :: "auth_env \<Rightarrow> int \<Rightarrow> string \<Rightarrow> auth_request \<Rightarrow> (auth_state, exn, login_response) thread" where
  "login_thread E t email req =
     tcatch
      (tbind (atomic (bind (draw E) (\<lambda>deviceId. bind (checkActiveEmail email) (\<lambda>user. ret (deviceId, user)))))
        (\<lambda>(deviceId, user). issue_thread E t user (getDeviceData E req) (Some deviceId) None))
      (\<lambda>e. Done (Inl (if is_service_error e then e
           else service_exn AUTH_INVALID_CREDENTIALS 401 (nullish (err_message e) ''Invalid email or password''))))"

definition logout_thread :: "auth_env \<Rightarrow> int \<Rightarrow> string option \<Rightarrow> string option \<Rightarrow> string option \<Rightarrow> (auth_state, exn, string) thread" where
  "logout_thread E t deviceId user_id refreshToken =
     tbind (atomic (bind (read_db (\<lambda>db. find_first (open_session user_id deviceId) (db_tokens db))) (\<lambda>session.
         (case session of None \<Rightarrow> ret None
          | Some x \<Rightarrow> bind (verifyPassword E (rt_tokenHash x) refreshToken) (\<lambda>valid. ret (if valid then Some x else None))))))
       (\<lambda>found. tbind (case found of None \<Rightarrow> Done (Inr 0) | Some x \<Rightarrow> atomic (tokens_revoke t (\<lambda>r. rt_id r = rt_id x)))
       (\<lambda>_. atomic (andthen (clearCookie ''refreshToken'') (andthen (clearCookie ''deviceId'') (ret ''logout success'')))))"

definition logout_all_thread :: "int \<Rightarrow> string option \<Rightarrow> (auth_state, exn, string) thread" where
  "logout_all_thread t user_id =
     tbind (atomic (logoutAllDevices t user_id)) (\<lambda>_.
       atomic (andthen (clearCookie ''refreshToken'') (andthen (clearCookie ''deviceId'') (ret ''logout success''))))"

definition reset_thread ::
  "auth_env \<Rightarrow> int \<Rightarrow> string option \<Rightarrow> string option \<Rightarrow> string \<Rightarrow> (auth_state, exn, string) thread" where
  "reset_thread E t email code password =
     tcatch
      (tbind (atomic (findOneByEmail email)) (\<lambda>user.
        (case user of None \<Rightarrow> Done (Inl (bad_request ''Bad request''))
         | Some u \<Rightarrow>
            tbind (atomic (bind (read_db (\<lambda>db. find_first (\<lambda>r. pw_userId r = u_id u \<and> pw_used r) (db_resets db)))
               (\<lambda>reset. (case reset of None \<Rightarrow> throw (bad_request ''The code has not been verified'')
                | Some r \<Rightarrow> bind (verifyPassword E (pw_tokenHash r) code) (\<lambda>verify.
                    if \<not> verify then throw (bad_request ''Invalid code'') else ret r)))))
           (\<lambda>r. tbind (atomic (bind (hashPassword E password) (\<lambda>passwordHash.
               user_update (u_id u) (\<lambda>u. u\<lparr>u_passwordHash := passwordHash, u_updatedAt := t\<rparr>))))
           (\<lambda>_. tbind (atomic (write_db (\<lambda>db. db\<lparr>db_resets := delete_where (\<lambda>x. pw_id x = pw_id r) (db_resets db)\<rparr>)))
           (\<lambda>_. tbind (atomic (logoutAllDevices t (Some (u_id u)))) (\<lambda>_. Done (Inr ''Password reset success''))))))))
      (\<lambda>e. Done (Inl (if is_service_error e then e
           else bad_request (nullish (err_message e) ''Error resetting password''))))"

section \<open>Any number of requests\<close>

datatype session_request =
    Refresh "string option" "string option" auth_request
  | Login string auth_request
  | Logout "string option" "string option" "string option"
  | LogoutAll "string option"
  | ResetPassword "string option" "string option" string

datatype session_reply = Tokens login_response | Message string

definition tmap :: "('a \<Rightarrow> 'b) \<Rightarrow> ('s, 'e, 'a) thread \<Rightarrow> ('s, 'e, 'b) thread" where
  "tmap f t = tbind t (\<lambda>x. Done (Inr (f x)))"

fun session_thread :: "auth_env \<Rightarrow> int \<times> session_request \<Rightarrow> (auth_state, exn, session_reply) thread" where
  "session_thread E (t, Refresh tok d req) = tmap Tokens (refresh_thread E t tok d req)"
| "session_thread E (t, Login email req) = tmap Tokens (login_thread E t email req)"
| "session_thread E (t, Logout d u tok) = tmap Message (logout_thread E t d u tok)"
| "session_thread E (t, LogoutAll u) = tmap Message (logout_all_thread t u)"
| "session_thread E (t, ResetPassword email code password) = tmap Message (reset_thread E t email code password)"

section \<open>Alone, the steps are the handlers\<close>

lemma run_save: "run (save_thread E t i new dv d old) = saveRefreshToken E t i new dv d old"
  by (rule ext) (auto simp: save_thread_def saveRefreshToken_def Let_def bind_run simp del: find_first_None_iff split: option.split)

lemma run_issue: "run (issue_thread E t u dv d old) = issueTokens E t u dv d old"
  by (simp add: issue_thread_def issueTokens_def Let_def run_save andthen_def)

lemma run_refresh: "run (refresh_thread E t tok d req) = auth_refresh E t tok d req"
  by (rule ext) (simp add: refresh_thread_def auth_refresh_def refresh_failed_def refresh_lookup_def run_issue catchp_run bind_run
      split: prod.split sum.split)

lemma run_login: "run (login_thread E t email req) = login E t email req"
  by (rule ext) (auto simp: login_thread_def login_def run_issue catchp_run bind_run split: prod.split sum.split)

lemma run_logout: "run (logout_thread E t d u tok) = auth_logoutDevice E t d u tok"
proof (rule ext)
  fix s
  show "run (logout_thread E t d u tok) s = auth_logoutDevice E t d u tok s"
  proof (cases "find_first (open_session u d) (db_tokens (as_db s))")
    case None
    then show ?thesis
      by (simp add: logout_thread_def auth_logoutDevice_def users_logoutDevice_def andthen_run bind_run del: find_first_None_iff)
  next
    case (Some x)
    then show ?thesis
      by (cases tok)
        (simp_all add: logout_thread_def auth_logoutDevice_def users_logoutDevice_def andthen_run bind_run verifyPassword_def)
  qed
qed

lemma run_logout_all: "run (logout_all_thread t u) = logoutAll t u"
  by (simp add: logout_all_thread_def logoutAll_def andthen_def)

lemma run_reset: "run (reset_thread E t email code password) = forgotPasswordReset E t email code password"
proof (rule ext)
  fix s
  show "run (reset_thread E t email code password) s = forgotPasswordReset E t email code password s"
  proof (cases "find_first (\<lambda>u. where_eq email (u_email u)) (db_users (as_db s))")
    case None
    then show ?thesis
      by (simp add: reset_thread_def forgotPasswordReset_def findOneByEmail_def catchp_run bind_run del: find_first_None_iff)
  next
    case (Some u)
    note u = this
    show ?thesis
    proof (cases "find_first (\<lambda>r. pw_userId r = u_id u \<and> pw_used r) (db_resets (as_db s))")
      case None
      with u show ?thesis
        by (simp add: reset_thread_def forgotPasswordReset_def users_resetPassword_def findOneByEmail_def catchp_run bind_run
            andthen_run del: find_first_None_iff)
    next
      case (Some r)
      with u show ?thesis
        by (cases code)
          (simp_all add: reset_thread_def forgotPasswordReset_def users_resetPassword_def findOneByEmail_def catchp_run bind_run
            andthen_run verifyPassword_def user_update_def tokens_revoke_run logoutAllDevices_def)
    qed
  qed
qed

section \<open>A revoked session stays revoked\<close>

definition revoked :: "string \<Rightarrow> auth_state \<Rightarrow> bool" where
  "revoked i s \<longleftrightarrow> state_ok s \<and> (\<exists>r\<in>set (db_tokens (as_db s)). rt_id r = i \<and> rt_revokedAt r \<noteq> None)"

named_theorems revoked_ok \<open>programs that reopen no revoked session\<close>

lemma revoked_same_tokens:
  assumes "keeps m" and "\<And>s. db_tokens (as_db (snd (m s))) = db_tokens (as_db s)"
  shows "preserves (revoked i) m"
  using assms by (auto simp: preserves_def revoked_def)

lemma revoked_read [revoked_ok]: "preserves (revoked i) (read_db f)"
  by (rule revoked_same_tokens [OF keeps_read]) simp

lemma revoked_effect [revoked_ok]: "preserves (revoked i) (cookie n v m)" "preserves (revoked i) (clearCookie n)"
  by (rule revoked_same_tokens; simp add: cookie_def clearCookie_def keeps_effect)+

lemma revoked_draw [revoked_ok]: "preserves (revoked i) (draw E)"
  by (rule revoked_same_tokens [OF keeps_draw]) simp

lemma revoked_hash [revoked_ok]: "preserves (revoked i) (hashPassword E p)"
  by (rule revoked_same_tokens [OF keeps_hash]) simp

lemma revoked_verify [revoked_ok]: "preserves (revoked i) (verifyPassword E h p)"
  by (rule revoked_same_tokens [OF keeps_verify]) (cases p; simp add: verifyPassword_def)

lemma revoked_user_update [revoked_ok]:
  assumes "\<And>u. u_id (f u) = u_id u" and "\<And>u. u_email (f u) = u_email u"
  shows "preserves (revoked i) (user_update uid f)"
  by (rule revoked_same_tokens [OF keeps_user_update [OF assms]]) (simp add: user_update_def bind_run)

lemma revoked_resets [revoked_ok]:
  "preserves (revoked i) (write_db (\<lambda>db. db\<lparr>db_resets := delete_where P (db_resets db)\<rparr>))"
  by (rule revoked_same_tokens [OF keeps_write]) (simp_all add: db_ok_resets_delete)

lemma revoked_token_create [revoked_ok]: "preserves (revoked i) (token_create row)"
  using keeps_token_create [of row] unfolding preserves_def revoked_def
  by (auto simp: token_create_def bind_run)

lemma revoked_update_where:
  assumes "\<exists>r\<in>set ts. rt_id r = i \<and> rt_revokedAt r \<noteq> None" and "\<And>r. rt_id (f r) = rt_id r"
    and "\<And>r. rt_revokedAt r \<noteq> None \<Longrightarrow> rt_revokedAt (f r) \<noteq> None"
  shows "\<exists>r\<in>set (update_where P f ts). rt_id r = i \<and> rt_revokedAt r \<noteq> None"
proof -
  from assms(1) obtain r where r: "r \<in> set ts" "rt_id r = i" "rt_revokedAt r \<noteq> None" by blast
  show ?thesis
  proof (rule bexI)
    show "rt_id (if P r then f r else r) = i \<and> rt_revokedAt (if P r then f r else r) \<noteq> None"
      using r(2,3) assms(2,3) by presburger
    show "(if P r then f r else r) \<in> set (update_where P f ts)"
      using r(1) by (auto simp: update_where_def)
  qed
qed

lemma revoked_token_set_hash [revoked_ok]: "preserves (revoked i) (token_set_hash tid h x)"
proof (rule preservesI)
  fix s assume a: "revoked i s"
  have "\<exists>r\<in>set (db_tokens (as_db (snd (token_set_hash tid h x s)))). rt_id r = i \<and> rt_revokedAt r \<noteq> None"
    using a unfolding revoked_def
    by (simp add: token_set_hash_def bind_run revoked_update_where del: not_None_eq)
  with a show "revoked i (snd (token_set_hash tid h x s))"
    using preservesD [OF keeps_token_set_hash [of tid h x]] unfolding revoked_def by blast
qed

lemma revoked_revoke [revoked_ok]: "preserves (revoked i) (tokens_revoke t P)"
proof (rule preservesI)
  fix s assume a: "revoked i s"
  have "\<exists>r\<in>set (db_tokens (as_db (snd (tokens_revoke t P s)))). rt_id r = i \<and> rt_revokedAt r \<noteq> None"
    using a unfolding revoked_def by (simp add: tokens_revoke_run revoked_update_where del: not_None_eq)
  with a show "revoked i (snd (tokens_revoke t P s))"
    using preservesD [OF keeps_revoke [of t P]] unfolding revoked_def by blast
qed

lemmas revoked_steps = thread_intros preserves_intros revoked_ok preserves_ret preserves_throw preserves_lift preserves_throw_if

lemma save_thread_keeps: "thread_keeps (revoked i) (save_thread E t u new dv d old)"
  unfolding save_thread_def Let_def
  by (intro revoked_steps) (auto intro!: revoked_steps split: option.split prod.split)

lemma issue_thread_keeps [thread_intros]: "thread_keeps (revoked i) (issue_thread E t u dv d old)"
  unfolding issue_thread_def by (intro revoked_steps save_thread_keeps)

lemma refresh_thread_keeps: "thread_keeps (revoked i) (refresh_thread E t tok d req)"
  unfolding refresh_thread_def refresh_failed_def refresh_lookup_def findByRefreshToken_def
  by (intro revoked_steps issue_thread_keeps) (auto intro!: revoked_steps split: option.split)

lemma login_thread_keeps: "thread_keeps (revoked i) (login_thread E t email req)"
  unfolding login_thread_def checkActiveEmail_def findOneByEmail_def
  by (intro revoked_steps issue_thread_keeps) (auto intro!: revoked_steps issue_thread_keeps split: option.split prod.split)

lemma logout_thread_keeps: "thread_keeps (revoked i) (logout_thread E t d u tok)"
  unfolding logout_thread_def
  by (intro revoked_steps) (auto intro!: revoked_steps split: option.split)

lemma logout_all_thread_keeps: "thread_keeps (revoked i) (logout_all_thread t u)"
  unfolding logout_all_thread_def logoutAllDevices_def by (intro revoked_steps)

lemma reset_thread_keeps: "thread_keeps (revoked i) (reset_thread E t email code password)"
  unfolding reset_thread_def findOneByEmail_def logoutAllDevices_def
  by (intro revoked_steps) (auto intro!: revoked_steps split: option.split)

lemma session_thread_keeps: "thread_keeps (revoked i) (session_thread E q)"
  by (cases "(E, q)" rule: session_thread.cases)
    (auto simp: tmap_def intro!: thread_intros refresh_thread_keeps login_thread_keeps logout_thread_keeps
      logout_all_thread_keeps reset_thread_keeps)

text \<open>
  C11. However refreshes, logins, logouts and password resets interleave, a session that was revoked stays
  revoked, and the tables stay in order.
\<close>
theorem revoked_stays_revoked:
  assumes "state_ok s" and "x \<in> set (db_tokens (as_db s))" and "rt_revokedAt x \<noteq> None"
  shows "state_ok (snd (interleave schedule (map (session_thread E) requests) s))
    \<and> (\<forall>r\<in>set (db_tokens (as_db (snd (interleave schedule (map (session_thread E) requests) s)))).
        rt_id r = rt_id x \<longrightarrow> rt_revokedAt r \<noteq> None)"
proof -
  let ?s = "snd (interleave schedule (map (session_thread E) requests) s)"
  have "revoked (rt_id x) s" unfolding revoked_def using assms by blast
  then have "revoked (rt_id x) ?s"
    by (rule interleave_keeps [where I = "revoked (rt_id x)", rotated]) (simp add: list_all_iff session_thread_keeps)
  then obtain y where y: "state_ok ?s" "y \<in> set (db_tokens (as_db ?s))" "rt_id y = rt_id x" "rt_revokedAt y \<noteq> None"
    unfolding revoked_def by blast
  have "r = y" if "r \<in> set (db_tokens (as_db ?s))" "rt_id r = rt_id x" for r
    using unique_key_eq [OF db_okD(3), of "as_db ?s" r y] y that by (simp add: state_ok_def)
  with y show ?thesis by blast
qed

section \<open>A refresh that overlaps a password reset\<close>

lemma run_tmap: "run (tmap f t) s = (map_sum id f (fst (run t s)), snd (run t s))"
  by (simp add: tmap_def bind_run split: prod.split sum.split)

lemma refresh_first_turn:
  assumes "refresh_lookup E t tok d s = (Inr u, s1)"
  shows "advance (session_thread E (t, Refresh tok d req)) s =
    (tmap Tokens (tcatch (issue_thread E t u (getDeviceData E req) d tok) refresh_failed), s1)"
  using assms by (simp add: refresh_thread_def tmap_def advance_def atomic_def)

lemma lookup_found:
  assumes "refresh_lookup E t tok d s = (Inr u, s1)"
  shows "s1 = s" and "user_exists (u_id u) (as_db s)"
  using assms
  by (auto simp: refresh_lookup_def findByRefreshToken_def bind_run user_exists_def verifyPassword_def dest!: find_first_SomeD
      split: sum.splits option.splits if_splits)

text \<open>What a password reset leaves: no open session of the user.\<close>

lemma reset_closes:
  assumes "forgotPasswordReset E t email code password s = (Inr m, s')"
    and "findOneByEmail email s = (Inr (Some w), s)" and "user_exists v (as_db s)"
  shows "\<forall>r\<in>set (db_tokens (as_db s')). rt_userId r = u_id w \<longrightarrow> rt_revokedAt r \<noteq> None" and "user_exists v (as_db s')"
proof -
  obtain b s1 where r: "users_resetPassword E t (u_id w) password code s = (Inr b, s1)"
    and s': "s' = s1\<lparr>as_db := (as_db s1)\<lparr>db_tokens := update_where (\<lambda>r. rt_revokedAt r = None \<and> rt_userId r = u_id w)
      (\<lambda>r. r\<lparr>rt_revokedAt := Some t\<rparr>) (db_tokens (as_db s1))\<rparr>\<rparr>"
    using assms(1,2)
    by (cases "users_resetPassword E t (u_id w) password code s")
      (auto simp: forgotPasswordReset_def catchp_run bind_run andthen_run logoutAllDevices_def tokens_revoke_run
        split: sum.splits if_splits)
  show "\<forall>r\<in>set (db_tokens (as_db s')). rt_userId r = u_id w \<longrightarrow> rt_revokedAt r \<noteq> None"
    unfolding s' by (auto simp: set_update_where)
  have "user_exists v (as_db s1)"
    using r assms(3)
    by (auto simp: users_resetPassword_def bind_run andthen_run user_update_def verifyPassword_def user_exists_update bad_request_def
        simp del: exists_row_iff split: option.splits if_splits sum.splits)
  then show "user_exists v (as_db s')" by (simp add: s')
qed

text \<open>Issuing tokens where the user has no open session on the device creates one.\<close>

definition fresh_draws :: "auth_env \<Rightarrow> string \<Rightarrow> auth_state \<Rightarrow> bool" where
  "fresh_draws E tok s \<longleftrightarrow> (\<forall>r\<in>set (db_tokens (as_db s)). rt_id r \<noteq> ae_random E (as_draws s + 1)
     \<and> rt_tokenHash r \<noteq> ae_hash E (ae_random E (as_draws s)) tok)"

lemma issue_creates:
  assumes "\<forall>r\<in>set (db_tokens (as_db s)). rt_userId r = u_id u \<longrightarrow> rt_revokedAt r \<noteq> None" and "user_exists (u_id u) (as_db s)"
    and "fresh_draws E (refresh_token_for E t u) s"
  shows "\<exists>resp s' x. issueTokens E t u dv (Some dev) old s = (Inr resp, s') \<and> x \<in> set (db_tokens (as_db s'))
    \<and> rt_userId x = u_id u \<and> rt_deviceId x = dev \<and> rt_revokedAt x = None \<and> t < rt_expiresAt x
    \<and> rt_tokenHash x = ae_hash E (ae_random E (as_draws s)) (refresh_token_for E t u)"
proof -
  have "find_first (open_session (Some (u_id u)) (Some dev)) (db_tokens (as_db s)) = None"
    using assms(1) by (auto simp: open_session_def where_eq_def)
  moreover have "0 < refreshTtlSeconds E" by (simp add: refreshTtlSeconds_def split: option.split)
  moreover have "\<not> exists_row (\<lambda>r. rt_tokenHash r = ae_hash E (ae_random E (as_draws s)) (refresh_token_for E t u)
      \<or> rt_id r = ae_random E (Suc (as_draws s))) (db_tokens (as_db s))"
    using assms(3) by (auto simp: fresh_draws_def)
  ultimately show ?thesis
    using assms(2)
    by (simp add: issueTokens_def saveRefreshToken_def Let_def andthen_run bind_run token_create_def cookie_def ex_disj_distrib
        conj_disj_distribR del: exists_row_iff find_first_None_iff)
qed

text \<open>
  C12. A password reset does not evict who is refreshing: for any refresh whose session is still found and
  any reset of the same account that succeeds, there is a schedule of their steps in which both
  succeed and the account ends up with an open session on the refreshing device, which accepts the
  refresh token that was just handed out.
\<close>
theorem refresh_outlives_reset:
  assumes "hash_ok E" and "refresh_lookup E t tok (Some dev) s = (Inr u, s1)"
    and "forgotPasswordReset E t' email code password s = (Inr m, s2)"
    and "findOneByEmail email s = (Inr (Some w), s)" and "u_id w = u_id u"
    and "fresh_draws E (refresh_token_for E t u) s2"
  shows "\<exists>schedule resp s3 x. interleave schedule (map (session_thread E)
        [(t, Refresh tok (Some dev) req), (t', ResetPassword email code password)]) s =
      ([Done (Inr (Tokens resp)), Done (Inr (Message m))], s3)
    \<and> x \<in> set (db_tokens (as_db s3)) \<and> open_session (Some (u_id u)) (Some dev) x \<and> t < rt_expiresAt x
    \<and> ae_verify E (rt_tokenHash x) (refresh_token_for E t u)"
proof -
  let ?a = "session_thread E (t, Refresh tok (Some dev) req)" and ?b = "session_thread E (t', ResetPassword email code password)"
  let ?a' = "tmap Tokens (tcatch (issue_thread E t u (getDeviceData E req) (Some dev) tok) refresh_failed)"
  note found = lookup_found [OF assms(2)]
  have one: "interleave [0] [?a, ?b] s = ([?a', ?b], s)"
    using refresh_first_turn [OF assms(2), of req] by (simp add: interleave_def turn_def found(1) del: session_thread.simps)
  have "run ?b s = (Inr (Message m), s2)" using assms(3) by (simp add: run_tmap run_reset)
  then obtain n where two: "interleave (replicate n 1) [?a', ?b] s = ([?a', Done (Inr (Message m))], s2)"
    using run_by_turns [of 1 "[?a', ?b]" ?b s] by auto
  note after = reset_closes [OF assms(3,4) found(2), unfolded assms(5)]
  obtain resp s3 x where x: "issueTokens E t u (getDeviceData E req) (Some dev) tok s2 = (Inr resp, s3)"
      "x \<in> set (db_tokens (as_db s3))" "rt_userId x = u_id u" "rt_deviceId x = dev" "rt_revokedAt x = None" "t < rt_expiresAt x"
      "rt_tokenHash x = ae_hash E (ae_random E (as_draws s2)) (refresh_token_for E t u)"
    using issue_creates [OF after assms(6), of "getDeviceData E req" dev tok] by blast
  have "run ?a' s2 = (Inr (Tokens resp), s3)" by (simp add: run_tmap run_issue catchp_run x(1))
  then obtain k where three: "interleave (replicate k 0) [?a', Done (Inr (Message m))] s2 =
      ([Done (Inr (Tokens resp)), Done (Inr (Message m))], s3)"
    using run_by_turns [of 0 "[?a', Done (Inr (Message m))]" ?a' s2] by auto
  have "interleave ([0] @ replicate n 1 @ replicate k 0) [?a, ?b] s = ([Done (Inr (Tokens resp)), Done (Inr (Message m))], s3)"
    unfolding interleave_append [of "[0]"] one prod.case interleave_append [of "replicate n 1"] two three ..
  with x assms(1) show ?thesis
    by (intro exI [of _ "[0] @ replicate n 1 @ replicate k 0"] exI [of _ resp] exI [of _ s3] exI [of _ x])
      (simp add: open_session_def where_eq_def hash_ok_def del: session_thread.simps)
qed

section \<open>Witnesses\<close>

theorem revoked_stays_revoked_witness:
  "list_all (\<lambda>r. rt_revokedAt r \<noteq> None) (filter (\<lambda>r. rt_id r = ''s1'')
    (db_tokens (as_db (snd (interleave [0, 1, 1, 1, 0, 0, 0] (map (session_thread demo_env)
      [(5, Refresh (Some ''old'') (Some ''d1'') demo_request), (6, Logout (Some ''d1'') (Some ''u1'') (Some ''old''))])
      (snd (logoutAll 4 (Some ''u1'') demo_state)))))))"
proof -
  let ?x = "demo_session\<lparr>rt_revokedAt := Some 4\<rparr>"
  have "preserves state_ok (logoutAll 4 (Some ''u1''))"
    unfolding logoutAll_def logoutAllDevices_def by (intro preserves_intros keeps_ok preserves_ret)
  then have ok: "state_ok (snd (logoutAll 4 (Some ''u1'') demo_state))" by (rule preservesD) simp
  have x: "?x \<in> set (db_tokens (as_db (snd (logoutAll 4 (Some ''u1'') demo_state))))" by code_simp
  have "rt_revokedAt ?x \<noteq> None" "rt_id ?x = ''s1''" by (simp_all add: demo_session_def)
  with revoked_stays_revoked [OF ok x, of "[0, 1, 1, 1, 0, 0, 0]" demo_env "[(5, Refresh (Some ''old'') (Some ''d1'') demo_request),
      (6, Logout (Some ''d1'') (Some ''u1'') (Some ''old''))]"]
  show ?thesis by (simp add: list_all_iff)
qed

theorem refresh_outlives_reset_witness:
  "\<exists>schedule resp s3 x. interleave schedule (map (session_thread demo_env)
      [(5, Refresh (Some ''old'') (Some ''d1'') demo_request), (6, ResetPassword (Some ''a@b'') (Some ''code'') ''new'')]) demo_state =
      ([Done (Inr (Tokens resp)), Done (Inr (Message ''Password reset success''))], s3)
    \<and> x \<in> set (db_tokens (as_db s3)) \<and> open_session (Some ''u1'') (Some ''d1'') x"
proof -
  let ?s2 = "snd (forgotPasswordReset demo_env 6 (Some ''a@b'') (Some ''code'') ''new'' demo_state)"
  have "fst (refresh_lookup demo_env 5 (Some ''old'') (Some ''d1'') demo_state) = Inr demo_user" by code_simp
  then obtain s1 where look: "refresh_lookup demo_env 5 (Some ''old'') (Some ''d1'') demo_state = (Inr demo_user, s1)"
    by (metis prod.collapse)
  have "fst (forgotPasswordReset demo_env 6 (Some ''a@b'') (Some ''code'') ''new'' demo_state) = Inr ''Password reset success''"
    by code_simp
  then have reset: "forgotPasswordReset demo_env 6 (Some ''a@b'') (Some ''code'') ''new'' demo_state = (Inr ''Password reset success'', ?s2)"
    by (simp add: prod_eq_iff)
  have "fst (findOneByEmail (Some ''a@b'') demo_state) = Inr (Some demo_user)" by code_simp
  then have who: "findOneByEmail (Some ''a@b'') demo_state = (Inr (Some demo_user), demo_state)"
    by (simp add: findOneByEmail_def)
  have fresh: "fresh_draws demo_env (refresh_token_for demo_env 5 demo_user) ?s2" by code_simp
  have "u_id demo_user = ''u1''" by (simp add: demo_user_def)
  with refresh_outlives_reset [OF demo_hash_ok look reset who refl fresh, of demo_request] show ?thesis by metis
qed

end
