(* ===== verification/PermRace.thy ===== *)
theory PermRace
  imports Roles Threads
begin

text \<open>
  Permissions under requests that overlap: the permission guard of one request and a role taken from its user
  by another. The guard and \<open>RolesService.unassignRole\<close> are cut at what they await: the Redis
  commands, the call of the auth service and the queries. Alone, the steps are the functions of \<open>Permission\<close>
  and \<open>Roles\<close>; in between, the guard may cache what it fetched before the role was taken.
\<close>

section \<open>The guard and the handler in steps\<close>

text \<open>\<open>getPermissions\<close>, with the auth service answering from the tables as they stand when it is called.\<close>

definition permissions_thread :: "int \<Rightarrow> string \<Rightarrow> int \<Rightarrow> (auth_state, exn, string list) thread" where
  "permissions_thread t userId permVersion =
     tbind (atomic (with_cache True (cache_get t userId permVersion))) (\<lambda>cached.
       if cached \<noteq> [] then Done (Inr cached)
       else tcatch
         (tbind (atomic (\<lambda>s. (fetch_permissions (permissions_route (as_db s) userId), s))) (\<lambda>permissions.
            tbind (atomic (with_cache True (cache_set t userId permVersion permissions))) (\<lambda>_. Done (Inr permissions))))
         (\<lambda>e. Done (Inl (provider_error e))))"

definition guard_thread :: "int \<Rightarrow> bool \<Rightarrow> string list option \<Rightarrow> req_user \<Rightarrow> (auth_state, exn, string list option) thread" where
  "guard_thread t isPublic required user =
     (if isPublic then Done (Inr None)
      else (case required of None \<Rightarrow> Done (Inr None)
        | Some req \<Rightarrow>
           if req = [] then Done (Inr None)
           else if usr_type user = Some ''internal'' then Done (Inr None)
           else (case (guard_userId user, guard_permVersion user) of
               (Some userId, Some permVersion) \<Rightarrow>
                 if userId = [] then Done (Inl (ForbiddenException ''Missing user context for permission check''))
                 else tbind (permissions_thread t userId permVersion) (\<lambda>perms.
                   if hasPermission perms req then Done (Inr (Some perms)) else Done (Inl (insufficient req)))
             | _ \<Rightarrow> Done (Inl (ForbiddenException ''Missing user context for permission check'')))))"

definition unassign_thread :: "int \<Rightarrow> string \<Rightarrow> string \<Rightarrow> (auth_state, exn, string \<times> string) thread" where
  "unassign_thread t userId roleName =
     tcatch
      (tbind (atomic (find_role_name roleName)) (\<lambda>role. (case role of
         None \<Rightarrow> Done (Inl (service_exn NOT_FOUND 404 ''Role not found''))
       | Some r \<Rightarrow> tbind (atomic (find_user userId)) (\<lambda>user. (case user of
            None \<Rightarrow> Done (Inl (service_exn NOT_FOUND 404 ''User not found''))
          | Some u \<Rightarrow>
              tbind (atomic (read_db (\<lambda>db. exists_row (has_role userId (ro_id r)) (db_userRoles db)))) (\<lambda>has.
              if \<not> has then Done (Inl (service_exn NOT_FOUND 400 (''User does not have role '' @ quoted_role roleName)))
              else tbind (atomic (write_db (\<lambda>db. set_permVersion t userId (u_permVersion u + 1)
                  (db\<lparr>db_userRoles := delete_where (has_role userId (ro_id r)) (db_userRoles db)\<rparr>)))) (\<lambda>_.
                tbind (atomic (with_cache True (updatePermVersion t userId (u_permVersion u + 1)))) (\<lambda>_.
                  Done (Inr (userId, roleName))))))))))
      (\<lambda>e. Done (Inl (unassign_error e)))"

datatype role_request =
    Guarded "string list option" req_user
  | Unassign string string

datatype role_reply = Admitted "string list option" | Unassigned "string \<times> string"

fun role_thread :: "int \<times> role_request \<Rightarrow> (auth_state, exn, role_reply) thread" where
  "role_thread (t, Guarded required user) = tbind (guard_thread t False required user) (\<lambda>x. Done (Inr (Admitted x)))"
| "role_thread (t, Unassign userId roleName) = tbind (unassign_thread t userId roleName) (\<lambda>x. Done (Inr (Unassigned x)))"

section \<open>Alone, the steps are the functions\<close>

lemma with_cache_up: "with_cache True m s = (fst (m (as_redis s)), s\<lparr>as_redis := snd (m (as_redis s))\<rparr>)"
  by (simp add: with_cache_def split: prod.split)

lemma run_permissions: "run (permissions_thread t u v) s = with_cache True (getPermissions t (permissions_route (as_db s)) u v) s"
proof (cases "cache_get t u v (as_redis s)")
  case (Pair g r)
  then show ?thesis
    by (cases g) (auto simp: permissions_thread_def getPermissions_def with_cache_up bind_run catchp_run andthen_run
        split: prod.split sum.split)
qed

lemma run_guard: "run (guard_thread t p required user) s =
    with_cache True (canActivate_perm t (permissions_route (as_db s)) p required user) s"
  by (auto simp: guard_thread_def canActivate_perm_def run_permissions with_cache_up bind_run
      split: option.split prod.split sum.split)

lemma lift_ends: "lift (Inl e) = throw e" "lift (Inr x) = ret x"
  by (simp_all add: fun_eq_iff)

lemma run_unassign: "run (unassign_thread t u n) = unassignRole True t u n"
proof -
  have "(\<lambda>has. run (if \<not> has then Done (Inl e) else k)) = (\<lambda>has. andthen (throw_if (\<not> has) e) (run k))"
    for e and k :: "(auth_state, exn, string \<times> string) thread"
    by (rule ext) (simp add: andthen_def throw_if_def fun_eq_iff bind_run)
  then show ?thesis
    by (intro ext) (simp add: unassign_thread_def unassignRole_def andthen_def lift_ends option.case_distrib [of run] cong: option.case_cong)
qed

section \<open>A request that overlaps a revocation\<close>

text \<open>A guard that finds nothing cached has fetched the codes after two steps, and not stored them yet.\<close>

definition storing :: "int \<Rightarrow> string \<Rightarrow> int \<Rightarrow> string list \<Rightarrow> string list \<Rightarrow> (auth_state, exn, role_reply) thread" where
  "storing t u v req ps =
     tbind (tbind (tcatch (tbind (atomic (with_cache True (cache_set t u v ps))) (\<lambda>_. Done (Inr ps)))
         (\<lambda>e. Done (Inl (provider_error e))))
       (\<lambda>perms. if hasPermission perms req then Done (Inr (Some perms)) else Done (Inl (insufficient req))))
     (\<lambda>x. Done (Inr (Admitted x)))"

lemma guard_two_turns:
  assumes "perm_ok (as_redis s)" and "fst (cache_get t u v (as_redis s)) = Inr []" and "looked_up user req u v"
  shows "interleave [0, 0] [role_thread (t, Guarded (Some req) user), b] s = ([storing t u v req (permission_codes (as_db s) u), b], s)"
proof -
  have "cache_get t u v (as_redis s) = (Inr [], as_redis s)"
    using assms(1,2) by (simp add: cache_get_slot)
  then show ?thesis
    using assms(3)
    by (simp add: interleave_def turn_def advance_def guard_thread_def permissions_thread_def storing_def looked_up_def atomic_def
        with_cache_up)
qed

lemma run_storing:
  assumes "perm_ok (as_redis s)" and "p \<in> set req" and "p \<in> set ps"
  obtains r where "cache_set t u v ps (as_redis s) = (Inr (), r)"
    "run (storing t u v req ps) s = (Inr (Admitted (Some ps)), s\<lparr>as_redis := r\<rparr>)"
proof (rule cache_set_get [OF assms(1), of t u v ps])
  fix r
  assume r: "cache_set t u v ps (as_redis s) = (Inr (), r)"
  have "hasPermission ps req" unfolding hasPermission_iff using assms(2,3) by blast
  with r show thesis
    using that [OF r] by (simp add: storing_def with_cache_up bind_run catchp_run)
qed

text \<open>
  C13. A role that was taken away can stay in force. When a request of the user overlaps a successful
  \<open>unassignRole\<close>, there is a schedule of their steps in which both succeed and the codes the guard
  fetched before are cached after: from then on, at any time, the guard admits every request of a token of
  that version to the routes of the role, though the tables no longer give the user any code they require.
\<close>
theorem revocation_race:
  assumes "perm_ok (as_redis s)" and "fst (cache_get t u v (as_redis s)) = Inr []" and "looked_up user req u v"
    and "unassignRole True t' u roleName s = (Inr x, s2)"
    and "p \<in> set req" and "p \<in> set (permission_codes (as_db s) u)"
    and "set req \<inter> set (permission_codes (as_db s2) u) = {}"
  shows "\<exists>schedule s3. interleave schedule (map role_thread [(t, Guarded (Some req) user), (t', Unassign u roleName)]) s =
      ([Done (Inr (Admitted (Some (permission_codes (as_db s) u)))), Done (Inr (Unassigned x))], s3)
    \<and> as_db s3 = as_db s2
    \<and> (\<forall>now. canActivate_perm now (permissions_route (as_db s3)) False (Some req) user (as_redis s3) =
        (Inr (Some (permission_codes (as_db s) u)), as_redis s3))
    \<and> (\<forall>now. fst (canActivate_perm now (permissions_route (as_db s3)) False (Some req) user (as_redis s2)) = Inl (insufficient req))"
proof -
  let ?a = "role_thread (t, Guarded (Some req) user)" and ?b = "role_thread (t', Unassign u roleName)"
  let ?ps = "permission_codes (as_db s) u"
  let ?a' = "storing t u v req ?ps" and ?d = "Done (Inr (Unassigned x))"
  obtain w :: user_row where bump: "updatePermVersion t' u (u_permVersion w + 1) (as_redis s) = (Inr (), as_redis s2)"
    by (rule unassignRole_Inr [OF assms(4)]) blast
  have ok2: "perm_ok (as_redis s2)"
    using pcache.bump_total [OF assms(1), of t' u "u_permVersion w + 1"] bump by auto
  note one = guard_two_turns [OF assms(1-3), of ?b]
  have "run ?b s = (Inr (Unassigned x), s2)" using assms(4) by (simp add: bind_run run_unassign)
  then obtain n where two: "interleave (replicate n 1) [?a', ?b] s = ([?a', ?d], s2)"
    using run_by_turns [of 1 "[?a', ?b]" ?b s] by auto
  obtain r where r: "cache_set t u v ?ps (as_redis s2) = (Inr (), r)"
      "run ?a' s2 = (Inr (Admitted (Some ?ps)), s2\<lparr>as_redis := r\<rparr>)"
    by (rule run_storing [OF ok2 assms(5,6)])
  then obtain k where three: "interleave (replicate k 0) [?a', ?d] s2 = ([Done (Inr (Admitted (Some ?ps))), ?d], s2\<lparr>as_redis := r\<rparr>)"
    using run_by_turns [of 0 "[?a', ?d]" ?a' s2] by auto
  have all: "interleave ([0, 0] @ replicate n 1 @ replicate k 0) [?a, ?b] s = ([Done (Inr (Admitted (Some ?ps))), ?d], s2\<lparr>as_redis := r\<rparr>)"
    unfolding interleave_append [of "[0, 0]"] one prod.case interleave_append [of "replicate n 1"] two three ..
  have some: "?ps \<noteq> []" using assms(6) by force
  have "\<forall>now. canActivate_perm now (permissions_route (as_db s2)) False (Some req) user r = (Inr (Some ?ps), r)"
    using perm_cache_stale [OF ok2 r(1) some assms(3)] assms(5,6) by (auto simp: decision_def)
  moreover have "\<forall>now. fst (canActivate_perm now (permissions_route (as_db s2)) False (Some req) user (as_redis s2)) = Inl (insufficient req)"
    using bump_decision [OF assms(1) bump assms(3)] assms(7) by (auto simp: decision_def)
  ultimately show ?thesis using all by (intro exI [of _ "[0, 0] @ replicate n 1 @ replicate k 0"] exI [of _ "s2\<lparr>as_redis := r\<rparr>"]) simp
qed

theorem revocation_race_witness:
  "\<exists>schedule s3. interleave schedule (map role_thread
        [(5, Guarded (Some [''NOTIFICATION_READ'']) (sample_user 1)), (6, Unassign ''u1'' ''user'')]) roles_state =
      ([Done (Inr (Admitted (Some [''NOTIFICATION_READ'']))), Done (Inr (Unassigned (''u1'', ''user'')))], s3)
    \<and> permission_codes (as_db s3) ''u1'' = []
    \<and> fst (canActivate_perm 900 (permissions_route (as_db s3)) False (Some [''NOTIFICATION_READ'']) (sample_user 1) (as_redis s3)) =
      Inr (Some [''NOTIFICATION_READ''])"
proof -
  let ?s2 = "snd (unassignRole True 6 ''u1'' ''user'' roles_state)"
  have "fst (unassignRole True 6 ''u1'' ''user'' roles_state) = Inr (''u1'', ''user'')" by code_simp
  then have un: "unassignRole True 6 ''u1'' ''user'' roles_state = (Inr (''u1'', ''user''), ?s2)" by (simp add: prod_eq_iff)
  have before: "permission_codes (as_db roles_state) ''u1'' = [''NOTIFICATION_READ'']" by code_simp
  have after: "permission_codes (as_db ?s2) ''u1'' = []" by code_simp
  have miss: "fst (cache_get 5 ''u1'' 1 (as_redis roles_state)) = Inr []" by (simp add: cache_get_slot)
  have ok: "perm_ok (as_redis roles_state)" by simp
  have "looked_up (sample_user 1) [''NOTIFICATION_READ''] ''u1'' 1" by simp
  from revocation_race [OF ok miss this un, of "''NOTIFICATION_READ''", unfolded before after]
  obtain schedule s3 where "interleave schedule (map role_thread
        [(5, Guarded (Some [''NOTIFICATION_READ'']) (sample_user 1)), (6, Unassign ''u1'' ''user'')]) roles_state =
      ([Done (Inr (Admitted (Some [''NOTIFICATION_READ'']))), Done (Inr (Unassigned (''u1'', ''user'')))], s3)"
    and "as_db s3 = as_db ?s2"
    and "\<forall>now. canActivate_perm now (permissions_route (as_db s3)) False (Some [''NOTIFICATION_READ'']) (sample_user 1) (as_redis s3) =
      (Inr (Some [''NOTIFICATION_READ'']), as_redis s3)"
    by auto
  with after show ?thesis by (intro exI [of _ schedule] exI [of _ s3]) simp
qed

end
