(* ===== verification/ResetHistory.thy ===== *)
theory ResetHistory
  imports Auth
begin

text \<open>
  The reset of a password over the life of the auth service: any sequence of the requests of
  \<open>auth.service.ts\<close>, by any users and at any times (\<open>history\<close>). What is queued for the mail of a reset
  is followed to the two routes that ask for the code.
\<close>

section \<open>Histories\<close>

datatype account_request =
    Register create_dto "string option"
  | VerifyCode string string
  | ResendCode "string option"
  | SignIn "string option" "string option" auth_request
  | Renew "string option" "string option" auth_request
  | SignOut "string option" "string option" "string option"
  | SignOutAll "string option"
  | Forgot "string option"
  | ForgotVerify "string option" "string option"
  | ForgotReset "string option" "string option" string

fun account_step :: "auth_env \<Rightarrow> int \<times> account_request \<Rightarrow> auth_state \<Rightarrow> auth_state" where
  "account_step E (t, Register dto requestId) s = snd (auth_register E t dto requestId s)"
| "account_step E (t, VerifyCode email code) s = snd (auth_verify t email code s)"
| "account_step E (t, ResendCode email) s = snd (resendCode E t email s)"
| "account_step E (t, SignIn email password req) s = snd (login_route E t email password req s)"
| "account_step E (t, Renew tok d req) s = snd (auth_refresh E t tok d req s)"
| "account_step E (t, SignOut d u tok) s = snd (auth_logoutDevice E t d u tok s)"
| "account_step E (t, SignOutAll u) s = snd (logoutAll t u s)"
| "account_step E (t, Forgot email) s = snd (forgotPassword E t email s)"
| "account_step E (t, ForgotVerify email code) s = snd (forgotPasswordVerify E t email code s)"
| "account_step E (t, ForgotReset email code password) s = snd (forgotPasswordReset E t email code password s)"

definition history :: "auth_env \<Rightarrow> (int \<times> account_request) list \<Rightarrow> auth_state \<Rightarrow> auth_state" where
  "history E reqs s = fold (account_step E) reqs s"

section \<open>Where the hashes come from\<close>

text \<open>Every row holds the hash of a drawn token, and every job the encrypted hash of one.\<close>

definition row_drawn :: "auth_env \<Rightarrow> reset_row \<Rightarrow> bool" where
  "row_drawn E r \<longleftrightarrow> (\<exists>salt n. pw_tokenHash r = ae_hash E salt (ae_random E n))"

definition job_hashed :: "auth_env \<Rightarrow> auth_effect \<Rightarrow> bool" where
  "job_hashed E e = (case e of
     Enqueued name job n \<Rightarrow> (\<exists>salt salt' m key. (\<forall>s. getEncryptKey E s = (Inr key, s))
       \<and> jget ''token'' job = Some (JStr (ae_cipher E salt' (ae_hash E salt (ae_random E m)) key)))
   | _ \<Rightarrow> True)"

definition resets_ok :: "auth_env \<Rightarrow> auth_state \<Rightarrow> bool" where
  "resets_ok E s \<longleftrightarrow> list_all (row_drawn E) (db_resets (as_db s)) \<and> list_all (job_hashed E) (as_out s)"

named_theorems resets_keep \<open>programs that keep what is known of resets\<close>

lemma resets_write [resets_keep]:
  "(\<And>db. list_all (row_drawn E) (db_resets db) \<Longrightarrow> list_all (row_drawn E) (db_resets (f db))) \<Longrightarrow> preserves (resets_ok E) (write_db f)"
  by (simp add: preserves_def resets_ok_def)

lemma resets_effect [resets_keep]: "job_hashed E e \<Longrightarrow> preserves (resets_ok E) (effect e)"
  by (simp add: preserves_def resets_ok_def)

lemma resets_read [resets_keep]: "preserves (resets_ok E) (read_db f)" "preserves (resets_ok E) (draw E')"
    "preserves (resets_ok E) (hashPassword E' p)" "preserves (resets_ok E) (verifyPassword E' h q)"
    "preserves (resets_ok E) (getEncryptKey E')" "preserves (resets_ok E) (encrypt E' x k)"
  by (simp_all add: preserves_def resets_ok_def getEncryptKey_run verifyPassword_def split: option.split)

lemma resets_out [resets_keep]: "preserves (resets_ok E) (cookie n v m)" "preserves (resets_ok E) (clearCookie n)"
    "preserves (resets_ok E) (publish E' sub j)"
  by (simp_all add: preserves_def cookie_def clearCookie_def publish_def resets_ok_def job_hashed_def)

lemmas resets_rules = preserves_intros preserves_ret preserves_lift preserves_throw preserves_if preserves_option

lemma resets_rows [resets_keep]: "preserves (resets_ok E) (user_create row)" "preserves (resets_ok E) (user_update i g)"
    "preserves (resets_ok E) (token_create row')" "preserves (resets_ok E) (token_set_hash i' h e)"
    "preserves (resets_ok E) (tokens_revoke t P)" "preserves (resets_ok E) (findOneByEmail m)"
  unfolding user_create_def user_update_def token_create_def token_set_hash_def tokens_revoke_def findOneByEmail_def
  by (intro resets_rules resets_keep; simp)+

lemma resets_users [resets_keep]: "preserves (resets_ok E) (createOrUpdateEmailOtp E' t u h)" "preserves (resets_ok E) (users_create E' t dto)"
    "preserves (resets_ok E) (veryfiRegister t email code)" "preserves (resets_ok E) (checkActiveEmail email)"
    "preserves (resets_ok E) (validateUser E' em p)" "preserves (resets_ok E) (saveRefreshToken E' t u new dv d old)"
    "preserves (resets_ok E) (findByRefreshToken E' t ui v tok d)" "preserves (resets_ok E) (users_logoutDevice E' t d ui tok)"
    "preserves (resets_ok E) (logoutAllDevices t ui)"
  unfolding createOrUpdateEmailOtp_def users_create_def veryfiRegister_def checkActiveEmail_def validateUser_def saveRefreshToken_def
    findByRefreshToken_def users_logoutDevice_def logoutAllDevices_def Let_def
  by (intro resets_rules resets_keep; simp)+

lemma resets_auth [resets_keep]: "preserves (resets_ok E) (issueTokens E' t user dv d old)" "preserves (resets_ok E) (auth_register E' t dto rid)"
    "preserves (resets_ok E) (auth_verify t email code)" "preserves (resets_ok E) (resendCode E' t em)"
    "preserves (resets_ok E) (login E' t email req)" "preserves (resets_ok E) (local_validate E' em p)"
    "preserves (resets_ok E) (auth_refresh E' t tok d req)" "preserves (resets_ok E) (auth_logoutDevice E' t d ui tok)"
    "preserves (resets_ok E) (logoutAll t ui)"
  unfolding issueTokens_def auth_register_def auth_verify_def resendCode_def login_def local_validate_def auth_refresh_def
    auth_logoutDevice_def logoutAll_def Let_def
  by (intro resets_rules resets_keep; simp)+

lemma resets_login_route [resets_keep]: "preserves (resets_ok E) (login_route E' t em p req)"
  unfolding login_route_def local_guard_def by (intro resets_rules resets_keep)

section \<open>The three routes of a reset\<close>

lemma resets_verify [resets_keep]: "preserves (resets_ok E) (forgotPasswordVerify E' t em code)"
  unfolding forgotPasswordVerify_def verifyPasswordReset_def
  by (intro resets_rules resets_keep) (auto simp: list_all_iff set_update_where row_drawn_def)

lemma resets_reset [resets_keep]: "preserves (resets_ok E) (forgotPasswordReset E' t em code p)"
  unfolding forgotPasswordReset_def users_resetPassword_def by (intro resets_rules resets_keep) (auto simp: set_delete_where list_all_iff)

lemma createPasswordReset_row:
  "list_all (row_drawn E) (db_resets (as_db s)) \<Longrightarrow> list_all (row_drawn E) (db_resets (as_db (snd (createPasswordReset E t u s))))"
  by (auto simp: createPasswordReset_def bind_run andthen_run getEncryptKey_run reset_create_def row_drawn_def split: sum.split)

lemma resets_forgot [resets_keep]: "preserves (resets_ok E) (forgotPassword E t em)"
proof (rule preservesI)
  fix s assume ok: "resets_ok E s"
  show "resets_ok E (snd (forgotPassword E t em s))"
  proof (cases "find_first (\<lambda>u. where_eq em (u_email u)) (db_users (as_db s))")
    case None
    with ok show ?thesis
      by (simp add: forgotPassword_def findOneByEmail_def catchp_run bind_run del: find_first_None_iff)
  next
    case (Some u)
    then have who: "findOneByEmail em s = (Inr (Some u), s)" by (simp add: findOneByEmail_def)
    obtain r s1 where c: "createPasswordReset E t (u_id u) s = (r, s1)" by fastforce
    have db: "as_db (snd (forgotPassword E t em s)) = as_db s1"
      by (auto simp: forgotPassword_def who c catchp_run bind_run andthen_run sendResetPassword_def split: sum.split)
    have "list_all (row_drawn E) (db_resets (as_db s1))"
      using createPasswordReset_row [of E s t "u_id u"] ok c by (simp add: resets_ok_def)
    moreover have "list_all (job_hashed E) (as_out (snd (forgotPassword E t em s)))"
    proof (cases "as_out (snd (forgotPassword E t em s)) = as_out s")
      case False
      from forgotPassword_enqueued [OF who False] obtain k s2 p where
          k: "createPasswordReset E t (u_id u) s = (Inr k, s2)" "reset_event E u k = Inr p"
          and out: "as_out (snd (forgotPassword E t em s)) = as_out s @ [Enqueued ''passwordReset.requested'' (reset_event_json p) 3]" .
      have "pr_token p = rk_token k"
        using k(2) by (auto simp: reset_event_def PasswordResetRequestedSchema_def jget_Cons zod_result_def split: option.splits if_splits)
      moreover obtain salt salt' m key where "\<forall>s. getEncryptKey E s = (Inr key, s)"
          "rk_token k = ae_cipher E salt' (ae_hash E salt (ae_random E m)) key"
        by (rule createPasswordReset_Inr [OF k(1)]) auto
      ultimately have "job_hashed E (Enqueued ''passwordReset.requested'' (reset_event_json p) 3)"
        by (auto simp: job_hashed_def reset_event_json_def jget_Cons)
      with ok out show ?thesis by (simp add: resets_ok_def)
    qed (use ok in \<open>simp add: resets_ok_def\<close>)
    ultimately show ?thesis by (simp add: resets_ok_def db)
  qed
qed

lemma resets_step: "resets_ok E s \<Longrightarrow> resets_ok E (account_step E r s)"
  by (cases "(E, r, s)" rule: account_step.cases) (simp_all add: preservesD resets_keep)

lemma resets_history: "resets_ok E s \<Longrightarrow> resets_ok E (history E reqs s)"
  unfolding history_def by (induction reqs arbitrary: s) (simp_all add: resets_step)

section \<open>What was mailed opens nothing\<close>

text \<open>
  Neither argon2's encoded hash, which begins with its parameters, nor the output of the cipher, which is longer, is
  one of the strings the service draws as a token.
\<close>

definition tokens_hidden :: "auth_env \<Rightarrow> bool" where
  "tokens_hidden E \<longleftrightarrow> (\<forall>salt p n. ae_hash E salt p \<noteq> ae_random E n) \<and> (\<forall>salt x k n. ae_cipher E salt x k \<noteq> ae_random E n)"

lemma code_refused:
  assumes "resets_ok E s" and "hash_ok E" and "\<And>n. code \<noteq> ae_random E n"
  shows "\<exists>e \<in> {service_exn NOT_FOUND 404 ''Email not found'', bad_request ''expired or already used'', bad_request ''Invalid code''}.
      forgotPasswordVerify E t email (Some code) s = (Inl e, s)"
    and "\<exists>e \<in> {bad_request ''Bad request'', bad_request ''The code has not been verified'', bad_request ''Invalid code''}.
      forgotPasswordReset E t email (Some code) password s = (Inl e, s)"
proof -
  have no: "\<not> ae_verify E (pw_tokenHash r) code" if "find_first P (db_resets (as_db s)) = Some r" for P r
    using find_first_SomeD [OF that] assms by (auto simp: resets_ok_def list_all_iff row_drawn_def hash_ok_def) metis
  show "\<exists>e \<in> {service_exn NOT_FOUND 404 ''Email not found'', bad_request ''expired or already used'', bad_request ''Invalid code''}.
      forgotPasswordVerify E t email (Some code) s = (Inl e, s)"
    using no by (auto simp: forgotPasswordVerify_def verifyPasswordReset_def findOneByEmail_def catchp_run bind_run andthen_run
        bad_request_def service_exn_def is_service_error_def simp del: find_first_None_iff split: option.split)
  show "\<exists>e \<in> {bad_request ''Bad request'', bad_request ''The code has not been verified'', bad_request ''Invalid code''}.
      forgotPasswordReset E t email (Some code) password s = (Inl e, s)"
    using no by (auto simp: forgotPasswordReset_def users_resetPassword_def findOneByEmail_def catchp_run bind_run andthen_run
        bad_request_def service_exn_def is_service_error_def simp del: find_first_None_iff split: option.split)
qed

text \<open>
  C35. What is mailed for a password reset opens nothing, ever: after any history of a service that started without pending
  resets, each job queued for a mail carries the encrypted hash of a drawn token; and at any later
  point of the history, for any address and any password, both that value and its decryption are refused as
  the code by the route that verifies it and by the route that sets the password, and change nothing.
\<close>
theorem reset_mail_useless:
  assumes "hash_ok E" and "tokens_hidden E" and "\<And>salt x k. dec (ae_cipher E salt x k) k = x"
    and "db_resets (as_db s) = []" and "as_out s = []"
    and "Enqueued name job n \<in> set (as_out (history E before s))"
  shows "\<exists>mailed key. jget ''token'' job = Some (JStr mailed) \<and> (\<forall>s. getEncryptKey E s = (Inr key, s))
    \<and> (\<forall>code \<in> {mailed, dec mailed key}. \<forall>after t email password. let s' = history E after (history E before s) in
        (\<exists>e \<in> {service_exn NOT_FOUND 404 ''Email not found'', bad_request ''expired or already used'', bad_request ''Invalid code''}.
          forgotPasswordVerify E t email (Some code) s' = (Inl e, s'))
      \<and> (\<exists>e \<in> {bad_request ''Bad request'', bad_request ''The code has not been verified'', bad_request ''Invalid code''}.
          forgotPasswordReset E t email (Some code) password s' = (Inl e, s')))"
proof -
  have ok: "resets_ok E (history E before s)" by (rule resets_history) (simp add: resets_ok_def assms(4,5))
  then have "job_hashed E (Enqueued name job n)" using assms(6) by (auto simp: resets_ok_def list_all_iff)
  then obtain salt salt' m key where key: "\<forall>s. getEncryptKey E s = (Inr key, s)"
      and job: "jget ''token'' job = Some (JStr (ae_cipher E salt' (ae_hash E salt (ae_random E m)) key))"
    by (auto simp: job_hashed_def)
  have "code \<noteq> ae_random E n"
    if "code \<in> {ae_cipher E salt' (ae_hash E salt (ae_random E m)) key, dec (ae_cipher E salt' (ae_hash E salt (ae_random E m)) key) key}" for code n
    using that assms(2) unfolding assms(3) tokens_hidden_def by (metis insertE singletonD)
  with code_refused [OF resets_history [OF ok] assms(1)] key job show ?thesis
    unfolding Let_def by blast
qed

text \<open>A user asks for a reset, presents what was mailed, asks again and tries the mailed value on both routes.\<close>

definition asking_user :: auth_state where
  "asking_user = demo_state\<lparr>as_db := (as_db demo_state)\<lparr>db_resets := []\<rparr>\<rparr>"

theorem reset_mail_useless_witness:
  "\<exists>e s'. forgotPasswordReset demo_env 9 (Some ''a@b'') (Some ''h:r0'') ''new''
      (history demo_env [(6, ForgotVerify (Some ''a@b'') (Some ''c:h:r0'')), (7, Forgot (Some ''a@b''))]
        (history demo_env [(5, Forgot (Some ''a@b''))] asking_user)) = (Inl e, s')"
proof -
  let ?job = "JObj [(''userId'', JStr ''u1''), (''email'', JStr ''a@b''), (''token'', JStr ''c:h:r0''), (''expiresAt'', JStr ''date'')]"
    and ?before = "[(5, Forgot (Some ''a@b''))]" and ?after = "[(6, ForgotVerify (Some ''a@b'') (Some ''c:h:r0'')), (7, Forgot (Some ''a@b''))]"
  have hidden: "tokens_hidden demo_env" by (auto simp: tokens_hidden_def demo_env_def)
  have none: "db_resets (as_db asking_user) = []" "as_out asking_user = []" by (simp_all add: asking_user_def demo_state_def)
  have "as_out (history demo_env ?before asking_user) = [Enqueued ''passwordReset.requested'' ?job 3]" by code_simp
  then have job: "Enqueued ''passwordReset.requested'' ?job 3 \<in> set (as_out (history demo_env ?before asking_user))" by simp
  have dec: "drop 2 (ae_cipher demo_env salt x k) = x" for salt x k by (simp add: demo_env_def)
  have "jget ''token'' ?job = Some (JStr ''c:h:r0'')" by code_simp
  with reset_mail_useless [OF demo_hash_ok hidden, where dec = "\<lambda>x k. drop 2 x", OF dec none job] show ?thesis
    unfolding Let_def by fastforce
qed

end
